theory Spec2Isabelle
  imports Main "HOL-Library.Word"
begin

unbundle bit_operations_syntax

section \<open>Machine types, statuses and raw memory\<close>

text \<open>
  The interpreter (\<^verbatim>\<open>source/interpreter.c\<close>) works on bytes (\<^verbatim>\<open>uacpi_u8\<close>),
  32-bit offsets (\<^verbatim>\<open>uacpi_u32\<close>) and 64-bit AML integers (\<^verbatim>\<open>uacpi_u64\<close>).
  They are modelled as machine words, so \<open>+\<close> and \<open>-\<close> wrap around as in C.
\<close>

type_synonym u8 = "8 word"
type_synonym u16 = "16 word"
type_synonym u32 = "32 word"
type_synonym u64 = "64 word"

text \<open>The status codes the interpreter returns (section 7 of the specification).\<close>

datatype uacpi_status =
    UACPI_STATUS_OUT_OF_MEMORY
  | UACPI_STATUS_OUT_OF_BOUNDS
  | UACPI_STATUS_BAD_BYTECODE
  | UACPI_STATUS_NOT_FOUND
  | UACPI_STATUS_ALREADY_EXISTS
  | UACPI_STATUS_INVALID_ARGUMENT
  | UACPI_STATUS_UNIMPLEMENTED

text \<open>
  A function returning \<^verbatim>\<open>uacpi_status\<close> and writing its result through an out
  pointer is modelled as a function into \<open>uacpi_status + 'a\<close>: \<open>Inl\<close> carries the
  error status, \<open>Inr\<close> the result of a call that returned \<^verbatim>\<open>UACPI_STATUS_OK\<close>.
  Kernel allocations are taken to succeed, so the out-of-memory returns that only
  follow a failed \<^verbatim>\<open>uacpi_kernel_alloc\<close> do not appear as branches.
\<close>

text \<open>
  The value of a byte sequence read as a little-endian number: what \<^verbatim>\<open>memcpy\<close> of
  the bytes into a zeroed integer yields on the little-endian machines ACPI runs on.
\<close>

fun le_nat :: "u8 list \<Rightarrow> nat" where
  "le_nat [] = 0"
| "le_nat (b # bs) = unat b + 256 * le_nat bs"

definition le_word :: "u8 list \<Rightarrow> 'a::len word" where
  "le_word bs = of_nat (le_nat bs)"

text \<open>The first \<open>n\<close> bytes of the storage of an integer, lowest byte first.\<close>

definition word_bytes :: "nat \<Rightarrow> 'a::len word \<Rightarrow> u8 list" where
  "word_bytes n w = map (\<lambda>i. ucast (drop_bit (8 * i) w)) [0..<n]"

text \<open>
  Modelled from the spec: \<^verbatim>\<open>uacpi_memcpy_zerout(dst, src, dst_size, src_size)\<close> is
  defined outside the interpreter source. Following sections 4.5 and 4.6 of the
  specification it copies at most \<open>dst_size\<close> bytes of the source (\<open>min\<close> of the two
  sizes) and zero-pads the remainder of the destination. \<open>src\<close> is the memory that
  starts at the source pointer; the result is the new content of the \<open>dst_size\<close>
  destination bytes.
\<close>

definition uacpi_memcpy_zerout :: "u8 list \<Rightarrow> nat \<Rightarrow> nat \<Rightarrow> u8 list" where
  "uacpi_memcpy_zerout src dst_size src_size =
     take (min src_size dst_size) src @ replicate (dst_size - min src_size dst_size) 0"

section \<open>Call frames and the package length decoder\<close>

record package_length =
  pkg_begin :: u32
  pkg_end :: u32

text \<open>
  The namespace is a tree of nodes keyed by 4-character names (section 2 of the
  specification); its implementation is outside the interpreter source. A node is
  modelled as the list of the names on the way from it up to the root: the root
  (\<^verbatim>\<open>uacpi_namespace_root()\<close>) is the empty list, and \<^verbatim>\<open>node->parent\<close> is the
  tail of the list.
\<close>

type_synonym uacpi_object_name = "u8 list"
type_synonym uacpi_namespace_node = "uacpi_object_name list"

definition uacpi_namespace_root :: uacpi_namespace_node where
  "uacpi_namespace_root = []"

text \<open>
  Of \<^verbatim>\<open>struct call_frame\<close> the decoders read the method's byte code
  (\<^verbatim>\<open>method->code\<close>, whose length is \<^verbatim>\<open>method->size\<close>), the cursor
  \<^verbatim>\<open>code_offset\<close>, which they advance, and the current scope.
\<close>

record call_frame =
  method_code :: "u8 list"
  code_offset :: u32
  cur_scope :: uacpi_namespace_node

definition method_size :: "call_frame \<Rightarrow> u32" where
  "method_size frame = of_nat (length (method_code frame))"

text \<open>\<^verbatim>\<open>call_frame_cursor\<close>: the code from the cursor on.\<close>

definition call_frame_cursor :: "call_frame \<Rightarrow> u8 list" where
  "call_frame_cursor frame = drop (unat (code_offset frame)) (method_code frame)"

text \<open>\<^verbatim>\<open>call_frame_code_bytes_left\<close>: \<^verbatim>\<open>method->size - code_offset\<close>, unsigned.\<close>

definition call_frame_code_bytes_left :: "call_frame \<Rightarrow> u32" where
  "call_frame_code_bytes_left frame = method_size frame - code_offset frame"

text \<open>
  \<^verbatim>\<open>parse_package_length\<close> (lines 2279-2319). \<open>marker_length\<close> is a
  \<^verbatim>\<open>uacpi_u8\<close>; the \<^verbatim>\<open>switch\<close> has the cases 1 and 2, 3, 4, and
  \<open>1 + (lead >> 6)\<close> is always one of them. \<^verbatim>\<open>temp_byte\<close> receives the
  \<open>marker_length - 1\<close> bytes after the lead byte.
\<close>

definition parse_package_length ::
  "call_frame \<Rightarrow> uacpi_status + (package_length \<times> call_frame)" where
  "parse_package_length frame =
     (let begin = code_offset frame;
          left = call_frame_code_bytes_left frame
      in if left < 1 then Inl UACPI_STATUS_BAD_BYTECODE
         else
           let data = call_frame_cursor frame;
               lead = data ! 0;
               marker_length = (1 + drop_bit 6 lead :: u8)
           in if left < ucast marker_length then Inl UACPI_STATUS_BAD_BYTECODE
              else
                let size =
                      (if marker_length = 1 then (ucast (lead AND 0x3F) :: u32)
                       else
                         let temp_byte = (le_word (take (unat marker_length - 1) (tl data)) :: u32)
                         in ucast (lead AND 0xF) OR push_bit 4 temp_byte)
                in Inr (\<lparr>pkg_begin = begin, pkg_end = begin + size\<rparr>,
                        frame\<lparr>code_offset := code_offset frame + ucast marker_length\<rparr>))"

text \<open>
  The encoding as section 4.4 of the specification words it, on natural numbers:
  the count of extra bytes is the lead byte shifted right by 6; with no extra byte
  the size is the low 6 bits of the lead byte, otherwise its low nibble combined with
  the following bytes (little-endian) shifted left by 4.
\<close>

definition pkglen_extra_bytes :: "u8 \<Rightarrow> nat" where
  "pkglen_extra_bytes lead = unat lead div 64"

definition pkglen_total_size :: "u8 \<Rightarrow> u8 list \<Rightarrow> nat" where
  "pkglen_total_size lead next_bytes =
     (if pkglen_extra_bytes lead = 0 then unat lead mod 64
      else unat lead mod 16 + 16 * le_nat next_bytes)"

section \<open>The object model\<close>

text \<open>
  \<^verbatim>\<open>uacpi_object\<close> is a type tag with a union of payloads (section 3 of the
  specification). It is modelled as a tagged variant: an object is its value, and a
  reference holds the object it points to (\<^verbatim>\<open>inner_object\<close>). Reference counts
  are not modelled: a copy of an object is an equal value. Payloads the modelled
  handlers never read (methods, mutexes, devices, ...) are left out.
\<close>

datatype uacpi_object_type =
    UACPI_OBJECT_UNINITIALIZED
  | UACPI_OBJECT_INTEGER
  | UACPI_OBJECT_STRING
  | UACPI_OBJECT_BUFFER
  | UACPI_OBJECT_PACKAGE
  | UACPI_OBJECT_REFERENCE
  | UACPI_OBJECT_BUFFER_FIELD
  | UACPI_OBJECT_BUFFER_INDEX
  | UACPI_OBJECT_OPERATION_REGION
  | UACPI_OBJECT_METHOD
  | UACPI_OBJECT_MUTEX
  | UACPI_OBJECT_PROCESSOR
  | UACPI_OBJECT_POWER_RESOURCE
  | UACPI_OBJECT_THERMAL_ZONE
  | UACPI_OBJECT_DEVICE
  | UACPI_OBJECT_DEBUG

datatype uacpi_reference_kind =
    UACPI_REFERENCE_KIND_REFOF
  | UACPI_REFERENCE_KIND_LOCAL
  | UACPI_REFERENCE_KIND_ARG
  | UACPI_REFERENCE_KIND_NAMED
  | UACPI_REFERENCE_KIND_PKG_INDEX

text \<open>
  \<^verbatim>\<open>uacpi_buffer_field\<close>: a bit range of a backing buffer. \<open>backing\<close> is the content
  of \<^verbatim>\<open>backing->data\<close>.
\<close>

record uacpi_buffer_field =
  backing :: "u8 list"
  bit_index :: nat
  bit_length :: nat
  force_buffer :: bool

datatype uacpi_object =
    Uninitialized
  | Integer u64
  | String "u8 list"
  | Buffer "u8 list"
  | Package "uacpi_object list"
  | Reference uacpi_reference_kind uacpi_object
  | BufferField uacpi_buffer_field
  | BufferIndex "u8 list" nat
  | OperationRegion
  | Method
  | Mutex
  | Processor
  | PowerResource
  | ThermalZone
  | Device
  | Debug

fun object_type :: "uacpi_object \<Rightarrow> uacpi_object_type" where
  "object_type Uninitialized = UACPI_OBJECT_UNINITIALIZED"
| "object_type (Integer v) = UACPI_OBJECT_INTEGER"
| "object_type (String s) = UACPI_OBJECT_STRING"
| "object_type (Buffer b) = UACPI_OBJECT_BUFFER"
| "object_type (Package xs) = UACPI_OBJECT_PACKAGE"
| "object_type (Reference k x) = UACPI_OBJECT_REFERENCE"
| "object_type (BufferField f) = UACPI_OBJECT_BUFFER_FIELD"
| "object_type (BufferIndex b i) = UACPI_OBJECT_BUFFER_INDEX"
| "object_type OperationRegion = UACPI_OBJECT_OPERATION_REGION"
| "object_type Method = UACPI_OBJECT_METHOD"
| "object_type Mutex = UACPI_OBJECT_MUTEX"
| "object_type Processor = UACPI_OBJECT_PROCESSOR"
| "object_type PowerResource = UACPI_OBJECT_POWER_RESOURCE"
| "object_type ThermalZone = UACPI_OBJECT_THERMAL_ZONE"
| "object_type Device = UACPI_OBJECT_DEVICE"
| "object_type Debug = UACPI_OBJECT_DEBUG"

text \<open>
  The payload members the handlers read. \<^verbatim>\<open>obj->buffer\<close> is shared by strings and
  buffers; \<^verbatim>\<open>obj->inner_object\<close> and \<^verbatim>\<open>obj->flags\<close> (the reference kind) are read
  of references only. On an object of another type the C code would read another
  member of the union; the handlers below reach these reads only behind a test of the
  type, and the models give the tag's default there.
\<close>

fun object_buffer :: "uacpi_object \<Rightarrow> u8 list" where
  "object_buffer (String s) = s"
| "object_buffer (Buffer b) = b"
| "object_buffer obj = []"

fun inner_object :: "uacpi_object \<Rightarrow> uacpi_object" where
  "inner_object (Reference k x) = x"
| "inner_object obj = Uninitialized"

text \<open>
  The opcodes the modelled handlers dispatch on (\<^verbatim>\<open>uacpi_aml_op\<close>, the
  \<^verbatim>\<open>op->code\<close> of the current operation).
\<close>

datatype uacpi_aml_op =
    UACPI_AML_OP_AddOp
  | UACPI_AML_OP_SubtractOp
  | UACPI_AML_OP_MultiplyOp
  | UACPI_AML_OP_DivideOp
  | UACPI_AML_OP_ShiftLeftOp
  | UACPI_AML_OP_ShiftRightOp
  | UACPI_AML_OP_AndOp
  | UACPI_AML_OP_NandOp
  | UACPI_AML_OP_OrOp
  | UACPI_AML_OP_NorOp
  | UACPI_AML_OP_XorOp
  | UACPI_AML_OP_ModOp
  | UACPI_AML_OP_LEqualOp
  | UACPI_AML_OP_LLessOp
  | UACPI_AML_OP_LGreaterOp
  | UACPI_AML_OP_LandOp
  | UACPI_AML_OP_LorOp
  | UACPI_AML_OP_ToIntegerOp
  | UACPI_AML_OP_ToBufferOp
  | UACPI_AML_OP_ToHexStringOp
  | UACPI_AML_OP_ToDecimalStringOp
  | UACPI_AML_OP_RefOfOp
  | UACPI_AML_OP_CondRefOfOp
  | UACPI_AML_OP_DerefOfOp
  | UACPI_AML_OP_StoreOp
  | UACPI_AML_OP_CopyObjectOp

text \<open>
  The run-time context bit \<^verbatim>\<open>g_uacpi_rt_ctx.is_rev1\<close> is a parameter \<open>is_rev1\<close> of
  every function that reads it.
\<close>

definition sizeof_int :: "bool \<Rightarrow> nat" where
  "sizeof_int is_rev1 = (if is_rev1 then 4 else 8)"

definition ones :: "bool \<Rightarrow> u64" where
  "ones is_rev1 = (if is_rev1 then 0xFFFFFFFF else 0xFFFFFFFFFFFFFFFF)"

text \<open>
  Modelled from the spec: \<^verbatim>\<open>uacpi_object_assign(dst, src, behavior)\<close> is defined
  outside the interpreter source. The specification uses it to copy \<open>src\<close> into the
  result slot \<open>dst\<close> (sections 4.5 and 4.6: "copy the node's underlying object into
  the result slot", "overwrite with a deep copy"); a shallow copy shares buffers and
  packages with the source, a deep copy duplicates them. In a model of values both
  leave \<open>dst\<close> holding the value of \<open>src\<close>.
\<close>

datatype uacpi_assign_behavior =
    UACPI_ASSIGN_BEHAVIOR_DEEP_COPY
  | UACPI_ASSIGN_BEHAVIOR_SHALLOW_COPY

definition uacpi_object_assign ::
  "uacpi_object \<Rightarrow> uacpi_object \<Rightarrow> uacpi_assign_behavior \<Rightarrow> uacpi_status + uacpi_object" where
  "uacpi_object_assign dst src behavior = Inr src"

section \<open>Binary arithmetic\<close>

text \<open>
  The C operator \<^verbatim>\<open>%\<close> on unsigned 64-bit operands. With a zero divisor its
  behaviour is undefined (on x86 the division instruction raises a divide error), so
  the model has no value there.
\<close>

definition c_umod :: "u64 \<Rightarrow> u64 \<Rightarrow> u64 option" where
  "c_umod lhs rhs = (if rhs = 0 then None else Some (lhs mod rhs))"

text \<open>
  \<^verbatim>\<open>do_binary_math\<close> (lines 1497-1561) on \<open>lhs = arg0->integer\<close> and
  \<open>rhs = arg1->integer\<close>. The result is the pair of the value stored to
  \<^verbatim>\<open>tgt0->integer\<close> and, for Divide, the value stored to \<^verbatim>\<open>tgt1->integer\<close>;
  \<open>None\<close> where the C code has no defined behaviour (\<^verbatim>\<open>lhs % 0\<close>, or the
  uninitialised \<^verbatim>\<open>res\<close> of the \<^verbatim>\<open>default\<close> case). For Divide the quotient is
  assigned first, with the warning and the value 0 when \<open>rhs\<close> is 0, and control
  then falls through into the Mod case.
\<close>

definition do_binary_math ::
  "bool \<Rightarrow> uacpi_aml_op \<Rightarrow> u64 \<Rightarrow> u64 \<Rightarrow> (u64 \<times> u64 option) option" where
  "do_binary_math is_rev1 op lhs rhs =
     (case op of
        UACPI_AML_OP_AddOp \<Rightarrow> Some (lhs + rhs, None)
      | UACPI_AML_OP_SubtractOp \<Rightarrow> Some (lhs - rhs, None)
      | UACPI_AML_OP_MultiplyOp \<Rightarrow> Some (lhs * rhs, None)
      | UACPI_AML_OP_ShiftLeftOp \<Rightarrow>
          Some (if rhs \<le> (if is_rev1 then 31 else 63) then push_bit (unat rhs) lhs else 0, None)
      | UACPI_AML_OP_ShiftRightOp \<Rightarrow>
          Some (if rhs \<le> (if is_rev1 then 31 else 63) then drop_bit (unat rhs) lhs else 0, None)
      | UACPI_AML_OP_NandOp \<Rightarrow> Some (NOT (rhs AND lhs), None)
      | UACPI_AML_OP_AndOp \<Rightarrow> Some (rhs AND lhs, None)
      | UACPI_AML_OP_NorOp \<Rightarrow> Some (NOT (rhs OR lhs), None)
      | UACPI_AML_OP_OrOp \<Rightarrow> Some (rhs OR lhs, None)
      | UACPI_AML_OP_XorOp \<Rightarrow> Some (rhs XOR lhs, None)
      | UACPI_AML_OP_DivideOp \<Rightarrow>
          (let tgt1 = (if rhs > 0 then lhs div rhs else 0)
           in case c_umod lhs rhs of None \<Rightarrow> None | Some res \<Rightarrow> Some (res, Some tgt1))
      | UACPI_AML_OP_ModOp \<Rightarrow>
          (case c_umod lhs rhs of None \<Rightarrow> None | Some res \<Rightarrow> Some (res, None))
      | _ \<Rightarrow> None)"

text \<open>
  \<^verbatim>\<open>handle_binary_math\<close> (lines 1563-1582) picks the operands and the targets
  out of the items of the operation: \<open>arg0\<close> and \<open>arg1\<close> are the integers of items 0
  and 1; for Divide \<^verbatim>\<open>tgt0\<close> is item 4 and \<^verbatim>\<open>tgt1\<close> item 5, otherwise
  \<^verbatim>\<open>tgt0\<close> is item 3. The model returns the integer written to each item, as
  pairs of item index and value.
\<close>

definition handle_binary_math ::
  "bool \<Rightarrow> uacpi_aml_op \<Rightarrow> u64 \<Rightarrow> u64 \<Rightarrow> (nat \<times> u64) list option" where
  "handle_binary_math is_rev1 op arg0 arg1 =
     (case do_binary_math is_rev1 op arg0 arg1 of
        None \<Rightarrow> None
      | Some (res, tgt1) \<Rightarrow>
          if op = UACPI_AML_OP_DivideOp
          then Some ((4, res) # (case tgt1 of None \<Rightarrow> [] | Some q \<Rightarrow> [(5, q)]))
          else Some [(3, res)])"

section \<open>Object storage and the conversion handlers\<close>

text \<open>
  \<^verbatim>\<open>get_object_storage\<close> (lines 692-724) yields the pointer and length of the bytes
  that hold an object's value; the model returns these \<open>len\<close> bytes. The storage of an
  integer is the first \<open>sizeof_int\<close> bytes of its 64-bit value.
\<close>

definition get_object_storage ::
  "bool \<Rightarrow> uacpi_object \<Rightarrow> bool \<Rightarrow> uacpi_status + u8 list" where
  "get_object_storage is_rev1 obj include_null =
     (case obj of
        Integer v \<Rightarrow> Inr (word_bytes (sizeof_int is_rev1) v)
      | String s \<Rightarrow>
          (let len = length s;
               len = (if len \<noteq> 0 \<and> \<not> include_null then len - 1 else len)
           in Inr (take len s))
      | Buffer b \<Rightarrow> Inr b
      | Reference k x \<Rightarrow> Inl UACPI_STATUS_INVALID_ARGUMENT
      | _ \<Rightarrow> Inl UACPI_STATUS_BAD_BYTECODE)"

text \<open>
  The C library of the project (\<^verbatim>\<open>uacpi_strtoull\<close>, \<^verbatim>\<open>uacpi_snprintf\<close>) is not part
  of the interpreter source; the functions of it that the conversion handlers call are
  parameters: \<open>strtoull\<close> parses the text of a string, \<open>snprintf_int is_hex\<close> prints
  a 64-bit integer with \<^verbatim>\<open>%X\<close> or \<^verbatim>\<open>%u\<close>, \<open>snprintf_byte is_hex\<close> prints a byte with
  \<^verbatim>\<open>0x%02X\<close> or \<^verbatim>\<open>%d\<close>.
\<close>

record uacpi_stdlib =
  strtoull :: "u8 list \<Rightarrow> u64"
  snprintf_int :: "bool \<Rightarrow> u64 \<Rightarrow> u8 list"
  snprintf_byte :: "bool \<Rightarrow> u8 \<Rightarrow> u8 list"

text \<open>
  \<^verbatim>\<open>object_to_integer\<close> (lines 1710-1734). For a buffer,
  \<open>min max_buffer_bytes size\<close> bytes are copied into the zeroed 64-bit result.
\<close>

definition object_to_integer :: "uacpi_stdlib \<Rightarrow> uacpi_object \<Rightarrow> nat \<Rightarrow> u64" where
  "object_to_integer lib obj max_buffer_bytes =
     (case obj of
        Integer v \<Rightarrow> v
      | Buffer b \<Rightarrow>
          (let bytes = min max_buffer_bytes (length b)
           in le_word (uacpi_memcpy_zerout b 8 bytes))
      | String s \<Rightarrow> strtoull lib s
      | _ \<Rightarrow> 0)"

text \<open>\<^verbatim>\<open>integer_to_string\<close> and \<^verbatim>\<open>buffer_to_string\<close> (lines 1736-1828): the text of the new string, with its terminator.\<close>

definition integer_to_string :: "uacpi_stdlib \<Rightarrow> u64 \<Rightarrow> bool \<Rightarrow> u8 list" where
  "integer_to_string lib integer is_hex =
     (if is_hex then [0x30, 0x78] else []) @ snprintf_int lib is_hex integer @ [0]"

fun buffer_to_string :: "uacpi_stdlib \<Rightarrow> u8 list \<Rightarrow> bool \<Rightarrow> u8 list" where
  "buffer_to_string lib [] is_hex = [0]"
| "buffer_to_string lib [b] is_hex = snprintf_byte lib is_hex b @ [0]"
| "buffer_to_string lib (b # bs) is_hex =
     snprintf_byte lib is_hex b @ [0x2C] @ buffer_to_string lib bs is_hex"

text \<open>
  \<^verbatim>\<open>make_null_string\<close> and \<^verbatim>\<open>make_null_buffer\<close> (lines 1830-1856): one zeroed
  byte is allocated; a string gets size 1, a buffer keeps size 0.
\<close>

definition make_null_string :: "u8 list" where
  "make_null_string = [0]"

definition make_null_buffer :: "u8 list" where
  "make_null_buffer = []"

text \<open>
  \<^verbatim>\<open>handle_to\<close> (lines 1858-1915): \<open>src\<close> is item 0, the result object item 2.
  The result object is allocated by the opcode's parse program with the type of the
  conversion (an Integer for ToInteger, a String for ToHexString and ToDecimalString,
  a Buffer for ToBuffer); the handler fills in its payload, and the model returns the
  object it then is. The hex and decimal conversions of a source that is neither an
  integer nor a buffer fall through to the code of ToBuffer.
\<close>

definition to_result :: "uacpi_aml_op \<Rightarrow> u8 list \<Rightarrow> uacpi_object" where
  "to_result op bytes = (if op = UACPI_AML_OP_ToBufferOp then Buffer bytes else String bytes)"

definition handle_to ::
  "bool \<Rightarrow> uacpi_stdlib \<Rightarrow> uacpi_aml_op \<Rightarrow> uacpi_object \<Rightarrow> uacpi_status + uacpi_object" where
  "handle_to is_rev1 lib op src =
     (let to_buffer =
            (case get_object_storage is_rev1 src True of
               Inl ret \<Rightarrow> Inl ret
             | Inr buf \<Rightarrow>
                 if length buf = 0 then Inr (to_result op make_null_buffer)
                 else Inr (to_result op buf))
      in if op = UACPI_AML_OP_ToIntegerOp then Inr (Integer (object_to_integer lib src 8))
         else if op = UACPI_AML_OP_ToHexStringOp \<or> op = UACPI_AML_OP_ToDecimalStringOp then
           (let is_hex = (op = UACPI_AML_OP_ToHexStringOp)
            in case src of
                 Integer v \<Rightarrow> Inr (String (integer_to_string lib v is_hex))
               | Buffer b \<Rightarrow>
                   if length b = 0 then Inr (String make_null_string)
                   else Inr (String (buffer_to_string lib b is_hex))
               | _ \<Rightarrow> to_buffer)
         else if op = UACPI_AML_OP_ToBufferOp then to_buffer
         else Inl UACPI_STATUS_INVALID_ARGUMENT)"

text \<open>
  \<open>ToBuffer (ToInteger src)\<close>: the result of the first conversion is the source of the
  second; an error of the first ends the evaluation.
\<close>

definition to_buffer_of_to_integer ::
  "bool \<Rightarrow> uacpi_stdlib \<Rightarrow> uacpi_object \<Rightarrow> uacpi_status + uacpi_object" where
  "to_buffer_of_to_integer is_rev1 lib src =
     (case handle_to is_rev1 lib UACPI_AML_OP_ToIntegerOp src of
        Inl ret \<Rightarrow> Inl ret
      | Inr i \<Rightarrow> handle_to is_rev1 lib UACPI_AML_OP_ToBufferOp i)"

text \<open>
  A library for closed instances: none of its functions is reached on an integer or a
  buffer source of \<open>ToInteger\<close> and \<open>ToBuffer\<close>.
\<close>

definition stub_stdlib :: uacpi_stdlib where
  "stub_stdlib = \<lparr>strtoull = (\<lambda>s. 0), snprintf_int = (\<lambda>h v. []), snprintf_byte = (\<lambda>h b. [])\<rparr>"

section \<open>Logical comparison\<close>

text \<open>
  Modelled from the spec: \<^verbatim>\<open>uacpi_memcmp(a, b, n)\<close> is defined outside the interpreter
  source. Section 4.5 of the specification has strings and buffers compared "by
  content": the first \<open>n\<close> bytes are compared in order, and the first byte that
  differs decides the sign of the result.
\<close>

fun uacpi_memcmp :: "u8 list \<Rightarrow> u8 list \<Rightarrow> nat \<Rightarrow> int" where
  "uacpi_memcmp (x # xs) (y # ys) (Suc n) =
     (if x = y then uacpi_memcmp xs ys n else if x < y then - 1 else 1)"
| "uacpi_memcmp xs ys n = 0"

text \<open>
  \<^verbatim>\<open>obj->integer\<close>. Of an Integer it is the value. Of an object of another type the
  member \<^verbatim>\<open>integer\<close> overlays the payload of that type in the union (a pointer for a
  package); \<open>word\<close> stands for the 64 bits read there, which depend on where the
  payload lives and not on the object's value.
\<close>

definition object_integer :: "u64 \<Rightarrow> uacpi_object \<Rightarrow> u64" where
  "object_integer word obj = (case obj of Integer v \<Rightarrow> v | _ \<Rightarrow> word)"

text \<open>\<^verbatim>\<open>handle_logical_equality\<close> (lines 2173-2192).\<close>

definition handle_logical_equality ::
  "uacpi_object \<Rightarrow> u64 \<Rightarrow> uacpi_object \<Rightarrow> u64 \<Rightarrow> bool" where
  "handle_logical_equality lhs lhs_word rhs rhs_word =
     (if object_type lhs = UACPI_OBJECT_STRING \<or> object_type lhs = UACPI_OBJECT_BUFFER then
        (let res = (length (object_buffer lhs) = length (object_buffer rhs))
         in if res \<and> length (object_buffer lhs) \<noteq> 0
            then uacpi_memcmp (object_buffer lhs) (object_buffer rhs) (length (object_buffer lhs)) = 0
            else res)
      else if object_type lhs = UACPI_OBJECT_INTEGER then
        object_integer lhs_word lhs = object_integer rhs_word rhs
      else False)"

text \<open>\<^verbatim>\<open>handle_logical_less_or_greater\<close> (lines 2194-2224).\<close>

definition handle_logical_less_or_greater ::
  "uacpi_aml_op \<Rightarrow> uacpi_object \<Rightarrow> u64 \<Rightarrow> uacpi_object \<Rightarrow> u64 \<Rightarrow> bool" where
  "handle_logical_less_or_greater op lhs lhs_word rhs rhs_word =
     (if object_type lhs = UACPI_OBJECT_STRING \<or> object_type lhs = UACPI_OBJECT_BUFFER then
        (let lhs_buf = object_buffer lhs;
             rhs_buf = object_buffer rhs;
             res = uacpi_memcmp lhs_buf rhs_buf (min (length lhs_buf) (length rhs_buf));
             res = (if res = 0 then
                      (if length lhs_buf < length rhs_buf then - 1
                       else if length lhs_buf > length rhs_buf then 1
                       else res)
                    else res)
         in if op = UACPI_AML_OP_LLessOp then res < 0 else res > 0)
      else if op = UACPI_AML_OP_LLessOp
        then object_integer lhs_word lhs < object_integer rhs_word rhs
        else object_integer lhs_word lhs > object_integer rhs_word rhs)"

text \<open>
  \<^verbatim>\<open>handle_binary_logic\<close> (lines 2226-2267): \<open>lhs\<close> and \<open>rhs\<close> are items 0 and 1;
  the result is the integer stored to item 2.
\<close>

definition handle_binary_logic ::
  "bool \<Rightarrow> uacpi_stdlib \<Rightarrow> uacpi_aml_op \<Rightarrow> uacpi_object \<Rightarrow> u64 \<Rightarrow> uacpi_object \<Rightarrow> u64
     \<Rightarrow> uacpi_status + u64" where
  "handle_binary_logic is_rev1 lib op lhs lhs_word rhs rhs_word =
     (if op = UACPI_AML_OP_LEqualOp \<or> op = UACPI_AML_OP_LLessOp \<or> op = UACPI_AML_OP_LGreaterOp then
        (if object_type lhs \<noteq> object_type rhs then Inl UACPI_STATUS_BAD_BYTECODE
         else
           let res = (if op = UACPI_AML_OP_LEqualOp
                      then handle_logical_equality lhs lhs_word rhs rhs_word
                      else handle_logical_less_or_greater op lhs lhs_word rhs rhs_word)
           in Inr (if res then ones is_rev1 else 0))
      else
        (let lhs_int = object_to_integer lib lhs 4;
             rhs_int = object_to_integer lib rhs 4;
             res = (if op = UACPI_AML_OP_LandOp
                    then lhs_int \<noteq> 0 \<and> rhs_int \<noteq> 0
                    else lhs_int \<noteq> 0 \<or> rhs_int \<noteq> 0)
         in Inr (if res then ones is_rev1 else 0)))"

section \<open>References\<close>

text \<open>
  \<^verbatim>\<open>reference_unwind\<close> (lines 1258-1272) walks \<^verbatim>\<open>inner_object\<close> down to the first
  object that is not a reference and returns its parent, the last reference of the
  chain (the object itself when it is no reference). A reference of the model always
  holds an object, so the \<^verbatim>\<open>NULL\<close> exit of the loop has no counterpart.
\<close>

fun reference_unwind :: "uacpi_object \<Rightarrow> uacpi_object" where
  "reference_unwind (Reference k x) =
     (if object_type x \<noteq> UACPI_OBJECT_REFERENCE then Reference k x else reference_unwind x)"
| "reference_unwind obj = obj"

text \<open>
  The object at the bottom of a reference chain, as the specification words it: "the
  bottom-most non-reference".
\<close>

fun bottom_object :: "uacpi_object \<Rightarrow> uacpi_object" where
  "bottom_object (Reference k x) = bottom_object x"
| "bottom_object obj = obj"

text \<open>
  \<^verbatim>\<open>handle_ref_or_deref_of\<close> (lines 1439-1495). \<open>src\<close> is item 0; \<open>dst\<close> is item 2 for
  CondRefOf and item 1 otherwise, and the model returns its index with the object it
  becomes. RefOf and CondRefOf set the type and the inner object of \<open>dst\<close>; its flags
  stay as allocated, zero, which is the kind RefOf (section 4.5 of the specification:
  "RefOf wraps the operand in a RefOf Reference"). DerefOf of a buffer index reads the
  one byte at \<^verbatim>\<open>buffer_index_cursor\<close> into the zeroed integer.
\<close>

definition handle_ref_or_deref_of ::
  "uacpi_aml_op \<Rightarrow> uacpi_object \<Rightarrow> uacpi_object \<Rightarrow> uacpi_status + (nat \<times> uacpi_object)" where
  "handle_ref_or_deref_of op src dst =
     (let dst_idx = (if op = UACPI_AML_OP_CondRefOfOp then 2 else 1 :: nat)
      in if op = UACPI_AML_OP_DerefOfOp then
           (let was_a_reference = (object_type src = UACPI_OBJECT_REFERENCE);
                src = (if was_a_reference then inner_object (reference_unwind src) else src)
            in case src of
                 BufferIndex buf idx \<Rightarrow>
                   Inr (dst_idx, Integer (le_word (uacpi_memcpy_zerout (drop idx buf) 8 1)))
               | _ \<Rightarrow>
                   if \<not> was_a_reference then Inl UACPI_STATUS_BAD_BYTECODE
                   else (case uacpi_object_assign dst src UACPI_ASSIGN_BEHAVIOR_SHALLOW_COPY of
                           Inl ret \<Rightarrow> Inl ret
                         | Inr d \<Rightarrow> Inr (dst_idx, d)))
         else Inr (dst_idx, Reference UACPI_REFERENCE_KIND_REFOF src))"

text \<open>
  \<open>DerefOf (RefOf x)\<close>: the object RefOf produced is the operand of DerefOf. Each
  result object starts out Uninitialized.
\<close>

definition deref_of_ref_of :: "uacpi_object \<Rightarrow> uacpi_status + (nat \<times> uacpi_object)" where
  "deref_of_ref_of x =
     (case handle_ref_or_deref_of UACPI_AML_OP_RefOfOp x Uninitialized of
        Inl ret \<Rightarrow> Inl ret
      | Inr (i, r) \<Rightarrow> handle_ref_or_deref_of UACPI_AML_OP_DerefOfOp r Uninitialized)"

text \<open>
  What DerefOf yields for the object at the bottom of the chain: of a buffer index an
  Integer equal to the byte at the index, of any other object the object.
\<close>

definition deref_value :: "uacpi_object \<Rightarrow> uacpi_object" where
  "deref_value obj = (case obj of BufferIndex buf idx \<Rightarrow> Integer (ucast (buf ! idx)) | _ \<Rightarrow> obj)"

text \<open>
  A buffer index lies within its buffer: \<^verbatim>\<open>handle_index\<close> creates none without
  \<^verbatim>\<open>ensure_valid_idx\<close>.
\<close>

definition index_in_bounds :: "uacpi_object \<Rightarrow> bool" where
  "index_in_bounds obj = (case obj of BufferIndex buf idx \<Rightarrow> idx < length buf | _ \<Rightarrow> True)"

section \<open>Buffer build\<close>

text \<open>
  \<^verbatim>\<open>handle_buffer\<close> (lines 483-538). Item 0 is the package length of the Buffer op,
  item 1 the object of the declared size (\<open>declared_size\<close> is its integer), item 2
  the recorded offset of the first initializer byte (\<open>immediate\<close>, converted to the
  \<^verbatim>\<open>uacpi_u32\<close> \<open>aml_offset\<close>), item 3 the buffer object. The result is the data of
  the new buffer; its size is \<open>buffer_size\<close>.
\<close>

definition handle_buffer ::
  "call_frame \<Rightarrow> package_length \<Rightarrow> u64 \<Rightarrow> u64 \<Rightarrow> uacpi_status + u8 list" where
  "handle_buffer frame pkg declared_size immediate =
     (let aml_offset = (ucast immediate :: u32);
          src = drop (unat aml_offset) (method_code frame);
          init_size = pkg_end pkg - aml_offset
      in if pkg_end pkg > method_size frame then Inl UACPI_STATUS_BAD_BYTECODE
         else if declared_size > 0xE0000000 then Inl UACPI_STATUS_BAD_BYTECODE
         else if declared_size = 0 then Inl UACPI_STATUS_BAD_BYTECODE
         else
           let buffer_size = (ucast declared_size :: u32)
           in if init_size > buffer_size then Inl UACPI_STATUS_BAD_BYTECODE
              else Inr (uacpi_memcpy_zerout src (unat buffer_size) (unat init_size)))"

section \<open>Name resolution\<close>

text \<open>
  \<^verbatim>\<open>parse_nameseg\<close> (lines 172-192): the four bytes at the cursor must be \<open>_\<close>,
  digits or capital letters; they are the name.
\<close>

definition is_name_char :: "u8 \<Rightarrow> bool" where
  "is_name_char c = (c = 0x5F \<or> (0x30 \<le> c \<and> c \<le> 0x39) \<or> (0x41 \<le> c \<and> c \<le> 0x5A))"

definition parse_nameseg :: "u8 list \<Rightarrow> uacpi_status + uacpi_object_name" where
  "parse_nameseg cursor =
     (if list_all is_name_char (take 4 cursor) then Inr (take 4 cursor)
      else Inl UACPI_STATUS_BAD_BYTECODE)"

datatype resolve_behavior =
    RESOLVE_CREATE_LAST_NAMESEG_FAIL_IF_EXISTS
  | RESOLVE_FAIL_IF_DOESNT_EXIST

text \<open>
  \<^verbatim>\<open>resolve_name_string\<close> (lines 315-455) in its three phases. The cursor is the
  list of the bytes from \<^verbatim>\<open>code_offset\<close> to the end of the method, and
  \<^verbatim>\<open>bytes_left\<close> is its length (the cursor lies within the method). The lookup
  \<^verbatim>\<open>uacpi_namespace_node_find\<close> of the namespace is the parameter \<open>node_find\<close>.

  First the prefix loop: \<open>\\\<close> (\<open>0x5C\<close>) moves to the root and ends the loop,
  each \<open>^\<close> (\<open>0x5E\<close>) moves to the parent, and either clears
  \<open>just_one_nameseg\<close>. The result is the cursor after the prefix, the node reached
  and the flag.
\<close>

fun resolve_prefix ::
  "u8 list \<Rightarrow> uacpi_namespace_node \<Rightarrow> u8 \<Rightarrow> bool
     \<Rightarrow> uacpi_status + (u8 list \<times> uacpi_namespace_node \<times> bool)" where
  "resolve_prefix [] cur_node prev_char just_one_nameseg = Inl UACPI_STATUS_BAD_BYTECODE"
| "resolve_prefix (c # cursor) cur_node prev_char just_one_nameseg =
     (if c = 0x5C then
        (if prev_char = 0x5E then Inl UACPI_STATUS_BAD_BYTECODE
         else Inr (cursor, uacpi_namespace_root, False))
      else if c = 0x5E then
        (if cur_node = uacpi_namespace_root then Inl UACPI_STATUS_BAD_BYTECODE
         else resolve_prefix cursor (tl cur_node) c False)
      else Inr (c # cursor, cur_node, just_one_nameseg))"

text \<open>
  The upward search of the find-existing mode: while the node is not found and
  \<open>parent\<close> is not the root, the lookup is retried in the parent of \<open>parent\<close>. It is
  entered after a miss in \<open>parent\<close> itself.
\<close>

fun upward_search ::
  "(uacpi_namespace_node \<Rightarrow> uacpi_object_name \<Rightarrow> uacpi_namespace_node option)
     \<Rightarrow> uacpi_object_name \<Rightarrow> uacpi_namespace_node \<Rightarrow> uacpi_namespace_node option" where
  "upward_search node_find name [] = None"
| "upward_search node_find name (n # parent) =
     (case node_find parent name of
        Some cur_node \<Rightarrow> Some cur_node
      | None \<Rightarrow> upward_search node_find name parent)"

text \<open>
  The loop over the name segments. \<open>Inl\<close> is an early \<^verbatim>\<open>return\<close>; \<open>Inr\<close> is the
  state at the label \<^verbatim>\<open>out\<close>: the status (\<open>None\<close> for \<^verbatim>\<open>UACPI_STATUS_OK\<close>),
  \<^verbatim>\<open>cur_node\<close> and the cursor after \<^verbatim>\<open>cursor += namesegs * 4\<close>. In the create
  mode the node of the last segment is allocated with the name and linked to its
  parent.
\<close>

fun resolve_segments ::
  "(uacpi_namespace_node \<Rightarrow> uacpi_object_name \<Rightarrow> uacpi_namespace_node option)
     \<Rightarrow> resolve_behavior \<Rightarrow> bool \<Rightarrow> nat \<Rightarrow> u8 list \<Rightarrow> uacpi_namespace_node
     \<Rightarrow> uacpi_status + (uacpi_status option \<times> uacpi_namespace_node option \<times> u8 list)" where
  "resolve_segments node_find behavior just_one_nameseg 0 cursor cur_node =
     Inr (None, Some cur_node, cursor)"
| "resolve_segments node_find behavior just_one_nameseg (Suc n) cursor cur_node =
     (case parse_nameseg cursor of
        Inl ret \<Rightarrow> Inl ret
      | Inr name \<Rightarrow>
          (let parent = cur_node;
               found = node_find parent name;
               looked_up =
                 (case behavior of
                    RESOLVE_CREATE_LAST_NAMESEG_FAIL_IF_EXISTS \<Rightarrow>
                      (if Suc n = 1 then
                         (case found of
                            Some existing \<Rightarrow> Inl UACPI_STATUS_ALREADY_EXISTS
                          | None \<Rightarrow> Inr (Some (name # parent)))
                       else Inr found)
                  | RESOLVE_FAIL_IF_DOESNT_EXIST \<Rightarrow>
                      (if just_one_nameseg \<and> found = None
                       then Inr (upward_search node_find name parent)
                       else Inr found))
           in case looked_up of
                Inl ret \<Rightarrow> Inl ret
              | Inr None \<Rightarrow> Inr (Some UACPI_STATUS_NOT_FOUND, None, drop (Suc n * 4) cursor)
              | Inr (Some node) \<Rightarrow>
                  resolve_segments node_find behavior just_one_nameseg n (drop 4 cursor) node))"

text \<open>
  The whole function: the prefix loop, the \<^verbatim>\<open>switch\<close> on the byte after the prefix
  (the dual name prefix \<open>0x2E\<close>, the multi name prefix \<open>0x2F\<close> with its segment
  count, the null name \<open>0x00\<close>, or the first byte of a single segment), the check
  that the segments fit, and the segment loop. At \<^verbatim>\<open>out\<close> the frame's
  \<^verbatim>\<open>code_offset\<close> becomes the offset of the cursor.
\<close>

definition resolve_out ::
  "call_frame \<Rightarrow> uacpi_status option \<times> uacpi_namespace_node option \<times> u8 list
     \<Rightarrow> uacpi_status option \<times> uacpi_namespace_node option \<times> call_frame" where
  "resolve_out frame r =
     (case r of (ret, cur_node, cursor) \<Rightarrow>
        (ret, cur_node,
         frame\<lparr>code_offset := of_nat (length (method_code frame) - length cursor)\<rparr>))"

definition resolve_name_string ::
  "(uacpi_namespace_node \<Rightarrow> uacpi_object_name \<Rightarrow> uacpi_namespace_node option)
     \<Rightarrow> call_frame \<Rightarrow> resolve_behavior
     \<Rightarrow> uacpi_status + (uacpi_status option \<times> uacpi_namespace_node option \<times> call_frame)" where
  "resolve_name_string node_find frame behavior =
     (case resolve_prefix (call_frame_cursor frame) (cur_scope frame) 0 True of
        Inl ret \<Rightarrow> Inl ret
      | Inr (cursor, cur_node, just_one_nameseg) \<Rightarrow>
          (let segments = (\<lambda>namesegs cursor just_one_nameseg.
                 if namesegs * 4 > length cursor then Inl UACPI_STATUS_BAD_BYTECODE
                 else (case resolve_segments node_find behavior just_one_nameseg namesegs cursor cur_node of
                         Inl ret \<Rightarrow> Inl ret
                       | Inr r \<Rightarrow> Inr (resolve_out frame r)))
           in case cursor of
                [] \<Rightarrow> Inl UACPI_STATUS_BAD_BYTECODE
              | c # rest \<Rightarrow>
                  if c = 0x2E then segments 2 rest False
                  else if c = 0x2F then
                    (case rest of
                       [] \<Rightarrow> Inl UACPI_STATUS_BAD_BYTECODE
                     | count # rest \<Rightarrow> segments (unat count) rest False)
                  else if c = 0x00 then
                    (if behavior = RESOLVE_CREATE_LAST_NAMESEG_FAIL_IF_EXISTS \<or> just_one_nameseg
                     then Inl UACPI_STATUS_BAD_BYTECODE
                     else Inr (resolve_out frame (None, Some cur_node, rest)))
                  else segments 1 (c # rest) just_one_nameseg))"

text \<open>
  Name strings as the grammar of section 4.1 of the specification has them: an
  optional prefix (the root character, or one or more parent characters), then a
  single name segment, a dual name, a multi name or the null name; and their byte
  encoding.
\<close>

datatype name_prefix = NoPrefix | RootPrefix | ParentPrefix nat

datatype name_path =
    NameSeg uacpi_object_name
  | DualNamePath uacpi_object_name uacpi_object_name
  | MultiNamePath "uacpi_object_name list"
  | NullName

fun encode_prefix :: "name_prefix \<Rightarrow> u8 list" where
  "encode_prefix NoPrefix = []"
| "encode_prefix RootPrefix = [0x5C]"
| "encode_prefix (ParentPrefix n) = replicate n 0x5E"

fun encode_path :: "name_path \<Rightarrow> u8 list" where
  "encode_path (NameSeg a) = a"
| "encode_path (DualNamePath a b) = 0x2E # a @ b"
| "encode_path (MultiNamePath segs) = 0x2F # of_nat (length segs) # concat segs"
| "encode_path NullName = [0x00]"

fun path_segments :: "name_path \<Rightarrow> uacpi_object_name list" where
  "path_segments (NameSeg a) = [a]"
| "path_segments (DualNamePath a b) = [a, b]"
| "path_segments (MultiNamePath segs) = segs"
| "path_segments NullName = []"

definition valid_nameseg :: "uacpi_object_name \<Rightarrow> bool" where
  "valid_nameseg a = (length a = 4 \<and> list_all is_name_char a)"

definition valid_name_string :: "name_prefix \<Rightarrow> name_path \<Rightarrow> bool" where
  "valid_name_string prefix path =
     (list_all valid_nameseg (path_segments path)
      \<and> length (path_segments path) < 256
      \<and> prefix \<noteq> ParentPrefix 0)"

text \<open>
  What the specification says find-existing resolution does. The prefix selects the
  node the walk starts from; a parent prefix that climbs past the root is an error.
  The walk looks every segment up in the node reached so far and fails at the first
  miss. Only a single segment without any prefix is instead looked up in the current
  scope and then in each of its ancestors up to the root.
\<close>

fun start_node :: "uacpi_namespace_node \<Rightarrow> name_prefix \<Rightarrow> uacpi_namespace_node option" where
  "start_node scope NoPrefix = Some scope"
| "start_node scope RootPrefix = Some uacpi_namespace_root"
| "start_node scope (ParentPrefix n) = (if n \<le> length scope then Some (drop n scope) else None)"

fun walk_down ::
  "(uacpi_namespace_node \<Rightarrow> uacpi_object_name \<Rightarrow> uacpi_namespace_node option)
     \<Rightarrow> uacpi_namespace_node \<Rightarrow> uacpi_object_name list \<Rightarrow> uacpi_namespace_node option" where
  "walk_down node_find node [] = Some node"
| "walk_down node_find node (a # segs) =
     (case node_find node a of None \<Rightarrow> None | Some child \<Rightarrow> walk_down node_find child segs)"

fun lookup_upward ::
  "(uacpi_namespace_node \<Rightarrow> uacpi_object_name \<Rightarrow> uacpi_namespace_node option)
     \<Rightarrow> uacpi_namespace_node \<Rightarrow> uacpi_object_name \<Rightarrow> uacpi_namespace_node option" where
  "lookup_upward node_find [] a = node_find [] a"
| "lookup_upward node_find (n # scope) a =
     (case node_find (n # scope) a of
        Some node \<Rightarrow> Some node
      | None \<Rightarrow> lookup_upward node_find scope a)"

definition uses_upward_search :: "name_prefix \<Rightarrow> name_path \<Rightarrow> bool" where
  "uses_upward_search prefix path =
     (prefix = NoPrefix \<and> (case path of NameSeg a \<Rightarrow> True | _ \<Rightarrow> False))"

definition find_existing ::
  "(uacpi_namespace_node \<Rightarrow> uacpi_object_name \<Rightarrow> uacpi_namespace_node option)
     \<Rightarrow> uacpi_namespace_node \<Rightarrow> name_prefix \<Rightarrow> name_path
     \<Rightarrow> uacpi_status + uacpi_namespace_node" where
  "find_existing node_find scope prefix path =
     (if prefix = NoPrefix \<and> path = NullName then Inl UACPI_STATUS_BAD_BYTECODE
      else if uses_upward_search prefix path then
        (case lookup_upward node_find scope (hd (path_segments path)) of
           None \<Rightarrow> Inl UACPI_STATUS_NOT_FOUND
         | Some node \<Rightarrow> Inr node)
      else
        (case start_node scope prefix of
           None \<Rightarrow> Inl UACPI_STATUS_BAD_BYTECODE
         | Some start \<Rightarrow>
             (case walk_down node_find start (path_segments path) of
                None \<Rightarrow> Inl UACPI_STATUS_NOT_FOUND
              | Some node \<Rightarrow> Inr node)))"

text \<open>
  A namespace given by the list of its nodes: the lookup of a name in a parent finds
  the child of that name when the namespace has it.
\<close>

definition namespace_find ::
  "uacpi_namespace_node list \<Rightarrow> uacpi_namespace_node \<Rightarrow> uacpi_object_name
     \<Rightarrow> uacpi_namespace_node option" where
  "namespace_find nodes parent name =
     (if name # parent \<in> set nodes then Some (name # parent) else None)"

section \<open>Buffer fields\<close>

text \<open>
  Modelled from the spec: the macro \<^verbatim>\<open>UACPI_ALIGN_UP\<close> that
  \<^verbatim>\<open>buffer_field_byte_size\<close> (lines 677-680) uses is defined outside the
  interpreter source. Section 4.7 of the specification gives the size of a field in
  bytes as \<open>ceil(bit_length / 8)\<close>.
\<close>

definition buffer_field_byte_size :: "uacpi_buffer_field \<Rightarrow> nat" where
  "buffer_field_byte_size field = (bit_length field + 7) div 8"

text \<open>
  \<^verbatim>\<open>struct bit_span\<close>: \<open>span_data\<close> is the memory \<^verbatim>\<open>data\<close> points to, \<open>span_index\<close>
  and \<open>span_length\<close> are counted in bits.
\<close>

record bit_span =
  span_data :: "u8 list"
  span_index :: nat
  span_length :: nat

text \<open>
  \<^verbatim>\<open>do_rw_misaligned_buffer_field\<close> (lines 733-780). Byte pointers are indices into
  the memory of their span, and the result is the memory of the destination span
  after the loop. Memory is read and written within its bounds only (a field lies
  within its backing buffer, see \<^verbatim>\<open>handle_create_buffer_field\<close>); a list lookup or
  update beyond the end has no counterpart in the C code.

  The first half of the loop body gathers the next 8 bits of the source span into the
  \<^verbatim>\<open>uacpi_u8\<close> \<open>bits\<close>: the byte at the source pointer shifted right, the low bits
  of the next byte above it when the span goes on there, and the mask
  \<open>(1 << src_count) - 1\<close> when fewer than 8 bits are left.
\<close>

definition gather_bits :: "u8 list \<Rightarrow> nat \<Rightarrow> nat \<Rightarrow> nat \<Rightarrow> u8" where
  "gather_bits src src_shift src_ptr src_count =
     (if src_count \<noteq> 0 then
        (let bits = drop_bit src_shift (src ! src_ptr);
             bits = (if src_shift \<noteq> 0 \<and> src_count > 8 - src_shift
                     then bits OR push_bit (8 - src_shift) (src ! (src_ptr + 1))
                     else bits)
         in if src_count < 8 then bits AND mask src_count else bits)
      else 0)"

text \<open>
  The second half stores \<open>bits\<close> under the \<^verbatim>\<open>uacpi_u16\<close> \<open>dst_mask\<close> into the byte at
  the destination pointer and, when the destination is shifted and more bits remain,
  into the byte after it. The C expressions are evaluated in \<^verbatim>\<open>int\<close>, 32 bits
  wide, and the assignment to a byte keeps the low 8 bits.
\<close>

definition scatter_bits :: "u8 list \<Rightarrow> nat \<Rightarrow> nat \<Rightarrow> nat \<Rightarrow> u8 \<Rightarrow> u8 list" where
  "scatter_bits dst dst_shift dst_ptr dst_count bits =
     (let dst_mask = (push_bit dst_shift (if dst_count < 8 then mask dst_count else 0xFF) :: u16);
          dst = dst[dst_ptr :=
                  ucast (((ucast (dst ! dst_ptr) :: u32) AND NOT (ucast dst_mask))
                         OR (push_bit dst_shift (ucast bits) AND ucast dst_mask))]
      in if dst_shift \<noteq> 0 \<and> dst_count > 8 - dst_shift then
           (let dst_mask = drop_bit 8 dst_mask;
                dst = dst[dst_ptr + 1 :=
                        ucast ((ucast (dst ! (dst_ptr + 1)) :: u32) AND NOT (ucast dst_mask))];
                dst = dst[dst_ptr + 1 :=
                        ucast ((ucast (dst ! (dst_ptr + 1)) :: u32)
                               OR (drop_bit (8 - dst_shift) (ucast bits) AND ucast dst_mask))]
            in dst)
         else dst)"

function do_rw_loop ::
  "u8 list \<Rightarrow> nat \<Rightarrow> nat \<Rightarrow> u8 list \<Rightarrow> nat \<Rightarrow> nat \<Rightarrow> nat \<Rightarrow> nat \<Rightarrow> u8 list" where
  "do_rw_loop src src_shift dst_shift dst dst_ptr dst_count src_ptr src_count =
     (if dst_count = 0 then dst
      else
        (let bits = gather_bits src src_shift src_ptr src_count;
             src_ptr' = (if src_count \<noteq> 0 \<and> \<not> src_count < 8 then src_ptr + 1 else src_ptr);
             src_count' = (if src_count \<noteq> 0 \<and> \<not> src_count < 8 then src_count - 8 else 0);
             dst' = scatter_bits dst dst_shift dst_ptr dst_count bits;
             dst_count' = (if dst_count > 8 then dst_count - 8 else 0)
         in do_rw_loop src src_shift dst_shift dst' (dst_ptr + 1) dst_count' src_ptr' src_count'))"
  by pat_completeness auto
termination
  by (relation "measure (\<lambda>(src, src_shift, dst_shift, dst, dst_ptr, dst_count, r). dst_count)") auto

declare do_rw_loop.simps [simp del]

definition do_rw_misaligned_buffer_field :: "bit_span \<Rightarrow> bit_span \<Rightarrow> u8 list" where
  "do_rw_misaligned_buffer_field dst src =
     do_rw_loop (span_data src) (span_index src mod 8) (span_index dst mod 8)
       (span_data dst) (span_index dst div 8) (span_length dst)
       (span_index src div 8) (span_length src)"

text \<open>
  \<^verbatim>\<open>do_write_misaligned_buffer_field\<close> (lines 782-798): \<open>src_buf\<close> is the storage of
  the source object, \<open>len\<close> bytes at \<open>ptr\<close>. The source storage is memory of its
  own, apart from the backing buffer of the field.
\<close>

definition do_write_misaligned_buffer_field :: "uacpi_buffer_field \<Rightarrow> u8 list \<Rightarrow> u8 list" where
  "do_write_misaligned_buffer_field field src_buf =
     do_rw_misaligned_buffer_field
       \<lparr>span_data = backing field, span_index = bit_index field, span_length = bit_length field\<rparr>
       \<lparr>span_data = src_buf, span_index = 0, span_length = length src_buf * 8\<rparr>"

text \<open>
  \<^verbatim>\<open>write_buffer_field\<close> (lines 800-822); the result is the backing buffer after the
  write. In the aligned case \<open>count\<close> bytes are copied (zero-padded) over the field and
  the bits of the old last byte from \<open>tail_shift\<close> up are or-ed back in.
\<close>

definition write_buffer_field :: "uacpi_buffer_field \<Rightarrow> u8 list \<Rightarrow> u8 list" where
  "write_buffer_field field src_buf =
     (if bit_index field mod 8 = 0 then
        (let dst = bit_index field div 8;
             count = buffer_field_byte_size field;
             last_byte = backing field ! (dst + count - 1);
             tail_shift = bit_length field mod 8;
             mem = take dst (backing field)
                     @ uacpi_memcpy_zerout src_buf count (length src_buf)
                     @ drop (dst + count) (backing field)
         in if tail_shift \<noteq> 0
            then mem[dst + count - 1 :=
                   ucast ((ucast (mem ! (dst + count - 1)) :: u32)
                          OR push_bit tail_shift (drop_bit tail_shift (ucast last_byte)))]
            else mem)
      else do_write_misaligned_buffer_field field src_buf)"

text \<open>
  \<^verbatim>\<open>do_misaligned_buffer_read\<close> and \<^verbatim>\<open>do_read_buffer_field\<close> (lines 2420-2451);
  \<open>dst\<close> is the memory read into (the data of the result buffer, or the bytes of the
  result integer), and the result is that memory after the read.
\<close>

definition do_misaligned_buffer_read :: "uacpi_buffer_field \<Rightarrow> u8 list \<Rightarrow> u8 list" where
  "do_misaligned_buffer_read field dst =
     do_rw_misaligned_buffer_field
       \<lparr>span_data = dst, span_index = 0, span_length = buffer_field_byte_size field * 8\<rparr>
       \<lparr>span_data = backing field, span_index = bit_index field, span_length = bit_length field\<rparr>"

definition do_read_buffer_field :: "uacpi_buffer_field \<Rightarrow> u8 list \<Rightarrow> u8 list" where
  "do_read_buffer_field field dst =
     (if bit_index field mod 8 = 0 then
        (let count = buffer_field_byte_size field;
             dst = take count (drop (bit_index field div 8) (backing field)) @ drop count dst
         in if bit_length field mod 8 \<noteq> 0
            then dst[count - 1 :=
                   ucast ((ucast (dst ! (count - 1)) :: u64) AND mask (bit_length field mod 8))]
            else dst)
      else do_misaligned_buffer_read field dst)"

text \<open>Bit \<open>k\<close> of a memory, counted from bit 0 of its first byte.\<close>

definition mem_bit :: "u8 list \<Rightarrow> nat \<Rightarrow> bool" where
  "mem_bit mem k = bit (mem ! (k div 8)) (k mod 8)"

text \<open>
  Writing the storage \<open>src_buf\<close> of a value to a field and reading the field back
  into \<open>dst\<close>.
\<close>

definition write_then_read :: "uacpi_buffer_field \<Rightarrow> u8 list \<Rightarrow> u8 list \<Rightarrow> u8 list" where
  "write_then_read field src_buf dst =
     do_read_buffer_field (field\<lparr>backing := write_buffer_field field src_buf\<rparr>) dst"

section \<open>Store to a reference\<close>

text \<open>
  Modelled from the spec: \<^verbatim>\<open>uacpi_unwrap_internal_reference\<close> is defined outside the
  interpreter source. Section 4.6 of the specification calls its result the value a
  Local or Arg reference wraps, and section 3 has the interpreter wrap every local,
  argument and named object in a reference of kind Local, Arg or Named. The model
  steps through references of these three kinds and stops at the first object that is
  none of them: an object of another type, or a reference of kind RefOf or PkgIndex.
\<close>

fun uacpi_unwrap_internal_reference :: "uacpi_object \<Rightarrow> uacpi_object" where
  "uacpi_unwrap_internal_reference (Reference k x) =
     (if k = UACPI_REFERENCE_KIND_REFOF \<or> k = UACPI_REFERENCE_KIND_PKG_INDEX
      then Reference k x else uacpi_unwrap_internal_reference x)"
| "uacpi_unwrap_internal_reference obj = obj"

text \<open>
  \<^verbatim>\<open>store_to_reference\<close> works on pointers into the chain of references that starts
  at its destination, and writes through them. In the model of values a pointer into
  the chain is the object it points to together with the kinds of the references
  around that object, outermost first; \<open>unwrap_path\<close> and \<open>unwind_path\<close> give the
  kinds of the references that \<^verbatim>\<open>uacpi_unwrap_internal_reference\<close> and
  \<^verbatim>\<open>reference_unwind\<close> step over, and \<open>foldr Reference outer obj\<close> is the whole chain
  again.
\<close>

fun unwrap_path :: "uacpi_object \<Rightarrow> uacpi_reference_kind list" where
  "unwrap_path (Reference k x) =
     (if k = UACPI_REFERENCE_KIND_REFOF \<or> k = UACPI_REFERENCE_KIND_PKG_INDEX
      then [] else k # unwrap_path x)"
| "unwrap_path obj = []"

fun unwind_path :: "uacpi_object \<Rightarrow> uacpi_reference_kind list" where
  "unwind_path (Reference k x) =
     (if object_type x \<noteq> UACPI_OBJECT_REFERENCE then [] else k # unwind_path x)"
| "unwind_path obj = []"

text \<open>
  Modelled from the spec: \<^verbatim>\<open>uacpi_object_detach_child\<close> and
  \<^verbatim>\<open>uacpi_object_attach_child\<close>, which \<^verbatim>\<open>object_replace_child\<close> (lines 1294-1298)
  calls, are defined outside the interpreter source. By section 3 of the
  specification a reference owns its inner target: detaching drops the inner object
  of the parent, attaching makes the new child its inner object.
\<close>

fun object_replace_child :: "uacpi_object \<Rightarrow> uacpi_object \<Rightarrow> uacpi_object" where
  "object_replace_child (Reference k x) new_child = Reference k new_child"
| "object_replace_child parent new_child = parent"

text \<open>
  \<^verbatim>\<open>write_buffer_index\<close> (lines 834-839): one byte at the cursor of the index, zero
  when the source has no byte. The index lies within the buffer.
\<close>

definition write_buffer_index :: "u8 list \<Rightarrow> nat \<Rightarrow> u8 list \<Rightarrow> u8 list" where
  "write_buffer_index buf idx src_buf =
     take idx buf @ uacpi_memcpy_zerout src_buf 1 (length src_buf) @ drop (idx + 1) buf"

text \<open>
  \<^verbatim>\<open>object_assign_with_implicit_cast\<close> (lines 846-884) copies the storage of \<open>src\<close> over
  the storage of \<open>dst\<close>; the result is \<open>dst\<close> after the copy. The storage of an
  integer destination is its first \<open>sizeof_int\<close> bytes, so at revision 1 the upper
  four bytes of the 64-bit value stay as they are; the storage of a string destination
  leaves out its terminator.
\<close>

definition object_assign_with_implicit_cast ::
  "bool \<Rightarrow> uacpi_object \<Rightarrow> uacpi_object \<Rightarrow> uacpi_status + uacpi_object" where
  "object_assign_with_implicit_cast is_rev1 dst src =
     (case get_object_storage is_rev1 src False of
        Inl ret \<Rightarrow> Inl ret
      | Inr src_buf \<Rightarrow>
          (case dst of
             Integer v \<Rightarrow>
               (let len = sizeof_int is_rev1
                in Inr (Integer (le_word (uacpi_memcpy_zerout src_buf len (length src_buf)
                                          @ drop len (word_bytes 8 v)))))
           | String s \<Rightarrow>
               (let len = (if length s \<noteq> 0 then length s - 1 else length s)
                in Inr (String (uacpi_memcpy_zerout src_buf len (length src_buf) @ drop len s)))
           | Buffer b \<Rightarrow>
               Inr (Buffer (uacpi_memcpy_zerout src_buf (length b) (length src_buf)))
           | BufferField field \<Rightarrow>
               Inr (BufferField (field\<lparr>backing := write_buffer_field field src_buf\<rparr>))
           | BufferIndex buf idx \<Rightarrow>
               Inr (BufferIndex (write_buffer_index buf idx src_buf) idx)
           | _ \<Rightarrow> Inl UACPI_STATUS_BAD_BYTECODE))"

text \<open>
  The \<^verbatim>\<open>switch\<close> of \<^verbatim>\<open>store_to_reference\<close> (lines 1371-1396): the initial value of
  \<open>overwrite\<close> and the reference \<^verbatim>\<open>dst\<close> points to afterwards, with the kinds of the
  references around it. The function is called with a reference for \<open>dst\<close>
  (\<^verbatim>\<open>store_to_target\<close> tests the type); \<^verbatim>\<open>dst->flags\<close> is the kind.
\<close>

definition store_destination ::
  "uacpi_object \<Rightarrow> uacpi_status + (bool \<times> uacpi_reference_kind list \<times> uacpi_object)" where
  "store_destination dst =
     (case dst of
        Reference kind x \<Rightarrow>
          if kind = UACPI_REFERENCE_KIND_LOCAL \<or> kind = UACPI_REFERENCE_KIND_ARG
             \<or> kind = UACPI_REFERENCE_KIND_PKG_INDEX then
            (let (outer, referenced_obj) =
                   (if kind = UACPI_REFERENCE_KIND_PKG_INDEX then ([kind], x)
                    else (unwrap_path dst, uacpi_unwrap_internal_reference dst))
             in if object_type referenced_obj = UACPI_OBJECT_REFERENCE
                then Inr (kind = UACPI_REFERENCE_KIND_ARG,
                          outer @ unwind_path referenced_obj,
                          reference_unwind referenced_obj)
                else Inr (True, [], dst))
          else if kind = UACPI_REFERENCE_KIND_NAMED then
            Inr (False, unwind_path dst, reference_unwind dst)
          else Inl UACPI_STATUS_INVALID_ARGUMENT
      | _ \<Rightarrow> Inl UACPI_STATUS_INVALID_ARGUMENT)"

text \<open>
  \<^verbatim>\<open>store_to_reference\<close> (lines 1365-1422); the result is the destination reference
  after the store. An overwrite replaces the inner object of the reference \<^verbatim>\<open>dst\<close>
  points to by the copy of the source; an implicit cast changes that inner object in
  place. The new object starts out Uninitialized.
\<close>

definition store_to_reference ::
  "bool \<Rightarrow> uacpi_object \<Rightarrow> uacpi_object \<Rightarrow> uacpi_status + uacpi_object" where
  "store_to_reference is_rev1 dst src =
     (case store_destination dst of
        Inl ret \<Rightarrow> Inl ret
      | Inr (overwrite, outer, dst) \<Rightarrow>
          (let src_obj = uacpi_unwrap_internal_reference src;
               overwrite = (overwrite \<or> object_type (inner_object dst) = UACPI_OBJECT_UNINITIALIZED)
           in if overwrite then
                (case uacpi_object_assign Uninitialized src_obj UACPI_ASSIGN_BEHAVIOR_DEEP_COPY of
                   Inl ret \<Rightarrow> Inl ret
                 | Inr new_obj \<Rightarrow> Inr (foldr Reference outer (object_replace_child dst new_obj)))
              else
                (case object_assign_with_implicit_cast is_rev1 (inner_object dst) src_obj of
                   Inl ret \<Rightarrow> Inl ret
                 | Inr assigned \<Rightarrow> Inr (foldr Reference outer (object_replace_child dst assigned)))))"

text \<open>
  The destination with the object at the bottom of its chain replaced by \<open>new_obj\<close>:
  what a store that overwrites the object a reference resolves to leaves behind.
\<close>

fun replace_bottom :: "uacpi_object \<Rightarrow> uacpi_object \<Rightarrow> uacpi_object" where
  "replace_bottom (Reference k x) new_obj = Reference k (replace_bottom x new_obj)"
| "replace_bottom obj new_obj = new_obj"

text \<open>
  The object a store through a reference is destined for, as section 4.6 of the
  specification words it. For a Named reference it is the object at the bottom of the
  chain. For a Local, Arg or PkgIndex reference it is the object at the bottom of the
  chain when the wrapped value is itself a reference, and the object the reference
  holds otherwise. The wrapped value of a Local or Arg reference is the object
  \<^verbatim>\<open>uacpi_unwrap_internal_reference\<close> finds, that of a PkgIndex reference is the
  package slot it holds.
\<close>

definition wrapped_value :: "uacpi_reference_kind \<Rightarrow> uacpi_object \<Rightarrow> uacpi_object" where
  "wrapped_value kind x =
     (if kind = UACPI_REFERENCE_KIND_PKG_INDEX then x
      else uacpi_unwrap_internal_reference (Reference kind x))"

definition resolved_destination :: "uacpi_reference_kind \<Rightarrow> uacpi_object \<Rightarrow> uacpi_object" where
  "resolved_destination kind x =
     (if kind = UACPI_REFERENCE_KIND_NAMED
         \<or> object_type (wrapped_value kind x) = UACPI_OBJECT_REFERENCE
      then bottom_object x else x)"

section \<open>The execution driver\<close>

text \<open>
  \<^verbatim>\<open>struct item\<close>, \<^verbatim>\<open>struct op_context\<close> and \<^verbatim>\<open>struct code_block\<close> (lines 9-85).
  An item is a tag with a union of payloads; \<open>op_code\<close> stands for the pointer
  \<^verbatim>\<open>op\<close> to the spec of the operation, whose table is outside the interpreter
  source. \<^verbatim>\<open>node\<close> of a block is assigned for scope blocks only and read of them only.
\<close>

datatype item =
    ItemNamespaceNode uacpi_namespace_node
  | ItemObject uacpi_object
  | ItemEmptyObject
  | ItemPackageLength package_length
  | ItemImmediate u64

record op_context =
  pc :: u8
  preempted :: bool
  tracked_pkg_idx :: u8
  op_code :: u16
  items :: "item list"

datatype code_block_type =
    CODE_BLOCK_IF
  | CODE_BLOCK_ELSE
  | CODE_BLOCK_WHILE
  | CODE_BLOCK_SCOPE

record code_block =
  block_type :: code_block_type
  block_begin :: u32
  block_end :: u32
  block_node :: uacpi_namespace_node

text \<open>
  The members of \<^verbatim>\<open>struct call_frame\<close> (lines 112-125) beyond those the decoders
  read. The dynamic arrays are lists whose last element is the top. \<^verbatim>\<open>last_while\<close>
  points to a block of \<open>code_blocks\<close> and is modelled as its index. Arguments and
  locals are \<^verbatim>\<open>NULL\<close> until set; \<^verbatim>\<open>temp_nodes\<close>, which only \<^verbatim>\<open>call_frame_clear\<close> and
  the handler that installs nodes touch, is left out.
\<close>

record exec_frame = call_frame +
  args :: "uacpi_object option list"
  locals :: "uacpi_object option list"
  pending_ops :: "op_context list"
  code_blocks :: "code_block list"
  last_while :: "nat option"

text \<open>
  \<^verbatim>\<open>struct execution_context\<close> (lines 148-160). \<open>ctx_ret\<close> is \<^verbatim>\<open>ctx->ret\<close>, \<open>None\<close>
  for \<^verbatim>\<open>NULL\<close>; \<open>cur_op\<close> is the code of the op \<^verbatim>\<open>get_op\<close> fetched. The pointers
  \<^verbatim>\<open>cur_frame\<close>, \<^verbatim>\<open>cur_block\<close>, \<^verbatim>\<open>cur_op_ctx\<close> and \<^verbatim>\<open>prev_op_ctx\<close> always point to the
  last frame of the call stack, to its last block and to its last and last but one
  pending op (\<^verbatim>\<open>refresh_ctx_pointers\<close>, lines 2708-2722, and the assignments next to
  every push and pop); they are functions of the context here.
\<close>

record execution_context =
  ctx_ret :: "uacpi_object option"
  call_stack :: "exec_frame list"
  cur_op :: u16
  skip_else :: bool

definition cur_frame :: "execution_context \<Rightarrow> exec_frame option" where
  "cur_frame ctx = (if call_stack ctx = [] then None else Some (last (call_stack ctx)))"

definition cur_block :: "execution_context \<Rightarrow> code_block option" where
  "cur_block ctx =
     (case cur_frame ctx of
        None \<Rightarrow> None
      | Some frame \<Rightarrow> if code_blocks frame = [] then None else Some (last (code_blocks frame)))"

definition cur_op_ctx :: "execution_context \<Rightarrow> op_context option" where
  "cur_op_ctx ctx =
     (case cur_frame ctx of
        None \<Rightarrow> None
      | Some frame \<Rightarrow> if pending_ops frame = [] then None else Some (last (pending_ops frame)))"

text \<open>The current frame replaced by \<open>frame\<close>: a write through \<^verbatim>\<open>ctx->cur_frame\<close>.\<close>

definition set_cur_frame :: "execution_context \<Rightarrow> exec_frame \<Rightarrow> execution_context" where
  "set_cur_frame ctx frame = ctx\<lparr>call_stack := butlast (call_stack ctx) @ [frame]\<rparr>"

text \<open>\<^verbatim>\<open>call_frame_has_code\<close> (lines 137-140) and \<^verbatim>\<open>ctx_has_non_preempted_op\<close> (lines 2724-2727).\<close>

definition call_frame_has_code :: "exec_frame \<Rightarrow> bool" where
  "call_frame_has_code frame = (call_frame_code_bytes_left (call_frame.truncate frame) > 0)"

definition ctx_has_non_preempted_op :: "execution_context \<Rightarrow> bool" where
  "ctx_has_non_preempted_op ctx =
     (case cur_op_ctx ctx of None \<Rightarrow> False | Some op_ctx \<Rightarrow> \<not> preempted op_ctx)"

text \<open>
  \<^verbatim>\<open>find_last_block\<close>, \<^verbatim>\<open>update_scope\<close> and \<^verbatim>\<open>frame_reset_post_end_block\<close> (lines
  1059-1087 and 1136-1148).
\<close>

definition find_last_block :: "code_block list \<Rightarrow> code_block_type \<Rightarrow> nat option" where
  "find_last_block blocks type =
     (case filter (\<lambda>i. block_type (blocks ! i) = type) (rev [0..<length blocks]) of
        [] \<Rightarrow> None
      | i # _ \<Rightarrow> Some i)"

definition update_scope :: "exec_frame \<Rightarrow> exec_frame" where
  "update_scope frame =
     (case find_last_block (code_blocks frame) CODE_BLOCK_SCOPE of
        None \<Rightarrow> frame\<lparr>cur_scope := uacpi_namespace_root\<rparr>
      | Some i \<Rightarrow> frame\<lparr>cur_scope := block_node (code_blocks frame ! i)\<rparr>)"

definition frame_reset_post_end_block :: "exec_frame \<Rightarrow> code_block_type \<Rightarrow> exec_frame" where
  "frame_reset_post_end_block frame type =
     (let frame = frame\<lparr>code_blocks := butlast (code_blocks frame)\<rparr>
      in if type = CODE_BLOCK_WHILE
         then frame\<lparr>last_while := find_last_block (code_blocks frame) type\<rparr>
         else if type = CODE_BLOCK_SCOPE then update_scope frame
         else frame)"

text \<open>
  \<^verbatim>\<open>maybe_end_block\<close> (lines 2810-2830): whether the cursor stands at the end of the
  current block, and the context after the block has been ended. It is called with a
  current frame.
\<close>

definition maybe_end_block :: "execution_context \<Rightarrow> bool \<times> execution_context" where
  "maybe_end_block ctx =
     (case (cur_block ctx, cur_frame ctx) of
        (Some block, Some frame) \<Rightarrow>
          if code_offset frame \<noteq> block_end block then (False, ctx)
          else
            (let ctx = ctx\<lparr>skip_else := False\<rparr>;
                 frame = (if block_type block = CODE_BLOCK_WHILE
                          then frame\<lparr>code_offset := block_begin block\<rparr> else frame);
                 ctx = (if block_type block \<noteq> CODE_BLOCK_WHILE \<and> block_type block = CODE_BLOCK_IF
                        then ctx\<lparr>skip_else := True\<rparr> else ctx)
             in (True, set_cur_frame ctx (frame_reset_post_end_block frame (block_type block))))
      | _ \<Rightarrow> (False, ctx))"

text \<open>
  \<^verbatim>\<open>pop_op\<close> (lines 2892-2915) and \<^verbatim>\<open>ctx_reload_post_ret\<close> (lines 3877-3884) take the
  top off the pending ops of the current frame and off the call stack; releasing the
  items and clearing the frame leave no trace in a model without reference counts.
\<close>

definition pop_op :: "execution_context \<Rightarrow> execution_context" where
  "pop_op ctx =
     (case cur_frame ctx of
        None \<Rightarrow> ctx
      | Some frame \<Rightarrow> set_cur_frame ctx (frame\<lparr>pending_ops := butlast (pending_ops frame)\<rparr>))"

definition ctx_reload_post_ret :: "execution_context \<Rightarrow> execution_context" where
  "ctx_reload_post_ret ctx = ctx\<lparr>call_stack := butlast (call_stack ctx)\<rparr>"

text \<open>
  \<^verbatim>\<open>method_get_ret_target\<close> and \<^verbatim>\<open>method_get_ret_object\<close> (lines 1014-1057) yield a
  pointer to the object that receives the value of a Return: the last item of the
  last pending op of the calling frame, unwrapped, or \<^verbatim>\<open>ctx->ret\<close> for the outermost
  frame, or \<^verbatim>\<open>NULL\<close>. The model names the place; \<open>None\<close> is \<^verbatim>\<open>NULL\<close>. The last
  item of the pending method call of the calling frame is the object for its result,
  or an empty object slot.
\<close>

datatype ret_place = RET_OF_CONTEXT | RET_OF_CALLER

definition method_get_ret_target :: "execution_context \<Rightarrow> uacpi_status + ret_place option" where
  "method_get_ret_target ctx =
     (let depth = length (call_stack ctx)
      in if depth > 1 then
           (let frame = call_stack ctx ! (depth - 2)
            in if pending_ops frame = [] then Inr None
               else (case last (items (last (pending_ops frame))) of
                       ItemObject obj \<Rightarrow> Inr (Some RET_OF_CALLER)
                     | _ \<Rightarrow> Inr None))
         else Inl UACPI_STATUS_NOT_FOUND)"

definition method_get_ret_object :: "execution_context \<Rightarrow> uacpi_status + ret_place option" where
  "method_get_ret_object ctx =
     (case method_get_ret_target ctx of
        Inl ret \<Rightarrow>
          if ret = UACPI_STATUS_NOT_FOUND
          then Inr (if ctx_ret ctx = None then None else Some RET_OF_CONTEXT)
          else Inl ret
      | Inr place \<Rightarrow> Inr place)"

text \<open>
  The object a place holds, and the context after an assignment to it. In the calling
  frame the assignment goes to the object \<^verbatim>\<open>uacpi_unwrap_internal_reference\<close> found
  within the item.
\<close>

definition caller_item :: "execution_context \<Rightarrow> uacpi_object" where
  "caller_item ctx =
     (case last (items (last (pending_ops (call_stack ctx ! (length (call_stack ctx) - 2))))) of
        ItemObject obj \<Rightarrow> obj
      | _ \<Rightarrow> Uninitialized)"

definition ret_place_object :: "execution_context \<Rightarrow> ret_place \<Rightarrow> uacpi_object" where
  "ret_place_object ctx place =
     (case place of
        RET_OF_CONTEXT \<Rightarrow> (case ctx_ret ctx of Some obj \<Rightarrow> obj | None \<Rightarrow> Uninitialized)
      | RET_OF_CALLER \<Rightarrow> uacpi_unwrap_internal_reference (caller_item ctx))"

definition ret_place_assign ::
  "execution_context \<Rightarrow> ret_place \<Rightarrow> uacpi_object \<Rightarrow> execution_context" where
  "ret_place_assign ctx place obj =
     (case place of
        RET_OF_CONTEXT \<Rightarrow> ctx\<lparr>ctx_ret := Some obj\<rparr>
      | RET_OF_CALLER \<Rightarrow>
          (let stack = call_stack ctx;
               i = length stack - 2;
               frame = stack ! i;
               op_ctx = last (pending_ops frame);
               item = ItemObject (foldr Reference (unwrap_path (caller_item ctx)) obj);
               op_ctx = op_ctx\<lparr>items := butlast (items op_ctx) @ [item]\<rparr>;
               frame = frame\<lparr>pending_ops := butlast (pending_ops frame) @ [op_ctx]\<rparr>
           in ctx\<lparr>call_stack := stack[i := frame]\<rparr>))"

text \<open>
  \<^verbatim>\<open>handle_return\<close> (lines 2683-2706): the status (\<open>None\<close> for
  \<^verbatim>\<open>UACPI_STATUS_OK\<close>) and the context afterwards. It runs as the handler of a Return
  op, with a current frame whose current op holds the object to return as item 0; on
  any other context the C code reads what is not there, and the model has no result.
\<close>

definition handle_return ::
  "execution_context \<Rightarrow> (uacpi_status option \<times> execution_context) option" where
  "handle_return ctx =
     (case (cur_frame ctx, cur_op_ctx ctx) of
        (Some frame, Some op_ctx) \<Rightarrow>
          (case items op_ctx of
             ItemObject src # _ \<Rightarrow>
               (let ctx = set_cur_frame ctx
                            (frame\<lparr>code_offset := method_size (call_frame.truncate frame)\<rparr>)
                in case method_get_ret_object ctx of
                     Inl ret \<Rightarrow> Some (Some ret, ctx)
                   | Inr None \<Rightarrow> Some (None, ctx)
                   | Inr (Some dst) \<Rightarrow>
                       (case uacpi_object_assign (ret_place_object ctx dst) src
                               UACPI_ASSIGN_BEHAVIOR_DEEP_COPY of
                          Inl ret \<Rightarrow> Some (Some ret, ctx)
                        | Inr obj \<Rightarrow> Some (None, ret_place_assign ctx dst obj)))
           | _ \<Rightarrow> None)
      | _ \<Rightarrow> None)"

text \<open>
  \<^verbatim>\<open>get_op\<close> (lines 457-481). The opcode prefix \<^verbatim>\<open>UACPI_EXT_PREFIX\<close> and the table of
  op specs behind \<^verbatim>\<open>uacpi_get_op_spec\<close> are defined outside the interpreter source;
  they are parameters: the prefix, and which opcodes the table flags as reserved.
\<close>

record op_specs =
  ext_prefix :: u16
  is_reserved :: "u16 \<Rightarrow> bool"

definition get_op ::
  "op_specs \<Rightarrow> execution_context \<Rightarrow> uacpi_status option \<times> execution_context" where
  "get_op specs ctx =
     (case cur_frame ctx of
        None \<Rightarrow> (Some UACPI_STATUS_OUT_OF_BOUNDS, ctx)
      | Some frame \<Rightarrow>
          (let code = method_code frame;
               size = method_size (call_frame.truncate frame)
           in if code_offset frame \<ge> size then (Some UACPI_STATUS_OUT_OF_BOUNDS, ctx)
              else
                (let op = (ucast (code ! unat (code_offset frame)) :: u16);
                     frame = frame\<lparr>code_offset := code_offset frame + 1\<rparr>;
                     ctx = set_cur_frame ctx frame
                 in if op = ext_prefix specs then
                      (if code_offset frame \<ge> size then (Some UACPI_STATUS_OUT_OF_BOUNDS, ctx)
                       else
                         (let op = push_bit 8 op OR ucast (code ! unat (code_offset frame));
                              frame = frame\<lparr>code_offset := code_offset frame + 1\<rparr>;
                              ctx = (set_cur_frame ctx frame)\<lparr>cur_op := op\<rparr>
                          in if is_reserved specs op then (Some UACPI_STATUS_BAD_BYTECODE, ctx)
                             else (None, ctx)))
                    else
                      (let ctx = ctx\<lparr>cur_op := op\<rparr>
                       in if is_reserved specs op then (Some UACPI_STATUS_BAD_BYTECODE, ctx)
                          else (None, ctx)))))"

text \<open>
  The loop of \<^verbatim>\<open>uacpi_execute_control_method\<close> (lines 3933-3958). \<^verbatim>\<open>exec_op\<close> (lines
  3312-3837) runs the parse program of the current op, which it takes from the table
  of op specs outside the interpreter source; the loop is modelled over any function
  \<open>exec\<close> from a context to a status and the context afterwards. The result is the
  status at the label \<^verbatim>\<open>out\<close> with the context there; a loop that never leaves has
  none. When \<^verbatim>\<open>maybe_end_block\<close> returns false it has changed nothing.
\<close>

partial_function (option) execute_loop ::
  "op_specs \<Rightarrow> (execution_context \<Rightarrow> uacpi_status option \<times> execution_context)
   \<Rightarrow> execution_context \<Rightarrow> (uacpi_status option \<times> execution_context) option" where
  "execute_loop specs exec ctx =
     (if \<not> ctx_has_non_preempted_op ctx then
        (if cur_frame ctx = None then Some (None, ctx)
         else
           (let ended = maybe_end_block ctx
            in if fst ended then execute_loop specs exec (snd ended)
               else
                 (case cur_frame ctx of
                    None \<Rightarrow> Some (None, ctx)
                  | Some frame \<Rightarrow>
                      if \<not> call_frame_has_code frame
                      then execute_loop specs exec (ctx_reload_post_ret ctx)
                      else
                        (let fetched = get_op specs ctx
                         in if fst fetched \<noteq> None then Some fetched
                            else
                              (let done = exec (snd fetched)
                               in if fst done \<noteq> None then Some done
                                  else execute_loop specs exec
                                         ((snd done)\<lparr>skip_else := False\<rparr>))))))
      else
        (let done = exec ctx
         in if fst done \<noteq> None then Some done
            else execute_loop specs exec ((snd done)\<lparr>skip_else := False\<rparr>)))"

text \<open>
  The label \<^verbatim>\<open>out\<close> (lines 3960-3966): what is written to the slot \<^verbatim>\<open>*ret\<close> of the
  caller, \<open>None\<close> when the slot is left untouched. \<open>ret_given\<close> says that the caller
  passed a slot.
\<close>

definition method_out :: "bool \<Rightarrow> execution_context \<Rightarrow> uacpi_object option" where
  "method_out ret_given ctx =
     (case ctx_ret ctx of
        Some obj \<Rightarrow>
          if ret_given \<and> object_type obj \<noteq> UACPI_OBJECT_UNINITIALIZED then Some obj else None
      | None \<Rightarrow> None)"

text \<open>
  \<^verbatim>\<open>frame_setup_base_scope\<close> (lines 2768-2785) on the zeroed frame.
\<close>

definition frame_setup_base_scope ::
  "exec_frame \<Rightarrow> uacpi_namespace_node \<Rightarrow> u8 list \<Rightarrow> exec_frame" where
  "frame_setup_base_scope frame scope code =
     frame\<lparr>method_code := code, cur_scope := scope,
           code_blocks := code_blocks frame @
             [\<lparr>block_type = CODE_BLOCK_SCOPE, block_begin = 0,
               block_end = of_nat (length code), block_node = scope\<rparr>]\<rparr>"

text \<open>
  \<^verbatim>\<open>uacpi_execute_control_method\<close> (lines 3886-3967): the status returned and what was
  written to the slot. \<open>code\<close> and \<open>method_args\<close> are the byte code of the method and
  its argument count, \<open>caller_args\<close> the objects of \<^verbatim>\<open>args\<close> (\<open>None\<close> for \<^verbatim>\<open>NULL\<close>).
\<close>

definition uacpi_execute_control_method ::
  "op_specs \<Rightarrow> (execution_context \<Rightarrow> uacpi_status option \<times> execution_context)
   \<Rightarrow> uacpi_namespace_node \<Rightarrow> u8 list \<Rightarrow> nat \<Rightarrow> uacpi_object list option \<Rightarrow> bool
   \<Rightarrow> (uacpi_status option \<times> uacpi_object option) option" where
  "uacpi_execute_control_method specs exec scope code method_args caller_args ret_given =
     (let frame = \<lparr>method_code = [], code_offset = 0, cur_scope = [],
                   args = replicate 7 None, locals = replicate 8 None,
                   pending_ops = [], code_blocks = [], last_while = None\<rparr>;
          ctx = \<lparr>ctx_ret = (if ret_given then Some Uninitialized else None),
                 call_stack = [frame], cur_op = 0, skip_else = False\<rparr>;
          bad_args = (case caller_args of
                        Some objects \<Rightarrow> length objects \<noteq> method_args
                      | None \<Rightarrow> method_args \<noteq> 0)
      in if bad_args then Some (Some UACPI_STATUS_INVALID_ARGUMENT, method_out ret_given ctx)
         else
           (let objects = (case caller_args of Some objects \<Rightarrow> objects | None \<Rightarrow> []);
                frame = frame\<lparr>args := map Some (take method_args objects)
                                        @ drop method_args (args frame)\<rparr>;
                frame = frame_setup_base_scope frame scope code;
                ctx = ctx\<lparr>call_stack := [frame]\<rparr>
            in case execute_loop specs exec ctx of
                 None \<Rightarrow> None
               | Some (st, ctx) \<Rightarrow> Some (st, method_out ret_given ctx)))"

section \<open>Verification: package length decoding\<close>

lemma marker_length_unat: "unat (1 + drop_bit 6 lead :: u8) = 1 + unat lead div 64"
proof -
  have "unat (drop_bit 6 lead) = unat lead div 64" by (simp add: drop_bit_eq_div unat_div)
  moreover have "unat lead < 256" using unsigned_less[of lead, where ?'a=nat] by simp
  ultimately show ?thesis by (simp add: unat_word_ariths)
qed

lemma low6: "(ucast (lead AND 0x3F :: u8) :: u32) = of_nat (unat lead mod 64)"
proof -
  have m: "(0x3F :: u8) = mask 6" by (simp add: mask_eq_exp_minus_1)
  have "unat (lead AND mask 6) = unat lead mod 64"
    by (simp add: take_bit_eq_mask[symmetric] take_bit_eq_mod unat_mod)
  then show ?thesis unfolding m by (metis of_nat_unat)
qed

lemma low4: "(ucast (lead AND 0xF :: u8) :: u32) = of_nat (unat lead mod 16)"
proof -
  have m: "(0xF :: u8) = mask 4" by (simp add: mask_eq_exp_minus_1)
  have "unat (lead AND mask 4) = unat lead mod 16"
    by (simp add: take_bit_eq_mask[symmetric] take_bit_eq_mod unat_mod)
  then show ?thesis unfolding m by (metis of_nat_unat)
qed

lemma or_push4: "(of_nat (a mod 16) :: u32) OR push_bit 4 w = of_nat (a mod 16) + 16 * w"
proof -
  have "(of_nat (a mod 16) :: u32) < 2 ^ 4"
    by (simp add: word_less_nat_alt unat_of_nat)
  then have "(of_nat (a mod 16) :: u32) AND mask 4 = of_nat (a mod 16)"
    by (rule less_mask_eq)
  moreover have "((of_nat (a mod 16) :: u32) AND mask 4) AND push_bit 4 w = 0"
    by (auto simp: bit_eq_iff bit_simps)
  ultimately have "(of_nat (a mod 16) :: u32) AND push_bit 4 w = 0"
    by simp
  then show ?thesis
    by (simp add: disjunctive_add_eq_or[symmetric] push_bit_eq_mult mult.commute)
qed

lemma bytes_left_unat:
  assumes "unat (code_offset frame) \<le> length (method_code frame)" "length (method_code frame) < 2 ^ 32"
  shows "unat (call_frame_code_bytes_left frame) = length (method_code frame) - unat (code_offset frame)"
proof -
  have "unat (method_size frame) = length (method_code frame)"
    using assms(2) by (simp add: method_size_def unat_of_nat)
  moreover have "code_offset frame \<le> method_size frame"
    using assms calculation by (simp add: word_le_nat_alt)
  ultimately show ?thesis
    by (simp add: call_frame_code_bytes_left_def unat_sub)
qed

lemma marker_length_one: "((1 + drop_bit 6 lead :: u8) = 1) = (pkglen_extra_bytes lead = 0)"
proof -
  have "((1 + drop_bit 6 lead :: u8) = 1) = (unat (1 + drop_bit 6 lead :: u8) = unat (1 :: u8))"
    by (simp only: word_unat_eq_iff)
  then show ?thesis by (simp add: marker_length_unat pkglen_extra_bytes_def)
qed

lemma pkglen_size_word:
  "(if (1 + drop_bit 6 lead :: u8) = 1 then (ucast (lead AND 0x3F) :: u32)
    else ucast (lead AND 0xF) OR push_bit 4 (le_word (take (unat (1 + drop_bit 6 lead :: u8) - 1) rest)))
   = of_nat (pkglen_total_size lead (take (pkglen_extra_bytes lead) rest))"
proof (cases "pkglen_extra_bytes lead = 0")
  case True
  then have "(1 + drop_bit 6 lead :: u8) = 1"
    by (simp only: marker_length_one)
  then show ?thesis
    unfolding pkglen_total_size_def using True by (simp add: low6)
next
  case False
  have n1: "(1 + drop_bit 6 lead :: u8) \<noteq> 1"
    using False by (simp only: marker_length_one not_False_eq_True)
  have "unat (1 + drop_bit 6 lead :: u8) - 1 = pkglen_extra_bytes lead"
    by (simp add: marker_length_unat pkglen_extra_bytes_def)
  then have "(ucast (lead AND 0xF) :: u32) OR push_bit 4 (le_word (take (unat (1 + drop_bit 6 lead :: u8) - 1) rest))
      = of_nat (pkglen_total_size lead (take (pkglen_extra_bytes lead) rest))"
    using False by (simp add: low4 or_push4 pkglen_total_size_def le_word_def)
  then show ?thesis using n1 by (simp only: if_False)
qed

text \<open>
  Claim C6. Package length decoding follows section 4.4 of the specification bit for
  bit. For a frame whose cursor lies within the method (and a method shorter than
  \<open>2 ^ 32\<close> bytes, as \<^verbatim>\<open>uacpi_u32\<close> sizes are), \<open>pkg_begin\<close> is the offset of the
  lead byte; the number of extra bytes is the lead byte shifted right by 6; the decoded
  size is \<open>pkglen_total_size\<close> of the lead byte and the extra bytes read
  little-endian; \<open>pkg_end = pkg_begin + size\<close>; the cursor moves past the length
  bytes; and a stream with fewer remaining bytes than the encoding needs is
  \<^verbatim>\<open>UACPI_STATUS_BAD_BYTECODE\<close>.
\<close>

theorem parse_package_length_bit_exact:
  assumes off: "unat (code_offset frame) \<le> length (method_code frame)"
      and size: "length (method_code frame) < 2 ^ 32"
  shows "parse_package_length frame =
     (let off = unat (code_offset frame);
          left = length (method_code frame) - off;
          lead = method_code frame ! off;
          extra = pkglen_extra_bytes lead
      in if left < 1 \<or> left < 1 + extra then Inl UACPI_STATUS_BAD_BYTECODE
         else Inr (\<lparr>pkg_begin = code_offset frame,
                     pkg_end = code_offset frame +
                       of_nat (pkglen_total_size lead (take extra (drop (off + 1) (method_code frame))))\<rparr>,
                   frame\<lparr>code_offset := code_offset frame + of_nat (1 + extra)\<rparr>))"
proof -
  let ?off = "unat (code_offset frame)"
  let ?n = "length (method_code frame)"
  let ?lead = "method_code frame ! ?off"
  let ?ml = "1 + drop_bit 6 ?lead :: u8"
  have left: "unat (call_frame_code_bytes_left frame) = ?n - ?off"
    using assms by (rule bytes_left_unat)
  have A: "(call_frame_code_bytes_left frame < 1) = (?n - ?off < 1)"
    using left by (simp add: word_less_nat_alt)
  have ml: "unat ?ml = 1 + pkglen_extra_bytes ?lead"
    by (simp only: marker_length_unat pkglen_extra_bytes_def)
  have D: "(ucast ?ml :: u32) = of_nat (1 + pkglen_extra_bytes ?lead)"
    using ml by (metis of_nat_unat)
  have ex3: "pkglen_extra_bytes ?lead < 4"
    using unsigned_less[of ?lead, where ?'a=nat] by (simp add: pkglen_extra_bytes_def)
  have B: "(call_frame_code_bytes_left frame < ucast ?ml) = (?n - ?off < 1 + pkglen_extra_bytes ?lead)"
  proof -
    have "unat (ucast ?ml :: u32) = 1 + pkglen_extra_bytes ?lead"
      unfolding D using ex3 by (simp add: unat_of_nat del: of_nat_add of_nat_Suc)
    then show ?thesis using left by (simp add: word_less_nat_alt)
  qed
  show ?thesis
  proof (cases "?n - ?off < 1")
    case True
    then show ?thesis
      unfolding parse_package_length_def Let_def A by simp
  next
    case False
    have lead: "call_frame_cursor frame ! 0 = ?lead"
      using False by (simp add: call_frame_cursor_def)
    have tl: "tl (call_frame_cursor frame) = drop (?off + 1) (method_code frame)"
      by (simp add: call_frame_cursor_def drop_Suc tl_drop)
    show ?thesis
      unfolding parse_package_length_def Let_def A lead tl
      unfolding B pkglen_size_word
      unfolding D
      using False by simp
  qed
qed

text \<open>
  An instance: the two-byte encoding \<open>0x48 0x01\<close> at offset 1 has one extra byte and
  decodes to \<open>8 + 16 * 1 = 24\<close>.
\<close>

theorem parse_package_length_bit_exact_witness:
  "unat (code_offset \<lparr>method_code = [0x10, 0x48, 0x01, 0x00], code_offset = 1, cur_scope = []\<rparr>)
     \<le> length (method_code \<lparr>method_code = [0x10, 0x48, 0x01, 0x00], code_offset = 1, cur_scope = []\<rparr>)
   \<and> parse_package_length \<lparr>method_code = [0x10, 0x48, 0x01, 0x00], code_offset = 1, cur_scope = []\<rparr>
     = Inr (\<lparr>pkg_begin = 1, pkg_end = 25\<rparr>,
            \<lparr>method_code = [0x10, 0x48, 0x01, 0x00], code_offset = 3, cur_scope = []\<rparr>)"
  using parse_package_length_bit_exact
    [of "\<lparr>method_code = [0x10, 0x48, 0x01, 0x00], code_offset = 1, cur_scope = []\<rparr>"]
  by (simp add: pkglen_extra_bytes_def pkglen_total_size_def)

section \<open>Verification: Divide\<close>

text \<open>
  With a nonzero divisor Divide stores the remainder \<open>lhs mod rhs\<close> to item 4
  (\<^verbatim>\<open>tgt0\<close>) and the quotient \<open>lhs div rhs\<close> to item 5 (\<^verbatim>\<open>tgt1\<close>), for every
  pair of operands.
\<close>

lemma divide_nonzero:
  "rhs \<noteq> 0 \<Longrightarrow> handle_binary_math is_rev1 UACPI_AML_OP_DivideOp lhs rhs = Some [(4, lhs mod rhs), (5, lhs div rhs)]"
  by (simp add: handle_binary_math_def do_binary_math_def c_umod_def word_greater_zero_iff)

text \<open>
  Claim C3 at the divisor 0. The claim asks for the quotient and the remainder to be
  0 with a warning, and no trap. The code logs the warning and sets the quotient to 0,
  but then falls through into \<^verbatim>\<open>res = lhs % rhs\<close> with \<open>rhs = 0\<close>, which C leaves
  undefined (a divide error on x86): no result is defined for \<open>Divide (5, 0)\<close>, and
  for no other dividend.
\<close>

theorem divide_by_zero_undefined: "handle_binary_math False UACPI_AML_OP_DivideOp 5 0 = None"
  by (simp add: handle_binary_math_def do_binary_math_def c_umod_def)

lemma divide_by_zero_undefined_any:
  "handle_binary_math is_rev1 UACPI_AML_OP_DivideOp lhs 0 = None"
  by (simp add: handle_binary_math_def do_binary_math_def c_umod_def)


section \<open>Verification: ToInteger and ToBuffer\<close>

lemma le_nat_bound: "le_nat bs < 256 ^ length bs"
proof (induction bs)
  case Nil then show ?case by simp
next
  case (Cons b bs)
  have "unat b < 256" using unsigned_less[of b, where ?'a=nat] by simp
  with Cons show ?case by simp
qed

lemma le_nat_byte: "i < length bs \<Longrightarrow> le_nat bs div 256 ^ i mod 256 = unat (bs ! i)"
proof (induction bs arbitrary: i)
  case Nil then show ?case by simp
next
  case (Cons b bs)
  have b: "unat b < 256" using unsigned_less[of b, where ?'a=nat] by simp
  show ?case
  proof (cases i)
    case 0
    then show ?thesis using b by simp
  next
    case (Suc j)
    have "(unat b + 256 * le_nat bs) div (256 * 256 ^ j) = ((unat b + 256 * le_nat bs) div 256) div 256 ^ j"
      by (simp add: div_mult2_eq)
    also have "(unat b + 256 * le_nat bs) div 256 = le_nat bs" using b by simp
    finally show ?thesis using Cons Suc by simp
  qed
qed

lemma word_bytes_le_word:
  assumes "length bs \<le> 8" "n \<le> length bs"
  shows "word_bytes n (le_word bs :: u64) = take n bs"
proof (rule nth_equalityI)
  show "length (word_bytes n (le_word bs :: u64)) = length (take n bs)"
    using assms by (simp add: word_bytes_def)
next
  fix i assume "i < length (word_bytes n (le_word bs :: u64))"
  then have i: "i < n" by (simp add: word_bytes_def)
  have "le_nat bs < 256 ^ length bs" by (rule le_nat_bound)
  also have "(256::nat) ^ length bs \<le> 256 ^ 8" using assms by (intro power_increasing) auto
  finally have lt: "le_nat bs < 2 ^ 64" by simp
  have u: "unat (of_nat (le_nat bs) :: u64) = le_nat bs"
    using lt by (simp add: unat_of_nat)
  have p: "(2::nat) ^ (8 * i) = 256 ^ i" by (simp add: power_mult)
  have "unat (ucast (drop_bit (8 * i) (of_nat (le_nat bs) :: u64)) :: u8) = le_nat bs div 256 ^ i mod 256"
  proof -
    have "unat (ucast (drop_bit (8 * i) (of_nat (le_nat bs) :: u64)) :: u8)
        = take_bit 8 (unat (drop_bit (8 * i) (of_nat (le_nat bs) :: u64)))"
      by (rule unsigned_ucast_eq[where ?'c = 8, simplified])
    also have "\<dots> = take_bit 8 (drop_bit (8 * i) (le_nat bs))"
      by (simp only: unat_drop_bit_eq u)
    also have "\<dots> = le_nat bs div 256 ^ i mod 256"
      by (simp only: take_bit_eq_mod drop_bit_eq_div p) simp
    finally show ?thesis .
  qed
  also have "\<dots> = unat (bs ! i)" using i assms by (intro le_nat_byte) simp
  finally have "(ucast (drop_bit (8 * i) (of_nat (le_nat bs) :: u64)) :: u8) = bs ! i"
    by (simp only: word_unat_eq_iff)
  then show "word_bytes n (le_word bs :: u64) ! i = take n bs ! i"
    using i by (simp add: word_bytes_def le_word_def)
qed


lemma to_integer_buffer:
  "handle_to is_rev1 lib UACPI_AML_OP_ToIntegerOp (Buffer b)
     = Inr (Integer (le_word (take 8 b @ replicate (8 - length b) 0)))"
  by (simp add: handle_to_def object_to_integer_def uacpi_memcpy_zerout_def Let_def min_def)

lemma to_buffer_integer:
  "handle_to is_rev1 lib UACPI_AML_OP_ToBufferOp (Integer v) = Inr (Buffer (word_bytes (sizeof_int is_rev1) v))"
  by (simp add: handle_to_def get_object_storage_def to_result_def word_bytes_def sizeof_int_def)

lemma to_buffer_of_to_integer_eq:
  assumes "length b \<le> 8"
  shows "to_buffer_of_to_integer is_rev1 lib (Buffer b)
     = Inr (Buffer (take (sizeof_int is_rev1) (b @ replicate (8 - length b) 0)))"
proof -
  let ?p = "b @ replicate (8 - length b) 0"
  have len: "length ?p = 8" using assms by simp
  have "take 8 b = b" using assms by simp
  then have "to_buffer_of_to_integer is_rev1 lib (Buffer b) = Inr (Buffer (word_bytes (sizeof_int is_rev1) (le_word ?p :: u64)))"
    by (simp add: to_buffer_of_to_integer_def to_integer_buffer to_buffer_integer)
  moreover have "word_bytes (sizeof_int is_rev1) (le_word ?p :: u64) = take (sizeof_int is_rev1) ?p"
    by (rule word_bytes_le_word) (simp_all add: len sizeof_int_def del: length_append length_replicate)
  ultimately show ?thesis by simp
qed

text \<open>
  Claim C7 as stated fails at revision 1: there an Integer is stored in
  \<open>sizeof_int = 4\<close> bytes, so \<open>ToBuffer (ToInteger buf)\<close> of an 8-byte buffer is
  its first 4 bytes, not the buffer itself.
\<close>

theorem to_buffer_of_to_integer_rev1_counterexample:
  "to_buffer_of_to_integer True stub_stdlib (Buffer [1, 2, 3, 4, 5, 6, 7, 8])
     = Inr (Buffer [1, 2, 3, 4])
   \<and> to_buffer_of_to_integer True stub_stdlib (Buffer [1, 2, 3, 4, 5, 6, 7, 8])
     \<noteq> Inr (Buffer ([1, 2, 3, 4, 5, 6, 7, 8] @ replicate (8 - length [1, 2, 3, 4, 5, 6, 7, 8 :: u8]) 0))"
  by (simp add: to_buffer_of_to_integer_eq sizeof_int_def)

text \<open>
  Claim C7, amended. \<open>ToInteger\<close> of every buffer, of whatever size, reads its first 8
  bytes, zero-extended when there are fewer, at every revision. For a buffer of at
  most 8 bytes \<open>ToBuffer (ToInteger buf)\<close> is \<open>buf\<close> zero-padded to 8 bytes when the
  revision is not 1, and the first 4 bytes of that padding at revision 1.
\<close>

theorem to_buffer_of_to_integer_roundtrip:
  "handle_to is_rev1 lib UACPI_AML_OP_ToIntegerOp (Buffer b)
     = Inr (Integer (le_word (take 8 b @ replicate (8 - length b) 0)))
   \<and> (length b \<le> 8 \<longrightarrow>
        to_buffer_of_to_integer is_rev1 lib (Buffer b)
          = Inr (Buffer (if is_rev1 then take 4 (b @ replicate (8 - length b) 0)
                         else b @ replicate (8 - length b) 0)))"
  by (simp add: to_integer_buffer to_buffer_of_to_integer_eq sizeof_int_def
      del: take_append)

theorem to_buffer_of_to_integer_roundtrip_witness:
  "handle_to True stub_stdlib UACPI_AML_OP_ToIntegerOp (Buffer [1, 2, 3, 4, 5, 6, 7, 8, 9])
     = Inr (Integer 0x0807060504030201)
   \<and> length [0x11, 0x22 :: u8] \<le> 8
   \<and> to_buffer_of_to_integer False stub_stdlib (Buffer [0x11, 0x22])
       = Inr (Buffer [0x11, 0x22, 0, 0, 0, 0, 0, 0])
   \<and> to_buffer_of_to_integer True stub_stdlib (Buffer [0x11, 0x22])
       = Inr (Buffer [0x11, 0x22, 0, 0])"
proof -
  have long: "handle_to True stub_stdlib UACPI_AML_OP_ToIntegerOp (Buffer [1, 2, 3, 4, 5, 6, 7, 8, 9])
                = Inr (Integer 0x0807060504030201)"
    using to_buffer_of_to_integer_roundtrip [of True stub_stdlib "[1, 2, 3, 4, 5, 6, 7, 8, 9]"]
    by (simp add: le_word_def)
  have short: "length [0x11, 0x22 :: u8] \<le> 8" by simp
  have r: "replicate 6 (0 :: u8) = [0, 0, 0, 0, 0, 0]" by (simp add: eval_nat_numeral)
  have full: "to_buffer_of_to_integer False stub_stdlib (Buffer [0x11, 0x22])
                = Inr (Buffer [0x11, 0x22, 0, 0, 0, 0, 0, 0])"
    using to_buffer_of_to_integer_roundtrip [of False stub_stdlib "[0x11, 0x22]"]
    by (simp add: r)
  have rev1: "to_buffer_of_to_integer True stub_stdlib (Buffer [0x11, 0x22])
                = Inr (Buffer [0x11, 0x22, 0, 0])"
    using to_buffer_of_to_integer_roundtrip [of True stub_stdlib "[0x11, 0x22]"]
    by (simp add: r)
  show ?thesis using long short full rev1 by (intro conjI)
qed

section \<open>Verification: logical comparison\<close>

lemma binary_logic_error_iff:
  assumes "op = UACPI_AML_OP_LEqualOp \<or> op = UACPI_AML_OP_LLessOp \<or> op = UACPI_AML_OP_LGreaterOp"
  shows "(handle_binary_logic is_rev1 lib op lhs lw rhs rw = Inl e) =
           (e = UACPI_STATUS_BAD_BYTECODE \<and> object_type lhs \<noteq> object_type rhs)"
  using assms by (auto simp: handle_binary_logic_def Let_def)

lemma binary_logic_other_types:
  assumes "object_type lhs = object_type rhs"
      and "object_type lhs \<noteq> UACPI_OBJECT_INTEGER"
      and "object_type lhs \<noteq> UACPI_OBJECT_STRING"
      and "object_type lhs \<noteq> UACPI_OBJECT_BUFFER"
  shows "handle_binary_logic is_rev1 lib UACPI_AML_OP_LEqualOp lhs lw rhs rw = Inr 0"
    and "handle_binary_logic is_rev1 lib UACPI_AML_OP_LLessOp lhs lw rhs rw
           = Inr (if lw < rw then ones is_rev1 else 0)"
    and "handle_binary_logic is_rev1 lib UACPI_AML_OP_LGreaterOp lhs lw rhs rw
           = Inr (if lw > rw then ones is_rev1 else 0)"
proof -
  have l: "object_integer lw lhs = lw" using assms(2) by (cases lhs) (simp_all add: object_integer_def)
  have r: "object_integer rw rhs = rw" using assms(1,2) by (cases rhs) (simp_all add: object_integer_def)
  show "handle_binary_logic is_rev1 lib UACPI_AML_OP_LEqualOp lhs lw rhs rw = Inr 0"
    using assms by (simp add: handle_binary_logic_def handle_logical_equality_def)
  show "handle_binary_logic is_rev1 lib UACPI_AML_OP_LLessOp lhs lw rhs rw
           = Inr (if lw < rw then ones is_rev1 else 0)"
    using assms by (simp add: handle_binary_logic_def handle_logical_less_or_greater_def l r)
  show "handle_binary_logic is_rev1 lib UACPI_AML_OP_LGreaterOp lhs lw rhs rw
           = Inr (if lw > rw then ones is_rev1 else 0)"
    using assms by (simp add: handle_binary_logic_def handle_logical_less_or_greater_def l r)
qed

text \<open>
  What the three comparisons do as the claim has it: each returns the bad-bytecode
  error exactly when the types of the two operands differ, and no other error; and on
  two operands of one type that is none of Integer, String and Buffer LEqual succeeds
  with the result 0, by the type test of \<^verbatim>\<open>handle_logical_equality\<close> (line 2187).
\<close>

lemma comparison_type_error_iff_types_differ:
  assumes "op = UACPI_AML_OP_LEqualOp \<or> op = UACPI_AML_OP_LLessOp \<or> op = UACPI_AML_OP_LGreaterOp"
  shows "((handle_binary_logic is_rev1 lib op lhs lw rhs rw = Inl UACPI_STATUS_BAD_BYTECODE)
            = (object_type lhs \<noteq> object_type rhs))
       \<and> (\<forall>e. handle_binary_logic is_rev1 lib op lhs lw rhs rw = Inl e \<longrightarrow> e = UACPI_STATUS_BAD_BYTECODE)
       \<and> (object_type lhs = object_type rhs \<longrightarrow>
          object_type lhs \<noteq> UACPI_OBJECT_INTEGER \<longrightarrow>
          object_type lhs \<noteq> UACPI_OBJECT_STRING \<longrightarrow>
          object_type lhs \<noteq> UACPI_OBJECT_BUFFER \<longrightarrow>
            handle_binary_logic is_rev1 lib UACPI_AML_OP_LEqualOp lhs lw rhs rw = Inr 0)"
  using assms binary_logic_error_iff [of op is_rev1 lib lhs lw rhs rw]
    binary_logic_other_types(1) [of lhs rhs is_rev1 lib lw rw]
  by blast

text \<open>
  C10. The claim has LLess and LGreater, like LEqual, succeed with the result 0 on
  two operands of one type that is none of Integer, String and Buffer, for example
  two Packages. \<^verbatim>\<open>handle_logical_less_or_greater\<close> has no test of the type where
  \<^verbatim>\<open>handle_logical_equality\<close> has one: past the string and buffer case it compares
  \<^verbatim>\<open>lhs->integer\<close> with \<^verbatim>\<open>rhs->integer\<close> whatever the type (lines 2220-2223), and on
  packages these are the words the payloads of the two unions read as. On two
  Packages whose words are \<open>0x1000\<close> and \<open>0x2000\<close> LLess returns all-ones, true, and so
  does LGreater with the operands exchanged, where LEqual on the same operands
  returns 0.
\<close>

theorem logical_less_of_packages_not_false:
  "handle_binary_logic False stub_stdlib UACPI_AML_OP_LLessOp (Package []) 0x1000 (Package []) 0x2000
     = Inr 0xFFFFFFFFFFFFFFFF
   \<and> handle_binary_logic False stub_stdlib UACPI_AML_OP_LGreaterOp (Package []) 0x2000 (Package []) 0x1000
     = Inr 0xFFFFFFFFFFFFFFFF
   \<and> handle_binary_logic False stub_stdlib UACPI_AML_OP_LEqualOp (Package []) 0x1000 (Package []) 0x2000
     = Inr 0"
  by (simp add: handle_binary_logic_def handle_logical_less_or_greater_def
      handle_logical_equality_def object_integer_def ones_def)

theorem logical_less_of_packages_not_false_witness:
  "handle_binary_logic False stub_stdlib UACPI_AML_OP_LLessOp (Package []) 0x1000 (Package []) 0x2000
     \<noteq> Inr 0
   \<and> handle_binary_logic False stub_stdlib UACPI_AML_OP_LGreaterOp (Package []) 0x2000 (Package []) 0x1000
     \<noteq> Inr 0"
  using logical_less_of_packages_not_false by simp

section \<open>Verification: RefOf and DerefOf\<close>

lemma bottom_object_id: "object_type x \<noteq> UACPI_OBJECT_REFERENCE \<Longrightarrow> bottom_object x = x"
  by (cases x) simp_all

lemma inner_unwind_bottom:
  "object_type x = UACPI_OBJECT_REFERENCE \<Longrightarrow> inner_object (reference_unwind x) = bottom_object x"
  by (induction x rule: reference_unwind.induct) (auto simp: bottom_object_id)

lemma bottom_not_reference: "object_type (bottom_object x) \<noteq> UACPI_OBJECT_REFERENCE"
  by (induction x rule: bottom_object.induct) auto

lemma le_word_single: "(le_word [b] :: u64) = ucast b"
  by (simp add: le_word_def)

lemma deref_of_reference:
  assumes "object_type src = UACPI_OBJECT_REFERENCE"
      and "index_in_bounds (bottom_object src)"
  shows "handle_ref_or_deref_of UACPI_AML_OP_DerefOfOp src dst =
     Inr (1, deref_value (bottom_object src))"
proof (cases "bottom_object src")
  case (BufferIndex buf idx)
  then have "idx < length buf" using assms(2) by (simp add: index_in_bounds_def)
  then have "uacpi_memcpy_zerout (drop idx buf) 8 1 = buf ! idx # replicate 7 0"
    by (simp add: uacpi_memcpy_zerout_def take_Suc_conv_app_nth hd_drop_conv_nth take_Suc)
  then have "(le_word (uacpi_memcpy_zerout (drop idx buf) 8 1) :: u64) = ucast (buf ! idx)"
    by (simp add: le_word_def eval_nat_numeral)
  then show ?thesis using assms(1) BufferIndex
    by (simp add: handle_ref_or_deref_of_def inner_unwind_bottom deref_value_def)
qed (use assms(1) in \<open>simp_all add: handle_ref_or_deref_of_def inner_unwind_bottom
      uacpi_object_assign_def deref_value_def\<close>)

text \<open>
  Claim C5. RefOf wraps its operand in a RefOf reference. DerefOf of any reference
  unwinds the whole chain to the object at its bottom and yields that object, or, when
  it is a buffer index, an Integer equal to the byte at the index. So for every object
  \<open>x\<close> that is not a reference, \<open>DerefOf (RefOf x)\<close> yields \<open>x\<close> (the byte at the
  index when \<open>x\<close> is a buffer index).
\<close>

theorem deref_of_ref_of_yields_operand:
  assumes "object_type x \<noteq> UACPI_OBJECT_REFERENCE" and "index_in_bounds x"
  shows "handle_ref_or_deref_of UACPI_AML_OP_RefOfOp x dst
           = Inr (1, Reference UACPI_REFERENCE_KIND_REFOF x)
       \<and> deref_of_ref_of x = Inr (1, deref_value x)
       \<and> (\<forall>src. object_type src = UACPI_OBJECT_REFERENCE \<longrightarrow> bottom_object src = x \<longrightarrow>
             handle_ref_or_deref_of UACPI_AML_OP_DerefOfOp src dst = Inr (1, deref_value x))"
proof (intro conjI allI impI)
  show r: "handle_ref_or_deref_of UACPI_AML_OP_RefOfOp x dst
           = Inr (1, Reference UACPI_REFERENCE_KIND_REFOF x)"
    by (simp add: handle_ref_or_deref_of_def)
  have b: "bottom_object (Reference UACPI_REFERENCE_KIND_REFOF x) = x"
    using assms(1) by (simp add: bottom_object_id)
  have "handle_ref_or_deref_of UACPI_AML_OP_DerefOfOp (Reference UACPI_REFERENCE_KIND_REFOF x) Uninitialized
          = Inr (1, deref_value (bottom_object (Reference UACPI_REFERENCE_KIND_REFOF x)))"
    by (rule deref_of_reference) (simp_all add: b assms(2) del: bottom_object.simps)
  then show "deref_of_ref_of x = Inr (1, deref_value x)"
    unfolding b by (simp add: deref_of_ref_of_def handle_ref_or_deref_of_def)
next
  fix src
  assume "object_type src = UACPI_OBJECT_REFERENCE" and "bottom_object src = x"
  then show "handle_ref_or_deref_of UACPI_AML_OP_DerefOfOp src dst = Inr (1, deref_value x)"
    using deref_of_reference [of src dst] assms(2) by simp
qed

theorem deref_of_ref_of_yields_operand_witness:
  "object_type (BufferIndex [0x11, 0x22] 1) \<noteq> UACPI_OBJECT_REFERENCE
   \<and> index_in_bounds (BufferIndex [0x11, 0x22] 1)
   \<and> deref_of_ref_of (BufferIndex [0x11, 0x22] 1) = Inr (1, Integer 0x22)
   \<and> object_type (String [0x41, 0]) \<noteq> UACPI_OBJECT_REFERENCE
   \<and> deref_of_ref_of (String [0x41, 0]) = Inr (1, String [0x41, 0])"
  using deref_of_ref_of_yields_operand [of "BufferIndex [0x11, 0x22] 1" Uninitialized]
        deref_of_ref_of_yields_operand [of "String [0x41, 0]" Uninitialized]
  by (simp add: index_in_bounds_def deref_value_def)

section \<open>Verification: buffer build\<close>

lemma handle_buffer_eq:
  assumes size: "length (method_code frame) < 2 ^ 32"
      and off: "(ucast immediate :: u32) \<le> pkg_end pkg"
  shows "handle_buffer frame pkg declared_size immediate =
     (let init_len = unat (pkg_end pkg) - unat (ucast immediate :: u32)
      in if length (method_code frame) < unat (pkg_end pkg) \<or> 0xE0000000 < unat declared_size
            \<or> unat declared_size = 0 \<or> unat declared_size < init_len
         then Inl UACPI_STATUS_BAD_BYTECODE
         else Inr (take init_len (drop (unat (ucast immediate :: u32)) (method_code frame))
                   @ replicate (unat declared_size - init_len) 0))"
proof -
  let ?off = "ucast immediate :: u32"
  have ms: "unat (method_size frame) = length (method_code frame)"
    using size by (simp add: method_size_def unat_of_nat)
  have A: "(pkg_end pkg > method_size frame) = (length (method_code frame) < unat (pkg_end pkg))"
    by (simp add: word_less_nat_alt ms)
  have B: "(declared_size > 0xE0000000) = (0xE0000000 < unat declared_size)"
    by (simp add: word_less_nat_alt)
  have C: "(declared_size = 0) = (unat declared_size = 0)"
    by (simp add: unat_eq_0)
  have init: "unat (pkg_end pkg - ?off) = unat (pkg_end pkg) - unat ?off"
    using off by (simp add: unat_sub)
  show ?thesis
  proof (cases "0xE0000000 < unat declared_size")
    case True
    then show ?thesis unfolding handle_buffer_def Let_def A B C by simp
  next
    case False
    then have "unat declared_size < 2 ^ 32" by simp
    then have bs: "unat (ucast declared_size :: u32) = unat declared_size"
      by (simp add: unsigned_ucast_eq take_bit_nat_eq_self)
    have D: "(pkg_end pkg - ?off > ucast declared_size) = (unat declared_size < unat (pkg_end pkg) - unat ?off)"
      by (simp add: word_less_nat_alt init bs)
    show ?thesis
      unfolding handle_buffer_def Let_def A B C D
      by (simp add: uacpi_memcpy_zerout_def init bs min_def)
  qed
qed

text \<open>
  Claim C2 as stated fails twice. Two initializer bytes for a declared size of 1 are
  not capped at \<open>min init_len declared_size\<close>: the operation is bad bytecode. And a
  declared size of \<open>0x70000000\<close>, above \<open>0x60000000\<close>, is not rejected: the threshold
  of the code is \<open>0xE0000000\<close>.
\<close>

theorem handle_buffer_counterexample:
  "handle_buffer \<lparr>method_code = [0x11, 0x05, 0x0A, 0x01, 0xAA, 0xBB], code_offset = 4, cur_scope = []\<rparr>
      \<lparr>pkg_begin = 1, pkg_end = 6\<rparr> 1 4 = Inl UACPI_STATUS_BAD_BYTECODE
   \<and> handle_buffer
      \<lparr>method_code = [0x11, 0x08, 0x0C, 0x00, 0x00, 0x00, 0x70, 0xAA, 0xBB], code_offset = 7, cur_scope = []\<rparr>
      \<lparr>pkg_begin = 1, pkg_end = 9\<rparr> 0x70000000 7 \<noteq> Inl UACPI_STATUS_BAD_BYTECODE"
  by (simp add: handle_buffer_def method_size_def)

text \<open>
  Claim C2, amended. Let \<open>init_len\<close> be the number of bytes from the first
  initializer byte to the end of the package (the recorded offset not beyond that
  end). The Buffer op is bad bytecode when the package ends beyond the method, when
  the declared size exceeds \<open>0xE0000000\<close> (treated as corrupt) or is 0, and when
  \<open>init_len\<close> exceeds the declared size. Otherwise the buffer holds exactly
  \<open>declared_size\<close> bytes: the \<open>init_len\<close> in-stream initializer bytes, then zeros.
\<close>

theorem handle_buffer_result:
  assumes size: "length (method_code frame) < 2 ^ 32"
      and off: "(ucast immediate :: u32) \<le> pkg_end pkg"
  shows "handle_buffer frame pkg declared_size immediate =
     (let init_len = unat (pkg_end pkg) - unat (ucast immediate :: u32)
      in if length (method_code frame) < unat (pkg_end pkg) \<or> 0xE0000000 < unat declared_size
            \<or> unat declared_size = 0 \<or> unat declared_size < init_len
         then Inl UACPI_STATUS_BAD_BYTECODE
         else Inr (take init_len (drop (unat (ucast immediate :: u32)) (method_code frame))
                   @ replicate (unat declared_size - init_len) 0))
   \<and> (\<forall>data. handle_buffer frame pkg declared_size immediate = Inr data
          \<longrightarrow> length data = unat declared_size)"
proof (intro conjI allI impI)
  show "handle_buffer frame pkg declared_size immediate =
     (let init_len = unat (pkg_end pkg) - unat (ucast immediate :: u32)
      in if length (method_code frame) < unat (pkg_end pkg) \<or> 0xE0000000 < unat declared_size
            \<or> unat declared_size = 0 \<or> unat declared_size < init_len
         then Inl UACPI_STATUS_BAD_BYTECODE
         else Inr (take init_len (drop (unat (ucast immediate :: u32)) (method_code frame))
                   @ replicate (unat declared_size - init_len) 0))"
    using assms by (rule handle_buffer_eq)
next
  fix data
  assume "handle_buffer frame pkg declared_size immediate = Inr data"
  moreover have "unat (ucast immediate :: u32) \<le> unat (pkg_end pkg)"
    using off by (simp add: word_le_nat_alt)
  ultimately show "length data = unat declared_size"
    unfolding handle_buffer_eq [OF assms] Let_def
    by (auto split: if_splits)
qed

theorem handle_buffer_result_witness:
  "length (method_code \<lparr>method_code = [0x11, 0x07, 0x0A, 0x04, 0xAA, 0xBB], code_offset = 4, cur_scope = []\<rparr>) < 2 ^ 32
   \<and> handle_buffer \<lparr>method_code = [0x11, 0x07, 0x0A, 0x04, 0xAA, 0xBB], code_offset = 4, cur_scope = []\<rparr>
        \<lparr>pkg_begin = 1, pkg_end = 6\<rparr> 4 4 = Inr [0xAA, 0xBB, 0, 0]
   \<and> handle_buffer \<lparr>method_code = [0x11, 0x07, 0x0A, 0x04, 0xAA, 0xBB], code_offset = 4, cur_scope = []\<rparr>
        \<lparr>pkg_begin = 1, pkg_end = 6\<rparr> 0 4 = Inl UACPI_STATUS_BAD_BYTECODE"
proof -
  let ?frame = "\<lparr>method_code = [0x11, 0x07, 0x0A, 0x04, 0xAA, 0xBB], code_offset = 4, cur_scope = []\<rparr>"
  let ?pkg = "\<lparr>pkg_begin = 1, pkg_end = 6\<rparr>"
  have h: "length (method_code ?frame) < 2 ^ 32" by simp
  have o: "(ucast (4 :: u64) :: u32) \<le> pkg_end ?pkg" by simp
  have r: "replicate 2 (0 :: u8) = [0, 0]" by (simp add: numeral_2_eq_2)
  have a: "handle_buffer ?frame ?pkg 4 4 = Inr [0xAA, 0xBB, 0, 0]"
    using handle_buffer_result [OF h o, of 4] by (simp add: r)
  have b: "handle_buffer ?frame ?pkg 0 4 = Inl UACPI_STATUS_BAD_BYTECODE"
    using handle_buffer_result [OF h o, of 0] by simp
  show ?thesis using h a b by (intro conjI)
qed

section \<open>Verification: name resolution\<close>

lemma name_char_not_special:
  "is_name_char c \<Longrightarrow> c \<noteq> 0x5C \<and> c \<noteq> 0x5E \<and> c \<noteq> 0x2E \<and> c \<noteq> 0x2F \<and> c \<noteq> 0x00"
  by (auto simp: is_name_char_def)

lemma valid_nameseg_Cons:
  "valid_nameseg a \<Longrightarrow> \<exists>c cs. a = c # cs \<and> is_name_char c \<and> length cs = 3"
  by (cases a) (auto simp: valid_nameseg_def)

lemma parse_nameseg_valid: "valid_nameseg a \<Longrightarrow> parse_nameseg (a @ tail) = Inr a"
  by (simp add: parse_nameseg_def valid_nameseg_def)

lemma resolve_prefix_parents:
  assumes "tail \<noteq> []" "hd tail \<noteq> 0x5C" "hd tail \<noteq> 0x5E"
  shows "resolve_prefix (replicate n 0x5E @ tail) node prev jo =
     (if n \<le> length node then Inr (tail, drop n node, if n = 0 then jo else False)
      else Inl UACPI_STATUS_BAD_BYTECODE)"
proof (induction n arbitrary: node prev jo)
  case 0
  then show ?case using assms by (cases tail) simp_all
next
  case (Suc n)
  show ?case
  proof (cases node)
    case Nil
    then show ?thesis by (simp add: uacpi_namespace_root_def)
  next
    case (Cons x xs)
    then show ?thesis using Suc by (simp add: uacpi_namespace_root_def)
  qed
qed

lemma resolve_prefix_encoded:
  assumes "tail \<noteq> []" "hd tail \<noteq> 0x5C" "hd tail \<noteq> 0x5E" "prefix \<noteq> ParentPrefix 0"
  shows "resolve_prefix (encode_prefix prefix @ tail) scope 0 True =
     (case start_node scope prefix of
        None \<Rightarrow> Inl UACPI_STATUS_BAD_BYTECODE
      | Some node \<Rightarrow> Inr (tail, node, prefix = NoPrefix))"
proof (cases prefix)
  case NoPrefix
  then show ?thesis using assms by (cases tail) simp_all
next
  case RootPrefix
  then show ?thesis by simp
next
  case (ParentPrefix n)
  then show ?thesis using assms resolve_prefix_parents [OF assms(1-3), of n scope 0 True]
    by simp
qed

lemma upward_search_lookup:
  "(case node_find node a of Some n \<Rightarrow> Some n | None \<Rightarrow> upward_search node_find a node)
     = lookup_upward node_find node a"
  by (induction node) (auto split: option.splits)

lemma resolve_segments_single:
  assumes "valid_nameseg a"
  shows "resolve_segments node_find RESOLVE_FAIL_IF_DOESNT_EXIST True 1 (a @ rest) node =
     (case lookup_upward node_find node a of
        None \<Rightarrow> Inr (Some UACPI_STATUS_NOT_FOUND, None, rest)
      | Some nd \<Rightarrow> Inr (None, Some nd, rest))"
proof -
  have len: "length a = 4" using assms by (simp add: valid_nameseg_def)
  have "lookup_upward node_find node a =
      (case node_find node a of Some n \<Rightarrow> Some n | None \<Rightarrow> upward_search node_find a node)"
    by (simp only: upward_search_lookup)
  then show ?thesis
    using len by (simp add: parse_nameseg_valid [OF assms] Let_def split: option.splits)
qed

lemma resolve_segments_walk:
  assumes "list_all valid_nameseg segs"
  shows "resolve_segments node_find RESOLVE_FAIL_IF_DOESNT_EXIST False (length segs) (concat segs @ rest) node =
     (case walk_down node_find node segs of
        None \<Rightarrow> Inr (Some UACPI_STATUS_NOT_FOUND, None, rest)
      | Some nd \<Rightarrow> Inr (None, Some nd, rest))"
  using assms
proof (induction segs arbitrary: node)
  case Nil
  then show ?case by simp
next
  case (Cons a segs)
  then have a: "valid_nameseg a" and segs: "list_all valid_nameseg segs" by simp_all
  have len: "length a = 4" using a by (simp add: valid_nameseg_def)
  have clen: "length (concat segs) = 4 * length segs"
    using segs by (induction segs) (simp_all add: valid_nameseg_def)
  have p: "parse_nameseg (concat (a # segs) @ rest) = Inr a"
    using parse_nameseg_valid [OF a, of "concat segs @ rest"] by simp
  have d: "drop (Suc (length segs) * 4) (concat (a # segs) @ rest) = rest"
    using len clen by simp
  have d4: "drop 4 (concat (a # segs) @ rest) = concat segs @ rest"
    using len by simp
  show ?case
  proof (cases "node_find node a")
    case None
    then show ?thesis
      by (simp only: length_Cons resolve_segments.simps p d Let_def walk_down.simps) simp
  next
    case (Some child)
    then show ?thesis
      using Cons.IH [OF segs, of child]
      by (simp only: length_Cons resolve_segments.simps p d4 Let_def walk_down.simps) simp
  qed
qed


lemma encode_path_head:
  assumes "list_all valid_nameseg (path_segments path)"
  shows "encode_path path @ rest \<noteq> [] \<and> hd (encode_path path @ rest) \<noteq> 0x5C
       \<and> hd (encode_path path @ rest) \<noteq> 0x5E"
proof (cases path)
  case (NameSeg a)
  then have "valid_nameseg a" using assms by simp
  then obtain c cs where "a = c # cs" "is_name_char c" using valid_nameseg_Cons by blast
  then show ?thesis using NameSeg name_char_not_special [of c] by simp
qed simp_all

lemma resolve_existing_name_eq:
  assumes valid: "valid_name_string prefix path"
      and cur: "call_frame_cursor frame = encode_prefix prefix @ encode_path path @ rest"
  shows "resolve_name_string node_find frame RESOLVE_FAIL_IF_DOESNT_EXIST =
     (let frame' = frame\<lparr>code_offset := of_nat (length (method_code frame) - length rest)\<rparr>
      in case find_existing node_find (cur_scope frame) prefix path of
           Inr node \<Rightarrow> Inr (None, Some node, frame')
         | Inl ret \<Rightarrow>
             if ret = UACPI_STATUS_NOT_FOUND then Inr (Some UACPI_STATUS_NOT_FOUND, None, frame')
             else Inl ret)"
proof -
  have segs: "list_all valid_nameseg (path_segments path)"
    and count: "length (path_segments path) < 256"
    and p0: "prefix \<noteq> ParentPrefix 0"
    using valid by (simp_all add: valid_name_string_def)
  note hd = encode_path_head [OF segs, of rest]
  have pre: "resolve_prefix (call_frame_cursor frame) (cur_scope frame) 0 True =
     (case start_node (cur_scope frame) prefix of
        None \<Rightarrow> Inl UACPI_STATUS_BAD_BYTECODE
      | Some node \<Rightarrow> Inr (encode_path path @ rest, node, prefix = NoPrefix))"
    unfolding cur using hd p0 by (intro resolve_prefix_encoded) simp_all
  show ?thesis
  proof (cases "start_node (cur_scope frame) prefix")
    case None
    then have "prefix \<noteq> NoPrefix" by (cases prefix) simp_all
    then show ?thesis using None pre
      by (simp add: resolve_name_string_def find_existing_def uses_upward_search_def)
  next
    case (Some start)
    show ?thesis
    proof (cases path)
      case (NameSeg a)
      then have a: "valid_nameseg a" using segs by simp
      then obtain c cs where acs: "a = c # cs" "is_name_char c" "length cs = 3"
        using valid_nameseg_Cons by blast
      note nc = name_char_not_special [OF acs(2)]
      show ?thesis
      proof (cases "prefix = NoPrefix")
        case True
        then have st: "start = cur_scope frame" using Some by simp
        show ?thesis
          using resolve_segments_single [OF a, of node_find rest start] True Some pre NameSeg acs nc st
          by (simp add: resolve_name_string_def find_existing_def uses_upward_search_def
              resolve_out_def Let_def split: option.splits)
      next
        case False
        show ?thesis
          using resolve_segments_walk [of "[a]" node_find rest start] a False Some pre NameSeg acs nc
          by (simp add: resolve_name_string_def find_existing_def uses_upward_search_def
              resolve_out_def Let_def split: option.splits)
      qed
    next
      case (DualNamePath a b)
      then have ab: "valid_nameseg a" "valid_nameseg b" using segs by simp_all
      then have len: "length a = 4" "length b = 4" by (simp_all add: valid_nameseg_def)
      show ?thesis
        using resolve_segments_walk [of "[a, b]" node_find rest start] ab len Some pre DualNamePath
        by (simp add: resolve_name_string_def find_existing_def uses_upward_search_def
            resolve_out_def Let_def numeral_2_eq_2 split: option.splits)
    next
      case (MultiNamePath ss)
      then have v: "list_all valid_nameseg ss" and c: "length ss < 256" using segs count by simp_all
      have clen: "length (concat ss) = 4 * length ss"
        using v by (induction ss) (simp_all add: valid_nameseg_def)
      have u: "unat (of_nat (length ss) :: u8) = length ss"
        using c by (simp add: unat_of_nat)
      show ?thesis
        using resolve_segments_walk [OF v, of node_find rest start] clen u Some pre MultiNamePath
        by (simp add: resolve_name_string_def find_existing_def uses_upward_search_def
            resolve_out_def Let_def split: option.splits)
    next
      case NullName
      show ?thesis
        using Some pre NullName
        by (cases prefix)
           (simp_all add: resolve_name_string_def find_existing_def uses_upward_search_def
            resolve_out_def Let_def)
    qed
  qed
qed


text \<open>
  Claim C1. For every well-formed name string at the cursor, find-existing resolution
  does what \<open>find_existing\<close> says and moves the cursor past the name string. Upward
  search is applied exactly when the name string is a single name segment with no
  prefix character and no dual or multi name marker: then the name is looked up in
  the current scope and, on a miss, in each ancestor up to the root. For every other
  name string the segments are looked up one by one from the node the prefix
  selects, and a miss at any segment is \<^verbatim>\<open>UACPI_STATUS_NOT_FOUND\<close> with no node,
  whatever the ancestors hold.
\<close>

theorem upward_search_iff_single_nameseg:
  assumes valid: "valid_name_string prefix path"
      and cur: "call_frame_cursor frame = encode_prefix prefix @ encode_path path @ rest"
  shows "resolve_name_string node_find frame RESOLVE_FAIL_IF_DOESNT_EXIST =
     (let frame' = frame\<lparr>code_offset := of_nat (length (method_code frame) - length rest)\<rparr>
      in case find_existing node_find (cur_scope frame) prefix path of
           Inr node \<Rightarrow> Inr (None, Some node, frame')
         | Inl ret \<Rightarrow>
             if ret = UACPI_STATUS_NOT_FOUND then Inr (Some UACPI_STATUS_NOT_FOUND, None, frame')
             else Inl ret)
   \<and> (\<forall>a. prefix = NoPrefix \<longrightarrow> path = NameSeg a \<longrightarrow>
         resolve_name_string node_find frame RESOLVE_FAIL_IF_DOESNT_EXIST =
           (case lookup_upward node_find (cur_scope frame) a of
              Some node \<Rightarrow>
                Inr (None, Some node,
                     frame\<lparr>code_offset := of_nat (length (method_code frame) - length rest)\<rparr>)
            | None \<Rightarrow>
                Inr (Some UACPI_STATUS_NOT_FOUND, None,
                     frame\<lparr>code_offset := of_nat (length (method_code frame) - length rest)\<rparr>)))
   \<and> (\<forall>start. \<not> (prefix = NoPrefix \<and> (\<exists>a. path = NameSeg a)) \<longrightarrow>
         start_node (cur_scope frame) prefix = Some start \<longrightarrow>
         walk_down node_find start (path_segments path) = None \<longrightarrow>
         resolve_name_string node_find frame RESOLVE_FAIL_IF_DOESNT_EXIST =
           Inr (Some UACPI_STATUS_NOT_FOUND, None,
                frame\<lparr>code_offset := of_nat (length (method_code frame) - length rest)\<rparr>))"
proof (intro conjI allI impI)
  show "resolve_name_string node_find frame RESOLVE_FAIL_IF_DOESNT_EXIST =
     (let frame' = frame\<lparr>code_offset := of_nat (length (method_code frame) - length rest)\<rparr>
      in case find_existing node_find (cur_scope frame) prefix path of
           Inr node \<Rightarrow> Inr (None, Some node, frame')
         | Inl ret \<Rightarrow>
             if ret = UACPI_STATUS_NOT_FOUND then Inr (Some UACPI_STATUS_NOT_FOUND, None, frame')
             else Inl ret)"
    using assms by (rule resolve_existing_name_eq)
next
  fix a
  assume "prefix = NoPrefix" "path = NameSeg a"
  then show "resolve_name_string node_find frame RESOLVE_FAIL_IF_DOESNT_EXIST =
           (case lookup_upward node_find (cur_scope frame) a of
              Some node \<Rightarrow>
                Inr (None, Some node,
                     frame\<lparr>code_offset := of_nat (length (method_code frame) - length rest)\<rparr>)
            | None \<Rightarrow>
                Inr (Some UACPI_STATUS_NOT_FOUND, None,
                     frame\<lparr>code_offset := of_nat (length (method_code frame) - length rest)\<rparr>))"
    unfolding resolve_existing_name_eq [OF assms]
    by (simp add: find_existing_def uses_upward_search_def Let_def split: option.splits)
next
  fix start
  assume n: "\<not> (prefix = NoPrefix \<and> (\<exists>a. path = NameSeg a))"
     and s: "start_node (cur_scope frame) prefix = Some start"
     and w: "walk_down node_find start (path_segments path) = None"
  have "\<not> uses_upward_search prefix path"
    using n by (cases path) (simp_all add: uses_upward_search_def)
  moreover have "path \<noteq> NullName" using w by auto
  ultimately show "resolve_name_string node_find frame RESOLVE_FAIL_IF_DOESNT_EXIST =
           Inr (Some UACPI_STATUS_NOT_FOUND, None,
                frame\<lparr>code_offset := of_nat (length (method_code frame) - length rest)\<rparr>)"
    unfolding resolve_existing_name_eq [OF assms]
    using s w by (simp add: find_existing_def Let_def)
qed

text \<open>
  An instance after scenario S6 of the specification. The namespace has \<open>\X\<close>,
  \<open>\X.Y\<close>, \<open>\X.Y.Z\<close> and \<open>\X.FOO\<close>; the scope is \<open>\X.Y.Z\<close>. The single segment
  \<open>FOO_\<close> climbs to \<open>\X\<close> and resolves to \<open>\X.FOO\<close>; the same segment behind a
  multi name marker with the count 1 is not found.
\<close>

theorem upward_search_iff_single_nameseg_witness:
  "resolve_name_string
     (namespace_find
        [[[0x58, 0x5F, 0x5F, 0x5F]],
         [[0x59, 0x5F, 0x5F, 0x5F], [0x58, 0x5F, 0x5F, 0x5F]],
         [[0x5A, 0x5F, 0x5F, 0x5F], [0x59, 0x5F, 0x5F, 0x5F], [0x58, 0x5F, 0x5F, 0x5F]],
         [[0x46, 0x4F, 0x4F, 0x5F], [0x58, 0x5F, 0x5F, 0x5F]]])
     \<lparr>method_code = [0x46, 0x4F, 0x4F, 0x5F], code_offset = 0,
      cur_scope = [[0x5A, 0x5F, 0x5F, 0x5F], [0x59, 0x5F, 0x5F, 0x5F], [0x58, 0x5F, 0x5F, 0x5F]]\<rparr>
     RESOLVE_FAIL_IF_DOESNT_EXIST
   = Inr (None, Some [[0x46, 0x4F, 0x4F, 0x5F], [0x58, 0x5F, 0x5F, 0x5F]],
          \<lparr>method_code = [0x46, 0x4F, 0x4F, 0x5F], code_offset = 4,
           cur_scope = [[0x5A, 0x5F, 0x5F, 0x5F], [0x59, 0x5F, 0x5F, 0x5F], [0x58, 0x5F, 0x5F, 0x5F]]\<rparr>)
   \<and> resolve_name_string
     (namespace_find
        [[[0x58, 0x5F, 0x5F, 0x5F]],
         [[0x59, 0x5F, 0x5F, 0x5F], [0x58, 0x5F, 0x5F, 0x5F]],
         [[0x5A, 0x5F, 0x5F, 0x5F], [0x59, 0x5F, 0x5F, 0x5F], [0x58, 0x5F, 0x5F, 0x5F]],
         [[0x46, 0x4F, 0x4F, 0x5F], [0x58, 0x5F, 0x5F, 0x5F]]])
     \<lparr>method_code = [0x2F, 0x01, 0x46, 0x4F, 0x4F, 0x5F], code_offset = 0,
      cur_scope = [[0x5A, 0x5F, 0x5F, 0x5F], [0x59, 0x5F, 0x5F, 0x5F], [0x58, 0x5F, 0x5F, 0x5F]]\<rparr>
     RESOLVE_FAIL_IF_DOESNT_EXIST
   = Inr (Some UACPI_STATUS_NOT_FOUND, None,
          \<lparr>method_code = [0x2F, 0x01, 0x46, 0x4F, 0x4F, 0x5F], code_offset = 6,
           cur_scope = [[0x5A, 0x5F, 0x5F, 0x5F], [0x59, 0x5F, 0x5F, 0x5F], [0x58, 0x5F, 0x5F, 0x5F]]\<rparr>)"
proof -
  let ?X = "[0x58, 0x5F, 0x5F, 0x5F] :: u8 list"
  let ?Y = "[0x59, 0x5F, 0x5F, 0x5F] :: u8 list"
  let ?Z = "[0x5A, 0x5F, 0x5F, 0x5F] :: u8 list"
  let ?FOO = "[0x46, 0x4F, 0x4F, 0x5F] :: u8 list"
  let ?ns = "namespace_find [[?X], [?Y, ?X], [?Z, ?Y, ?X], [?FOO, ?X]]"
  let ?f1 = "\<lparr>method_code = ?FOO, code_offset = 0, cur_scope = [?Z, ?Y, ?X]\<rparr>"
  let ?f2 = "\<lparr>method_code = [0x2F, 0x01] @ ?FOO, code_offset = 0, cur_scope = [?Z, ?Y, ?X]\<rparr>"
  have v: "valid_nameseg ?FOO" by (simp add: valid_nameseg_def is_name_char_def)
  have v1: "valid_name_string NoPrefix (NameSeg ?FOO)"
    using v by (simp add: valid_name_string_def)
  have v2: "valid_name_string NoPrefix (MultiNamePath [?FOO])"
    using v by (simp add: valid_name_string_def)
  have c1: "call_frame_cursor ?f1 = encode_prefix NoPrefix @ encode_path (NameSeg ?FOO) @ []"
    by (simp add: call_frame_cursor_def)
  have c2: "call_frame_cursor ?f2 = encode_prefix NoPrefix @ encode_path (MultiNamePath [?FOO]) @ []"
    by (simp add: call_frame_cursor_def)
  have a: "resolve_name_string ?ns ?f1 RESOLVE_FAIL_IF_DOESNT_EXIST
        = Inr (None, Some [?FOO, ?X], ?f1\<lparr>code_offset := 4\<rparr>)"
    using upward_search_iff_single_nameseg [OF v1 c1, of ?ns]
    by (simp add: find_existing_def uses_upward_search_def namespace_find_def)
  have b: "resolve_name_string ?ns ?f2 RESOLVE_FAIL_IF_DOESNT_EXIST
        = Inr (Some UACPI_STATUS_NOT_FOUND, None, ?f2\<lparr>code_offset := 6\<rparr>)"
    using upward_search_iff_single_nameseg [OF v2 c2, of ?ns]
    by (simp add: find_existing_def uses_upward_search_def namespace_find_def)
  show ?thesis using a b by simp
qed

section \<open>Verification: buffer fields\<close>

lemma bit_u8_less: "bit (w :: u8) n \<Longrightarrow> n < 8"
  using bit_imp_le_length [of w n] by simp

lemma pos_same_div: "s + k < (8::nat) \<Longrightarrow> (8 * p + s + k) div 8 = p"
  by simp

lemma pos_same_mod: "s + k < (8::nat) \<Longrightarrow> (8 * p + s + k) mod 8 = s + k"
  by (simp add: add.assoc)

lemma pos_next_div: "8 \<le> s + k \<Longrightarrow> s < 8 \<Longrightarrow> k < (8::nat) \<Longrightarrow> (8 * p + s + k) div 8 = p + 1"
  by (simp add: add.assoc div_nat_eqI)

lemma pos_next_mod: "8 \<le> s + k \<Longrightarrow> s < 8 \<Longrightarrow> k < (8::nat) \<Longrightarrow> (8 * p + s + k) mod 8 = s + k - 8"
  by (simp add: add.assoc mod_nat_eqI)

lemma mem_bit_same: "s + k < 8 \<Longrightarrow> mem_bit m (8 * p + s + k) = bit (m ! p) (s + k)"
  unfolding mem_bit_def by (simp only: pos_same_div pos_same_mod)

lemma mem_bit_next:
  "8 \<le> s + k \<Longrightarrow> s < 8 \<Longrightarrow> k < 8 \<Longrightarrow> mem_bit m (8 * p + s + k) = bit (m ! (p + 1)) (s + k - 8)"
  unfolding mem_bit_def by (simp only: pos_next_div pos_next_mod)

lemma gather_bits_low:
  assumes "ss < 8" "ss + k < 8"
  shows "bit (gather_bits src ss sp sc) k = (k < sc \<and> bit (src ! sp) (ss + k))"
  using assms unfolding gather_bits_def Let_def
  by (auto simp add: bit_simps add.commute)

lemma gather_bits_high:
  assumes "ss < 8" "8 \<le> ss + k" "k < 8"
  shows "bit (gather_bits src ss sp sc) k = (k < sc \<and> bit (src ! (sp + 1)) (ss + k - 8))"
  using assms unfolding gather_bits_def Let_def
  by (auto simp add: bit_simps add.commute dest: bit_u8_less)


lemma gather_bits_bit:
  assumes "ss < 8"
  shows "bit (gather_bits src ss sp sc) k = (k < 8 \<and> k < sc \<and> mem_bit src (8 * sp + ss + k))"
proof (cases "k < 8")
  case False
  then show ?thesis using bit_u8_less [of "gather_bits src ss sp sc" k] by blast
next
  case True
  show ?thesis
  proof (cases "ss + k < 8")
    case True
    then show ?thesis using assms \<open>k < 8\<close> by (simp add: gather_bits_low mem_bit_same)
  next
    case False
    then show ?thesis using assms \<open>k < 8\<close> by (simp add: gather_bits_high mem_bit_next)
  qed
qed

lemma scatter_bits_length: "length (scatter_bits dst ds dp dc bits) = length dst"
  unfolding scatter_bits_def Let_def by simp

lemma scatter_bits_other:
  assumes "q \<noteq> dp" "q \<noteq> dp + 1"
  shows "scatter_bits dst ds dp dc bits ! q = dst ! q"
  using assms unfolding scatter_bits_def Let_def by simp

lemma bit_ff_int: "bit (0xFF :: int) n = (n < 8)"
proof -
  have "bit (mask 8 :: int) n = (n < 8)" by (simp add: bit_mask_iff)
  moreover have "(mask 8 :: int) = 0xFF" by (simp add: mask_eq_exp_minus_1)
  ultimately show ?thesis by (simp only:)
qed

lemma scatter_bits_first:
  assumes "ds < 8" "dp < length dst" "r < 8"
  shows "bit (scatter_bits dst ds dp dc bits ! dp) r =
         (if ds \<le> r \<and> r < ds + min dc 8 then bit bits (r - ds) else bit (dst ! dp) r)"
  using assms unfolding scatter_bits_def Let_def
  by (auto simp add: bit_simps bit_ff_int)

lemma scatter_bits_second:
  assumes "ds < 8" "dp + 1 < length dst" "r < 8" "ds \<noteq> 0" "8 - ds < dc"
  shows "bit (scatter_bits dst ds dp dc bits ! (dp + 1)) r =
         (if 8 + r < ds + min dc 8 then bit bits (8 + r - ds) else bit (dst ! (dp + 1)) r)"
  using assms unfolding scatter_bits_def Let_def
  by (auto simp add: bit_simps bit_ff_int)

lemma scatter_bits_second_same:
  assumes "\<not> (ds \<noteq> 0 \<and> 8 - ds < dc)"
  shows "scatter_bits dst ds dp dc bits ! (dp + 1) = dst ! (dp + 1)"
  using assms by (auto simp add: scatter_bits_def Let_def)


lemma mem_bit_split: "mem_bit m (8 * q + r) = bit (m ! q) r" if "r < 8"
  using that unfolding mem_bit_def by simp

lemma scatter_bits_mem_bit:
  assumes "ds < 8" "dp < length dst" "ds \<noteq> 0 \<and> 8 - ds < dc \<longrightarrow> dp + 1 < length dst"
  shows "mem_bit (scatter_bits dst ds dp dc bits) n =
         (if 8 * dp + ds \<le> n \<and> n < 8 * dp + ds + min dc 8
          then bit bits (n - (8 * dp + ds)) else mem_bit dst n)"
proof -
  define q where "q = n div 8"
  define r where "r = n mod 8"
  have n: "n = 8 * q + r" and r: "r < 8" by (simp_all add: q_def r_def)
  have lhs: "mem_bit (scatter_bits dst ds dp dc bits) n = bit (scatter_bits dst ds dp dc bits ! q) r"
    and old: "mem_bit dst n = bit (dst ! q) r"
    unfolding n using r by (rule mem_bit_split)+
  consider (first) "q = dp" | (second) "q = dp + 1" | (other) "q \<noteq> dp" "q \<noteq> dp + 1" by blast
  then show ?thesis
  proof cases
    case first
    have "bit (scatter_bits dst ds dp dc bits ! dp) r =
          (if ds \<le> r \<and> r < ds + min dc 8 then bit bits (r - ds) else bit (dst ! dp) r)"
      using assms(1,2) r by (rule scatter_bits_first)
    then show ?thesis unfolding lhs old unfolding n first by simp
  next
    case second
    show ?thesis
    proof (cases "ds \<noteq> 0 \<and> 8 - ds < dc")
      case True
      then have a: "dp + 1 < length dst" and b: "ds \<noteq> 0" and c: "8 - ds < dc"
        using assms(3) by simp_all
      have "bit (scatter_bits dst ds dp dc bits ! (dp + 1)) r =
          (if 8 + r < ds + min dc 8 then bit bits (8 + r - ds) else bit (dst ! (dp + 1)) r)"
        using assms(1) a r b c by (rule scatter_bits_second)
      then show ?thesis unfolding lhs old unfolding n second using assms(1) by simp
    next
      case False
      then have "scatter_bits dst ds dp dc bits ! (dp + 1) = dst ! (dp + 1)"
        by (rule scatter_bits_second_same)
      moreover have "\<not> (8 * dp + ds \<le> n \<and> n < 8 * dp + ds + min dc 8)"
        using False unfolding n second by auto
      ultimately show ?thesis unfolding lhs old unfolding second by auto
    qed
  next
    case other
    then have "scatter_bits dst ds dp dc bits ! q = dst ! q" by (rule scatter_bits_other)
    moreover have "\<not> (8 * dp + ds \<le> n \<and> n < 8 * dp + ds + min dc 8)"
      using other assms(1) r unfolding n by auto
    ultimately show ?thesis unfolding lhs old by auto
  qed
qed


lemma do_rw_loop_done: "do_rw_loop src ss ds dst dp 0 sp sc = dst"
  by (subst do_rw_loop.simps) simp

lemma do_rw_loop_step:
  "dc \<noteq> 0 \<Longrightarrow>
   do_rw_loop src ss ds dst dp dc sp sc =
   do_rw_loop src ss ds (scatter_bits dst ds dp dc (gather_bits src ss sp sc)) (dp + 1)
     (if dc > 8 then dc - 8 else 0)
     (if 8 \<le> sc then sp + 1 else sp) (if 8 \<le> sc then sc - 8 else 0)"
  by (subst do_rw_loop.simps) (auto simp add: Let_def)

lemma do_rw_loop_props:
  assumes "ss < 8" "ds < 8" "dc \<noteq> 0 \<longrightarrow> 8 * dp + ds + dc \<le> 8 * length dst"
  shows "length (do_rw_loop src ss ds dst dp dc sp sc) = length dst \<and>
         (\<forall>n. mem_bit (do_rw_loop src ss ds dst dp dc sp sc) n =
           (if 8 * dp + ds \<le> n \<and> n < 8 * dp + ds + dc
            then n - (8 * dp + ds) < sc \<and> mem_bit src (8 * sp + ss + (n - (8 * dp + ds)))
            else mem_bit dst n))"
  using assms
proof (induction dc arbitrary: dst dp sp sc rule: less_induct)
  case (less dc)
  show ?case
  proof (cases "dc = 0")
    case True
    then show ?thesis by (auto simp add: do_rw_loop_done)
  next
    case False
    define bits where "bits = gather_bits src ss sp sc"
    define dst' where "dst' = scatter_bits dst ds dp dc bits"
    define dc' where "dc' = (if dc > 8 then dc - 8 else 0)"
    define sp' where "sp' = (if 8 \<le> sc then sp + 1 else sp)"
    define sc' where "sc' = (if 8 \<le> sc then sc - 8 else 0)"
    have step: "do_rw_loop src ss ds dst dp dc sp sc = do_rw_loop src ss ds dst' (dp + 1) dc' sp' sc'"
      unfolding bits_def dst'_def dc'_def sp'_def sc'_def using False by (rule do_rw_loop_step)
    have bound: "8 * dp + ds + dc \<le> 8 * length dst" using less.prems(3) False by simp
    have len: "length dst' = length dst" unfolding dst'_def by (rule scatter_bits_length)
    have smaller: "dc' < dc" using False unfolding dc'_def by simp
    have pre: "dc' \<noteq> 0 \<longrightarrow> 8 * (dp + 1) + ds + dc' \<le> 8 * length dst'"
      using bound unfolding dc'_def len by simp
    have IH: "length (do_rw_loop src ss ds dst' (dp + 1) dc' sp' sc') = length dst' \<and>
         (\<forall>n. mem_bit (do_rw_loop src ss ds dst' (dp + 1) dc' sp' sc') n =
           (if 8 * (dp + 1) + ds \<le> n \<and> n < 8 * (dp + 1) + ds + dc'
            then n - (8 * (dp + 1) + ds) < sc' \<and> mem_bit src (8 * sp' + ss + (n - (8 * (dp + 1) + ds)))
            else mem_bit dst' n))"
      using smaller less.prems(1,2) pre by (rule less.IH)
    have in1: "dp < length dst" using bound False by simp
    have in2: "ds \<noteq> 0 \<and> 8 - ds < dc \<longrightarrow> dp + 1 < length dst" using bound by auto
    have dst'_bit: "mem_bit dst' n =
         (if 8 * dp + ds \<le> n \<and> n < 8 * dp + ds + min dc 8
          then bit bits (n - (8 * dp + ds)) else mem_bit dst n)" for n
      unfolding dst'_def using less.prems(2) in1 in2 by (rule scatter_bits_mem_bit)
    have bits_bit: "bit bits k = (k < 8 \<and> k < sc \<and> mem_bit src (8 * sp + ss + k))" for k
      unfolding bits_def using less.prems(1) by (rule gather_bits_bit)
    have "mem_bit (do_rw_loop src ss ds dst' (dp + 1) dc' sp' sc') n =
           (if 8 * dp + ds \<le> n \<and> n < 8 * dp + ds + dc
            then n - (8 * dp + ds) < sc \<and> mem_bit src (8 * sp + ss + (n - (8 * dp + ds)))
            else mem_bit dst n)" for n
    proof -
      have ih: "mem_bit (do_rw_loop src ss ds dst' (dp + 1) dc' sp' sc') n =
           (if 8 * (dp + 1) + ds \<le> n \<and> n < 8 * (dp + 1) + ds + dc'
            then n - (8 * (dp + 1) + ds) < sc' \<and> mem_bit src (8 * sp' + ss + (n - (8 * (dp + 1) + ds)))
            else mem_bit dst' n)"
        using IH by blast
      have "n < 8 * dp + ds \<or> (8 * dp + ds \<le> n \<and> n < 8 * dp + ds + min dc 8)
          \<or> (8 * dp + ds + 8 \<le> n \<and> n < 8 * dp + ds + dc) \<or> 8 * dp + ds + dc \<le> n"
        by arith
      then consider (below) "n < 8 * dp + ds"
        | (head) "8 * dp + ds \<le> n" "n < 8 * dp + ds + min dc 8"
        | (rest) "8 * dp + ds + 8 \<le> n" "n < 8 * dp + ds + dc"
        | (above) "8 * dp + ds + dc \<le> n"
        by blast
      then show ?thesis
      proof cases
        case below
        then have a: "\<not> (8 * (dp + 1) + ds \<le> n \<and> n < 8 * (dp + 1) + ds + dc')"
          and b: "\<not> (8 * dp + ds \<le> n \<and> n < 8 * dp + ds + dc)"
          and c: "\<not> (8 * dp + ds \<le> n \<and> n < 8 * dp + ds + min dc 8)" by arith+
        show ?thesis
          unfolding ih if_not_P [OF a] dst'_bit if_not_P [OF c] if_not_P [OF b] by (rule refl)
      next
        case head
        then have j: "n - (8 * dp + ds) < 8" by arith
        have a: "\<not> (8 * (dp + 1) + ds \<le> n \<and> n < 8 * (dp + 1) + ds + dc')"
          using head by arith
        have b: "8 * dp + ds \<le> n \<and> n < 8 * dp + ds + dc" using head by arith
        have c: "8 * dp + ds \<le> n \<and> n < 8 * dp + ds + min dc 8" using head by arith
        show ?thesis
          unfolding ih if_not_P [OF a] dst'_bit if_P [OF c] bits_bit if_P [OF b]
          using j by simp
      next
        case rest
        then have big: "8 < dc" by simp
        then have dc': "dc' = dc - 8" unfolding dc'_def by simp
        have inr: "8 * (dp + 1) + ds \<le> n \<and> n < 8 * (dp + 1) + ds + dc'"
          using rest big unfolding dc' by simp
        have off: "n - (8 * (dp + 1) + ds) = n - (8 * dp + ds) - 8" by simp
        have j: "8 \<le> n - (8 * dp + ds)" using rest by simp
        show ?thesis
        proof (cases "8 \<le> sc")
          case True
          then have "sp' = sp + 1" "sc' = sc - 8" unfolding sp'_def sc'_def by simp_all
          moreover have "8 * (sp + 1) + ss + (n - (8 * dp + ds) - 8) = 8 * sp + ss + (n - (8 * dp + ds))"
            using j by simp
          moreover have "(n - (8 * dp + ds) - 8 < sc - 8) = (n - (8 * dp + ds) < sc)"
            using j True by auto
          moreover have b: "8 * dp + ds \<le> n \<and> n < 8 * dp + ds + dc" using rest by simp
          ultimately show ?thesis unfolding ih if_P [OF inr] if_P [OF b] off by simp
        next
          case False
          then have "sc' = 0" unfolding sc'_def by simp
          moreover have "\<not> n - (8 * dp + ds) < sc" using j False by simp
          moreover have b: "8 * dp + ds \<le> n \<and> n < 8 * dp + ds + dc" using rest by simp
          ultimately show ?thesis unfolding ih if_P [OF inr] if_P [OF b] by simp
        qed
      next
        case above
        then have a: "\<not> (8 * (dp + 1) + ds \<le> n \<and> n < 8 * (dp + 1) + ds + dc')"
          unfolding dc'_def by (cases "8 < dc") simp_all
        have c: "\<not> (8 * dp + ds \<le> n \<and> n < 8 * dp + ds + min dc 8)"
          using above by arith
        have b: "\<not> (8 * dp + ds \<le> n \<and> n < 8 * dp + ds + dc)"
          using above by arith
        show ?thesis
          unfolding ih if_not_P [OF a] dst'_bit if_not_P [OF c] if_not_P [OF b] by (rule refl)
      qed
    qed
    then show ?thesis unfolding step using IH len by simp
  qed
qed


lemma misaligned_write_props:
  assumes "bit_index field + bit_length field \<le> 8 * length (backing field)"
  shows "length (do_write_misaligned_buffer_field field src_buf) = length (backing field) \<and>
         (\<forall>n. mem_bit (do_write_misaligned_buffer_field field src_buf) n =
           (if bit_index field \<le> n \<and> n < bit_index field + bit_length field
            then n - bit_index field < 8 * length src_buf \<and> mem_bit src_buf (n - bit_index field)
            else mem_bit (backing field) n))"
proof -
  have pre: "bit_length field \<noteq> 0 \<longrightarrow>
      8 * (bit_index field div 8) + bit_index field mod 8 + bit_length field
        \<le> 8 * length (backing field)"
    using assms by simp
  have "(0::nat) < 8" "bit_index field mod 8 < 8" by simp_all
  from do_rw_loop_props [OF this pre, of src_buf 0 "length src_buf * 8"]
  show ?thesis
    unfolding do_write_misaligned_buffer_field_def do_rw_misaligned_buffer_field_def
    by (simp add: mult.commute)
qed

lemma misaligned_read_props:
  assumes "buffer_field_byte_size field \<le> length dst"
  shows "length (do_misaligned_buffer_read field dst) = length dst \<and>
         (\<forall>n. mem_bit (do_misaligned_buffer_read field dst) n =
           (if n < 8 * buffer_field_byte_size field
            then n < bit_length field \<and> mem_bit (backing field) (bit_index field + n)
            else mem_bit dst n))"
proof -
  have pre: "buffer_field_byte_size field * 8 \<noteq> 0 \<longrightarrow>
      8 * 0 + 0 + buffer_field_byte_size field * 8 \<le> 8 * length dst"
    using assms by simp
  have "bit_index field mod 8 < 8" "(0::nat) < 8" by simp_all
  from do_rw_loop_props [OF this pre, of "backing field" "bit_index field div 8" "bit_length field"]
  show ?thesis
    unfolding do_misaligned_buffer_read_def do_rw_misaligned_buffer_field_def
    by (simp add: mult.commute)
qed


lemma memcpy_zerout_length: "length (uacpi_memcpy_zerout src n (length src)) = n"
  unfolding uacpi_memcpy_zerout_def by simp

lemma memcpy_zerout_nth:
  "i < n \<Longrightarrow> uacpi_memcpy_zerout src n (length src) ! i = (if i < length src then src ! i else 0)"
  unfolding uacpi_memcpy_zerout_def by (simp add: nth_append)

lemma div8_round_up: "0 < r \<Longrightarrow> r < 8 \<Longrightarrow> (8 * q + r + 7) div 8 = q + (1::nat)"
  by (rule div_nat_eqI) simp_all

lemma div8_round_exact: "(8 * q + 7) div 8 = (q::nat)"
  by (rule div_nat_eqI) simp_all

lemma byte_size_tail:
  assumes "bit_length field mod 8 \<noteq> 0"
  shows "bit_length field = 8 * (buffer_field_byte_size field - 1) + bit_length field mod 8"
proof -
  define q where "q = bit_length field div 8"
  define r where "r = bit_length field mod 8"
  have bl: "bit_length field = 8 * q + r" and r: "r < 8" "0 < r"
    using assms by (simp_all add: q_def r_def)
  have "buffer_field_byte_size field = q + 1"
    unfolding buffer_field_byte_size_def bl using r by (simp add: div8_round_up)
  moreover have "bit_length field mod 8 = r" by (simp add: r_def)
  ultimately show ?thesis using bl by simp
qed

lemma byte_size_exact:
  assumes "bit_length field mod 8 = 0"
  shows "bit_length field = 8 * buffer_field_byte_size field"
proof -
  define q where "q = bit_length field div 8"
  have bl: "bit_length field = 8 * q" using assms by (auto simp add: q_def)
  have "buffer_field_byte_size field = q"
    unfolding buffer_field_byte_size_def bl by (simp add: div8_round_exact)
  then show ?thesis using bl by simp
qed

lemma byte_size_pos: "1 \<le> bit_length field \<Longrightarrow> 1 \<le> buffer_field_byte_size field"
  unfolding buffer_field_byte_size_def by simp

lemma byte_size_upper: "bit_length field \<le> 8 * buffer_field_byte_size field"
proof (cases "bit_length field mod 8 = 0")
  case True
  then show ?thesis using byte_size_exact [of field] by simp
next
  case False
  have "bit_length field mod 8 < 8" by simp
  moreover have "1 \<le> buffer_field_byte_size field"
    using False by (intro byte_size_pos) (cases "bit_length field = 0", simp_all)
  ultimately show ?thesis using byte_size_tail [OF False] by linarith
qed

lemma byte_size_lower:
  assumes "1 \<le> bit_length field"
  shows "8 * (buffer_field_byte_size field - 1) < bit_length field"
proof (cases "bit_length field mod 8 = 0")
  case True
  then show ?thesis using byte_size_exact [of field] byte_size_pos [OF assms] by linarith
next
  case False
  then have "0 < bit_length field mod 8" by simp
  then show ?thesis using byte_size_tail [OF False] by linarith
qed


lemma field_fits:
  assumes "bit_index field mod 8 = 0"
    and "bit_index field + bit_length field \<le> 8 * length (backing field)"
    and "1 \<le> bit_length field"
  shows "bit_index field div 8 + buffer_field_byte_size field \<le> length (backing field)"
proof -
  have "bit_index field = 8 * (bit_index field div 8)" using assms(1) by auto
  then show ?thesis
    using assms(2) byte_size_lower [OF assms(3)] byte_size_pos [OF assms(3)] by linarith
qed

lemma aligned_write_props:
  assumes al: "bit_index field mod 8 = 0"
    and inb: "bit_index field + bit_length field \<le> 8 * length (backing field)"
    and pos: "1 \<le> bit_length field"
  shows "length (write_buffer_field field src_buf) = length (backing field)"
    and "bit_index field \<le> n \<Longrightarrow> n < bit_index field + bit_length field \<Longrightarrow>
         mem_bit (write_buffer_field field src_buf) n =
         (n - bit_index field < 8 * length src_buf \<and> mem_bit src_buf (n - bit_index field))"
proof -
  define d where "d = bit_index field div 8"
  define count where "count = buffer_field_byte_size field"
  define t where "t = bit_length field mod 8"
  define Z where "Z = uacpi_memcpy_zerout src_buf count (length src_buf)"
  define mem where "mem = take d (backing field) @ Z @ drop (d + count) (backing field)"
  define v where "v = (ucast ((ucast (mem ! (d + count - 1)) :: u32)
      OR push_bit t (drop_bit t (ucast (backing field ! (d + count - 1))))) :: u8)"
  have bi: "bit_index field = 8 * d" using al by (auto simp add: d_def)
  have cnt: "1 \<le> count" unfolding count_def using pos by (rule byte_size_pos)
  have fit: "d + count \<le> length (backing field)"
    unfolding d_def count_def using al inb pos by (rule field_fits)
  have lenZ: "length Z = count" unfolding Z_def by (rule memcpy_zerout_length)
  have lenmem: "length mem = length (backing field)"
    unfolding mem_def using fit lenZ by simp
  have W: "write_buffer_field field src_buf = (if t \<noteq> 0 then mem[d + count - 1 := v] else mem)"
    unfolding write_buffer_field_def using al
    by (simp add: Let_def d_def count_def t_def Z_def mem_def v_def)
  show "length (write_buffer_field field src_buf) = length (backing field)"
    unfolding W using lenmem by simp
  assume lo: "bit_index field \<le> n" and hi: "n < bit_index field + bit_length field"
  define q where "q = n div 8"
  define r where "r = n mod 8"
  have n: "n = 8 * q + r" and r: "r < 8" by (simp_all add: q_def r_def)
  have q1: "d \<le> q" using lo unfolding bi n using r by linarith
  have q2: "q < d + count"
    using hi byte_size_upper [of field] unfolding bi n count_def by linarith
  have qd: "q - d < count" using q1 q2 by linarith
  have memq: "mem ! q = Z ! (q - d)"
    unfolding mem_def using q1 qd fit lenZ by (simp add: nth_append)
  have Zq: "Z ! (q - d) = (if q - d < length src_buf then src_buf ! (q - d) else 0)"
    unfolding Z_def using qd by (rule memcpy_zerout_nth)
  have Wq: "bit (write_buffer_field field src_buf ! q) r = bit (mem ! q) r"
  proof (cases "t \<noteq> 0 \<and> q = d + count - 1")
    case True
    then have "bit_length field = 8 * (count - 1) + t"
      unfolding count_def t_def using byte_size_tail [of field] by simp
    then have rt: "r < t" using hi True cnt unfolding bi n by linarith
    have "write_buffer_field field src_buf ! q = v"
      unfolding W using True lenmem fit cnt by simp
    moreover have "bit v r = bit (mem ! (d + count - 1)) r"
      unfolding v_def using rt r by (auto simp add: bit_simps)
    ultimately show ?thesis using True by simp
  next
    case False
    then have "write_buffer_field field src_buf ! q = mem ! q"
      unfolding W by auto
    then show ?thesis by simp
  qed
  have off: "n - bit_index field = 8 * (q - d) + r" unfolding bi n using q1 by simp
  have "mem_bit (write_buffer_field field src_buf) n = bit (write_buffer_field field src_buf ! q) r"
    unfolding n using r by (rule mem_bit_split)
  moreover have "mem_bit src_buf (n - bit_index field) = bit (src_buf ! (q - d)) r"
    unfolding off using r by (rule mem_bit_split)
  moreover have "(n - bit_index field < 8 * length src_buf) = (q - d < length src_buf)"
    unfolding off using r by linarith
  ultimately show "mem_bit (write_buffer_field field src_buf) n =
         (n - bit_index field < 8 * length src_buf \<and> mem_bit src_buf (n - bit_index field))"
    using Wq memq Zq by simp
qed


lemma aligned_read_props:
  assumes al: "bit_index field mod 8 = 0"
    and inb: "bit_index field + bit_length field \<le> 8 * length (backing field)"
    and pos: "1 \<le> bit_length field"
    and room: "buffer_field_byte_size field \<le> length dst"
  shows "length (do_read_buffer_field field dst) = length dst"
    and "mem_bit (do_read_buffer_field field dst) n =
         (if n < 8 * buffer_field_byte_size field
          then n < bit_length field \<and> mem_bit (backing field) (bit_index field + n)
          else mem_bit dst n)"
proof -
  define d where "d = bit_index field div 8"
  define count where "count = buffer_field_byte_size field"
  define t where "t = bit_length field mod 8"
  define out where "out = take count (drop d (backing field)) @ drop count dst"
  define v where "v = (ucast ((ucast (out ! (count - 1)) :: u64) AND mask t) :: u8)"
  have bi: "bit_index field = 8 * d" using al by (auto simp add: d_def)
  have cnt: "1 \<le> count" unfolding count_def using pos by (rule byte_size_pos)
  have fit: "d + count \<le> length (backing field)"
    unfolding d_def count_def using al inb pos by (rule field_fits)
  have room': "count \<le> length dst" using room unfolding count_def .
  have lentake: "length (take count (drop d (backing field))) = count" using fit by simp
  have lenout: "length out = length dst" unfolding out_def using lentake room' by simp
  have R: "do_read_buffer_field field dst = (if t \<noteq> 0 then out[count - 1 := v] else out)"
    unfolding do_read_buffer_field_def using al
    by (simp add: Let_def d_def count_def t_def out_def v_def)
  show "length (do_read_buffer_field field dst) = length dst"
    unfolding R using lenout by simp
  define q where "q = n div 8"
  define r where "r = n mod 8"
  have n: "n = 8 * q + r" and r: "r < 8" by (simp_all add: q_def r_def)
  have lhs: "mem_bit (do_read_buffer_field field dst) n = bit (do_read_buffer_field field dst ! q) r"
    unfolding n using r by (rule mem_bit_split)
  show "mem_bit (do_read_buffer_field field dst) n =
         (if n < 8 * buffer_field_byte_size field
          then n < bit_length field \<and> mem_bit (backing field) (bit_index field + n)
          else mem_bit dst n)"
  proof (cases "q < count")
    case True
    then have inside: "n < 8 * buffer_field_byte_size field"
      unfolding n count_def using r by linarith
    have outq: "out ! q = backing field ! (d + q)"
      unfolding out_def using True fit lentake by (simp add: nth_append)
    have src: "mem_bit (backing field) (bit_index field + n) = bit (backing field ! (d + q)) r"
    proof -
      have "bit_index field + n = 8 * (d + q) + r" unfolding bi n by simp
      then show ?thesis using r by (simp only: mem_bit_split)
    qed
    have "bit (do_read_buffer_field field dst ! q) r =
          (n < bit_length field \<and> bit (backing field ! (d + q)) r)"
    proof (cases "t \<noteq> 0 \<and> q = count - 1")
      case True
      then have "bit_length field = 8 * (count - 1) + t"
        unfolding count_def t_def using byte_size_tail [of field] by simp
      then have rt: "(n < bit_length field) = (r < t)" using True unfolding n by linarith
      have "do_read_buffer_field field dst ! q = v"
        unfolding R using True lenout room' cnt by simp
      moreover have "bit v r = (r < t \<and> bit (out ! (count - 1)) r)"
        unfolding v_def using r by (auto simp add: bit_simps)
      ultimately show ?thesis using True outq rt by simp
    next
      case False
      then have same: "do_read_buffer_field field dst ! q = out ! q"
        unfolding R by auto
      have "n < bit_length field"
      proof (cases "t = 0")
        case True
        then have "bit_length field = 8 * count"
          unfolding count_def t_def by (rule byte_size_exact)
        then show ?thesis using inside unfolding count_def by simp
      next
        case nz: False
        then have "q < count - 1" using False True by linarith
        then show ?thesis
          using byte_size_lower [OF pos] r unfolding n count_def by linarith
      qed
      then show ?thesis using same outq by simp
    qed
    then show ?thesis unfolding lhs src using inside by simp
  next
    case False
    then have outside: "\<not> n < 8 * buffer_field_byte_size field"
      unfolding n count_def by linarith
    have "do_read_buffer_field field dst ! q = out ! q"
      unfolding R using False cnt by auto
    moreover have "out ! q = dst ! q"
      unfolding out_def using False lentake room' by (simp add: nth_append)
    moreover have "mem_bit dst n = bit (dst ! q) r"
      unfolding n using r by (rule mem_bit_split)
    ultimately show ?thesis unfolding lhs using outside by simp
  qed
qed


lemma write_buffer_field_props:
  assumes inb: "bit_index field + bit_length field \<le> 8 * length (backing field)"
    and pos: "1 \<le> bit_length field"
  shows "length (write_buffer_field field src_buf) = length (backing field)"
    and "bit_index field \<le> n \<Longrightarrow> n < bit_index field + bit_length field \<Longrightarrow>
         mem_bit (write_buffer_field field src_buf) n =
         (n - bit_index field < 8 * length src_buf \<and> mem_bit src_buf (n - bit_index field))"
proof -
  show "length (write_buffer_field field src_buf) = length (backing field)"
  proof (cases "bit_index field mod 8 = 0")
    case True
    then show ?thesis using inb pos by (rule aligned_write_props(1))
  next
    case False
    then have "write_buffer_field field src_buf = do_write_misaligned_buffer_field field src_buf"
      unfolding write_buffer_field_def by simp
    then show ?thesis using misaligned_write_props [OF inb, of src_buf] by simp
  qed
  assume lo: "bit_index field \<le> n" and hi: "n < bit_index field + bit_length field"
  show "mem_bit (write_buffer_field field src_buf) n =
         (n - bit_index field < 8 * length src_buf \<and> mem_bit src_buf (n - bit_index field))"
  proof (cases "bit_index field mod 8 = 0")
    case True
    then show ?thesis using inb pos lo hi by (rule aligned_write_props(2))
  next
    case False
    then have "write_buffer_field field src_buf = do_write_misaligned_buffer_field field src_buf"
      unfolding write_buffer_field_def by simp
    then show ?thesis using misaligned_write_props [OF inb, of src_buf] lo hi by simp
  qed
qed

lemma do_read_buffer_field_props:
  assumes inb: "bit_index field + bit_length field \<le> 8 * length (backing field)"
    and pos: "1 \<le> bit_length field"
    and room: "buffer_field_byte_size field \<le> length dst"
  shows "length (do_read_buffer_field field dst) = length dst"
    and "mem_bit (do_read_buffer_field field dst) n =
         (if n < 8 * buffer_field_byte_size field
          then n < bit_length field \<and> mem_bit (backing field) (bit_index field + n)
          else mem_bit dst n)"
proof -
  show "length (do_read_buffer_field field dst) = length dst"
  proof (cases "bit_index field mod 8 = 0")
    case True
    then show ?thesis using inb pos room by (rule aligned_read_props(1))
  next
    case False
    then have "do_read_buffer_field field dst = do_misaligned_buffer_read field dst"
      unfolding do_read_buffer_field_def by simp
    then show ?thesis using misaligned_read_props [OF room] by simp
  qed
  show "mem_bit (do_read_buffer_field field dst) n =
         (if n < 8 * buffer_field_byte_size field
          then n < bit_length field \<and> mem_bit (backing field) (bit_index field + n)
          else mem_bit dst n)"
  proof (cases "bit_index field mod 8 = 0")
    case True
    then show ?thesis using inb pos room by (rule aligned_read_props(2))
  next
    case False
    then have "do_read_buffer_field field dst = do_misaligned_buffer_read field dst"
      unfolding do_read_buffer_field_def by simp
    then show ?thesis using misaligned_read_props [OF room] by simp
  qed
qed

lemma write_then_read_props:
  assumes inb: "bit_index field + bit_length field \<le> 8 * length (backing field)"
    and pos: "1 \<le> bit_length field"
    and room: "buffer_field_byte_size field \<le> length dst"
  shows "length (write_then_read field src_buf dst) = length dst"
    and "mem_bit (write_then_read field src_buf dst) n =
         (if n < 8 * buffer_field_byte_size field
          then n < bit_length field \<and> n < 8 * length src_buf \<and> mem_bit src_buf n
          else mem_bit dst n)"
proof -
  define written where "written = field\<lparr>backing := write_buffer_field field src_buf\<rparr>"
  have sel: "bit_index written = bit_index field" "bit_length written = bit_length field"
    "backing written = write_buffer_field field src_buf"
    "buffer_field_byte_size written = buffer_field_byte_size field"
    unfolding written_def buffer_field_byte_size_def by simp_all
  have inb': "bit_index written + bit_length written \<le> 8 * length (backing written)"
    unfolding sel using inb write_buffer_field_props(1) [OF inb pos] by simp
  have pos': "1 \<le> bit_length written" unfolding sel using pos .
  have room': "buffer_field_byte_size written \<le> length dst" unfolding sel using room .
  have wtr: "write_then_read field src_buf dst = do_read_buffer_field written dst"
    unfolding write_then_read_def written_def ..
  show "length (write_then_read field src_buf dst) = length dst"
    unfolding wtr using inb' pos' room' by (rule do_read_buffer_field_props(1))
  have rd: "mem_bit (do_read_buffer_field written dst) n =
         (if n < 8 * buffer_field_byte_size field
          then n < bit_length field \<and> mem_bit (write_buffer_field field src_buf) (bit_index field + n)
          else mem_bit dst n)"
    using do_read_buffer_field_props(2) [OF inb' pos' room', of n] unfolding sel .
  have wr: "mem_bit (write_buffer_field field src_buf) (bit_index field + n) =
         (n < 8 * length src_buf \<and> mem_bit src_buf n)" if "n < bit_length field"
    using write_buffer_field_props(2) [OF inb pos, of "bit_index field + n" src_buf] that by simp
  show "mem_bit (write_then_read field src_buf dst) n =
         (if n < 8 * buffer_field_byte_size field
          then n < bit_length field \<and> n < 8 * length src_buf \<and> mem_bit src_buf n
          else mem_bit dst n)"
    unfolding wtr rd using wr by auto
qed

text \<open>
  C4. Over a 32-byte backing buffer, for every bit index from 0 to 16 and every bit
  length from 1 to 72, writing the storage of a value to the field with
  \<^verbatim>\<open>write_buffer_field\<close> and reading the field back with \<^verbatim>\<open>do_read_buffer_field\<close>
  yields exactly the written bits: bit \<open>k\<close> of the memory read into is bit \<open>k\<close> of the
  source when \<open>k\<close> lies below the bit length of the field and within the source, and
  zero for every other bit of the bytes of the field; the memory beyond the bytes of
  the field is left as it was. Both the byte-aligned path and the bit-span path are
  covered, the bit index being arbitrary.
\<close>

theorem buffer_field_write_then_read:
  assumes "length (backing field) = 32"
    and "bit_index field \<le> 16"
    and "1 \<le> bit_length field"
    and "bit_length field \<le> 72"
    and "buffer_field_byte_size field \<le> length dst"
  shows "length (write_then_read field src_buf dst) = length dst \<and>
         (\<forall>k < 8 * length dst.
            mem_bit (write_then_read field src_buf dst) k =
            (if k < 8 * buffer_field_byte_size field
             then k < bit_length field \<and> k < 8 * length src_buf \<and> mem_bit src_buf k
             else mem_bit dst k))"
proof -
  have inb: "bit_index field + bit_length field \<le> 8 * length (backing field)"
    using assms(1,2,4) by simp
  show ?thesis
    using write_then_read_props [OF inb assms(3) assms(5)] by simp
qed

theorem buffer_field_write_then_read_witness:
  "length (backing \<lparr>backing = replicate 32 0xFF, bit_index = 4, bit_length = 12, force_buffer = False\<rparr>) = 32
   \<and> length (write_then_read
        \<lparr>backing = replicate 32 0xFF, bit_index = 4, bit_length = 12, force_buffer = False\<rparr>
        [0xBC, 0xFA] [0, 0]) = 2
   \<and> mem_bit (write_then_read
        \<lparr>backing = replicate 32 0xFF, bit_index = 4, bit_length = 12, force_buffer = False\<rparr>
        [0xBC, 0xFA] [0, 0]) 3
   \<and> \<not> mem_bit (write_then_read
        \<lparr>backing = replicate 32 0xFF, bit_index = 4, bit_length = 12, force_buffer = False\<rparr>
        [0xBC, 0xFA] [0, 0]) 12"
proof -
  let ?field = "\<lparr>backing = replicate 32 0xFF, bit_index = 4, bit_length = 12, force_buffer = False\<rparr>"
  let ?src = "[0xBC, 0xFA] :: u8 list"
  let ?dst = "[0, 0] :: u8 list"
  have h1: "length (backing ?field) = 32" by simp
  have h2: "bit_index ?field \<le> 16" by simp
  have h3: "1 \<le> bit_length ?field" by simp
  have h4: "bit_length ?field \<le> 72" by simp
  have bs: "buffer_field_byte_size ?field = 2" by (simp add: buffer_field_byte_size_def)
  have h5: "buffer_field_byte_size ?field \<le> length ?dst" unfolding bs by simp
  note r = buffer_field_write_then_read [OF h1 h2 h3 h4 h5, of ?src]
  have a: "length (write_then_read ?field ?src ?dst) = 2" using r by simp
  have s3: "mem_bit ?src 3" by (simp add: mem_bit_def)
  have b: "mem_bit (write_then_read ?field ?src ?dst) 3"
    using r s3 unfolding bs by simp
  have c: "\<not> mem_bit (write_then_read ?field ?src ?dst) 12"
    using r unfolding bs by simp
  show ?thesis using h1 a b c by (intro conjI)
qed

section \<open>Verification: store to a reference\<close>

lemma unwind_rebuild: "foldr Reference (unwind_path obj) (reference_unwind obj) = obj"
  by (induction obj rule: reference_unwind.induct) simp_all

lemma unwrap_rebuild:
  "foldr Reference (unwrap_path obj) (uacpi_unwrap_internal_reference obj) = obj"
  by (induction obj rule: uacpi_unwrap_internal_reference.induct) simp_all

lemma unwind_is_reference:
  "object_type obj = UACPI_OBJECT_REFERENCE \<Longrightarrow> \<exists>k y. reference_unwind obj = Reference k y"
  by (induction obj rule: reference_unwind.induct) simp_all

lemma store_destination_shape:
  assumes "store_destination dst = Inr (ow, outer, target)"
  shows "(\<exists>k y. target = Reference k y) \<and> foldr Reference outer target = dst"
proof (cases dst)
  case (Reference kind x)
  have named: "\<exists>k y. reference_unwind dst = Reference k y"
    using Reference by (intro unwind_is_reference) simp
  have inner: "object_type x = UACPI_OBJECT_REFERENCE \<Longrightarrow> \<exists>k y. reference_unwind x = Reference k y"
    by (rule unwind_is_reference)
  have wrapped: "object_type (uacpi_unwrap_internal_reference dst) = UACPI_OBJECT_REFERENCE
      \<Longrightarrow> \<exists>k y. reference_unwind (uacpi_unwrap_internal_reference dst) = Reference k y"
    by (rule unwind_is_reference)
  have r1: "foldr Reference (unwrap_path dst @ unwind_path (uacpi_unwrap_internal_reference dst))
              (reference_unwind (uacpi_unwrap_internal_reference dst)) = dst"
    by (simp add: unwind_rebuild unwrap_rebuild)
  have r2: "foldr Reference ([kind] @ unwind_path x) (reference_unwind x) = dst"
    using Reference by (simp add: unwind_rebuild)
  have r3: "foldr Reference (unwind_path dst) (reference_unwind dst) = dst"
    by (rule unwind_rebuild)
  show ?thesis
  proof (cases kind)
    case UACPI_REFERENCE_KIND_REFOF
    then show ?thesis using assms Reference by (simp add: store_destination_def)
  next
    case UACPI_REFERENCE_KIND_LOCAL
    then show ?thesis
      using assms wrapped r1 unfolding store_destination_def Reference [symmetric]
      using Reference by (auto simp add: Let_def split: if_splits)
  next
    case UACPI_REFERENCE_KIND_ARG
    then show ?thesis
      using assms wrapped r1 unfolding store_destination_def Reference [symmetric]
      using Reference by (auto simp add: Let_def split: if_splits)
  next
    case UACPI_REFERENCE_KIND_NAMED
    then show ?thesis
      using assms named r3 unfolding store_destination_def Reference [symmetric]
      using Reference by (auto simp add: Let_def split: if_splits)
  next
    case UACPI_REFERENCE_KIND_PKG_INDEX
    then show ?thesis
      using assms inner r2 Reference unfolding store_destination_def
      by (auto simp add: Let_def split: if_splits)
  qed
qed (use assms in \<open>simp_all add: store_destination_def\<close>)


lemma store_destination_total:
  assumes "kind \<noteq> UACPI_REFERENCE_KIND_REFOF"
  shows "\<exists>ow outer target. store_destination (Reference kind x) = Inr (ow, outer, target)"
  using assms by (cases kind) (auto simp add: store_destination_def Let_def)

lemma uninitialized_type: "object_type obj = UACPI_OBJECT_UNINITIALIZED \<Longrightarrow> obj = Uninitialized"
  by (cases obj) simp_all

lemma replace_bottom_chain:
  "object_type y \<noteq> UACPI_OBJECT_REFERENCE \<Longrightarrow>
   replace_bottom (foldr Reference outer (Reference k y)) new_obj
     = foldr Reference outer (Reference k new_obj)"
  by (induction outer) (cases y; simp)+

lemma implicit_cast_uninitialized:
  "object_assign_with_implicit_cast is_rev1 Uninitialized src \<noteq> Inr y"
  unfolding object_assign_with_implicit_cast_def by (simp split: sum.splits)

lemma store_overwrites_at_destination:
  assumes "store_destination dst = Inr (ow, outer, target)"
    and "object_type (inner_object target) = UACPI_OBJECT_UNINITIALIZED"
  shows "store_to_reference is_rev1 dst src
           = Inr (replace_bottom dst (uacpi_unwrap_internal_reference src))"
proof -
  obtain k y where target: "target = Reference k y" and whole: "foldr Reference outer target = dst"
    using store_destination_shape [OF assms(1)] by blast
  have y: "y = Uninitialized" using assms(2) target by (simp add: uninitialized_type)
  have "replace_bottom dst (uacpi_unwrap_internal_reference src)
          = foldr Reference outer (Reference k (uacpi_unwrap_internal_reference src))"
    unfolding whole [symmetric] target y by (rule replace_bottom_chain) simp
  then show ?thesis
    unfolding store_to_reference_def assms(1)
    by (simp add: Let_def target y uacpi_object_assign_def)
qed

lemma bottom_of_unwrapped:
  "bottom_object (uacpi_unwrap_internal_reference obj) = bottom_object obj"
  by (induction obj rule: uacpi_unwrap_internal_reference.induct) simp_all

text \<open>
  For each of the four kinds the \<^verbatim>\<open>switch\<close> of \<^verbatim>\<open>store_to_reference\<close> settles on a
  reference whose inner object is the destination of the specification.
\<close>

lemma store_destination_resolved:
  assumes "kind = UACPI_REFERENCE_KIND_LOCAL \<or> kind = UACPI_REFERENCE_KIND_ARG
           \<or> kind = UACPI_REFERENCE_KIND_PKG_INDEX \<or> kind = UACPI_REFERENCE_KIND_NAMED"
  shows "\<exists>ow outer target.
           store_destination (Reference kind x) = Inr (ow, outer, target)
           \<and> inner_object target = resolved_destination kind x"
proof -
  consider (named) "kind = UACPI_REFERENCE_KIND_NAMED"
    | (index) "kind = UACPI_REFERENCE_KIND_PKG_INDEX"
    | (frame) "kind = UACPI_REFERENCE_KIND_LOCAL \<or> kind = UACPI_REFERENCE_KIND_ARG"
    using assms by blast
  then show ?thesis
  proof cases
    case named
    have "inner_object (reference_unwind (Reference kind x)) = bottom_object (Reference kind x)"
      by (rule inner_unwind_bottom) simp
    then show ?thesis
      using named by (auto simp add: store_destination_def resolved_destination_def)
  next
    case index
    show ?thesis
    proof (cases "object_type x = UACPI_OBJECT_REFERENCE")
      case True
      then have "inner_object (reference_unwind x) = bottom_object x"
        by (rule inner_unwind_bottom)
      then show ?thesis
        using index True
        by (auto simp add: store_destination_def resolved_destination_def wrapped_value_def)
    next
      case False
      then show ?thesis
        using index
        by (auto simp add: store_destination_def resolved_destination_def wrapped_value_def)
    qed
  next
    case frame
    let ?w = "uacpi_unwrap_internal_reference (Reference kind x)"
    show ?thesis
    proof (cases "object_type ?w = UACPI_OBJECT_REFERENCE")
      case True
      then have "inner_object (reference_unwind ?w) = bottom_object ?w"
        by (rule inner_unwind_bottom)
      also have "\<dots> = bottom_object x"
        unfolding bottom_of_unwrapped by simp
      finally have "inner_object (reference_unwind ?w) = bottom_object x" .
      then show ?thesis
        using frame True
        unfolding store_destination_def resolved_destination_def wrapped_value_def
        by (auto simp add: Let_def)
    next
      case False
      then show ?thesis
        using frame
        unfolding store_destination_def resolved_destination_def wrapped_value_def
        by (auto simp add: Let_def)
    qed
  qed
qed

text \<open>
  C9. For every reference of kind Local, Arg, PkgIndex or Named, whatever it holds: when
  the object the store is destined for (\<open>resolved_destination\<close>, defined from the
  words of the specification and not from the \<^verbatim>\<open>switch\<close> of the code) is of type
  Uninitialized, \<^verbatim>\<open>store_to_reference\<close> returns \<^verbatim>\<open>UACPI_STATUS_OK\<close> and leaves the
  destination with the object at the bottom of its chain replaced by the copy of the
  unwrapped source: an overwrite, whatever the kind. An implicit cast onto that
  Uninitialized object would have returned an error. In particular a Named reference
  that holds Uninitialized has the object replaced wholesale.
\<close>

theorem store_to_uninitialized_overwrites:
  assumes "kind = UACPI_REFERENCE_KIND_LOCAL \<or> kind = UACPI_REFERENCE_KIND_ARG
           \<or> kind = UACPI_REFERENCE_KIND_PKG_INDEX \<or> kind = UACPI_REFERENCE_KIND_NAMED"
    and "object_type (resolved_destination kind x) = UACPI_OBJECT_UNINITIALIZED"
  shows "store_to_reference is_rev1 (Reference kind x) src
           = Inr (replace_bottom (Reference kind x) (uacpi_unwrap_internal_reference src))
         \<and> (\<forall>y. object_assign_with_implicit_cast is_rev1 (resolved_destination kind x)
                   (uacpi_unwrap_internal_reference src) \<noteq> Inr y)"
proof -
  obtain ow outer target
    where dest: "store_destination (Reference kind x) = Inr (ow, outer, target)"
      and inner: "inner_object target = resolved_destination kind x"
    using store_destination_resolved [OF assms(1), of x] by blast
  have "object_type (inner_object target) = UACPI_OBJECT_UNINITIALIZED"
    unfolding inner by (rule assms(2))
  with dest have "store_to_reference is_rev1 (Reference kind x) src
      = Inr (replace_bottom (Reference kind x) (uacpi_unwrap_internal_reference src))"
    by (rule store_overwrites_at_destination)
  moreover have "resolved_destination kind x = Uninitialized"
    using assms(2) by (rule uninitialized_type)
  then have "\<forall>y. object_assign_with_implicit_cast is_rev1 (resolved_destination kind x)
                   (uacpi_unwrap_internal_reference src) \<noteq> Inr y"
    by (simp add: implicit_cast_uninitialized)
  ultimately show ?thesis by simp
qed

theorem store_to_uninitialized_overwrites_witness:
  "store_to_reference False (Reference UACPI_REFERENCE_KIND_NAMED Uninitialized) (Integer 5)
     = Inr (Reference UACPI_REFERENCE_KIND_NAMED (Integer 5))
   \<and> store_to_reference False
       (Reference UACPI_REFERENCE_KIND_LOCAL (Reference UACPI_REFERENCE_KIND_REFOF Uninitialized))
       (Reference UACPI_REFERENCE_KIND_ARG (String [0x41, 0]))
     = Inr (Reference UACPI_REFERENCE_KIND_LOCAL (Reference UACPI_REFERENCE_KIND_REFOF (String [0x41, 0])))
   \<and> store_to_reference True (Reference UACPI_REFERENCE_KIND_ARG Uninitialized) (Buffer [1, 2])
     = Inr (Reference UACPI_REFERENCE_KIND_ARG (Buffer [1, 2]))
   \<and> store_to_reference False
       (Reference UACPI_REFERENCE_KIND_ARG (Reference UACPI_REFERENCE_KIND_REFOF Uninitialized))
       (Integer 7)
     = Inr (Reference UACPI_REFERENCE_KIND_ARG (Reference UACPI_REFERENCE_KIND_REFOF (Integer 7)))
   \<and> store_to_reference False (Reference UACPI_REFERENCE_KIND_PKG_INDEX Uninitialized) (Integer 9)
     = Inr (Reference UACPI_REFERENCE_KIND_PKG_INDEX (Integer 9))"
proof -
  have named: "store_to_reference False (Reference UACPI_REFERENCE_KIND_NAMED Uninitialized) (Integer 5)
             = Inr (Reference UACPI_REFERENCE_KIND_NAMED (Integer 5))"
    using store_to_uninitialized_overwrites
            [of UACPI_REFERENCE_KIND_NAMED Uninitialized False "Integer 5"]
    by (simp add: resolved_destination_def)
  have local_ref: "store_to_reference False
       (Reference UACPI_REFERENCE_KIND_LOCAL (Reference UACPI_REFERENCE_KIND_REFOF Uninitialized))
       (Reference UACPI_REFERENCE_KIND_ARG (String [0x41, 0]))
     = Inr (Reference UACPI_REFERENCE_KIND_LOCAL (Reference UACPI_REFERENCE_KIND_REFOF (String [0x41, 0])))"
    using store_to_uninitialized_overwrites
            [of UACPI_REFERENCE_KIND_LOCAL "Reference UACPI_REFERENCE_KIND_REFOF Uninitialized"
                False "Reference UACPI_REFERENCE_KIND_ARG (String [0x41, 0])"]
    by (simp add: resolved_destination_def wrapped_value_def)
  have arg: "store_to_reference True (Reference UACPI_REFERENCE_KIND_ARG Uninitialized) (Buffer [1, 2])
     = Inr (Reference UACPI_REFERENCE_KIND_ARG (Buffer [1, 2]))"
    using store_to_uninitialized_overwrites
            [of UACPI_REFERENCE_KIND_ARG Uninitialized True "Buffer [1, 2]"]
    by (simp add: resolved_destination_def wrapped_value_def)
  have arg_ref: "store_to_reference False
       (Reference UACPI_REFERENCE_KIND_ARG (Reference UACPI_REFERENCE_KIND_REFOF Uninitialized))
       (Integer 7)
     = Inr (Reference UACPI_REFERENCE_KIND_ARG (Reference UACPI_REFERENCE_KIND_REFOF (Integer 7)))"
    using store_to_uninitialized_overwrites
            [of UACPI_REFERENCE_KIND_ARG "Reference UACPI_REFERENCE_KIND_REFOF Uninitialized"
                False "Integer 7"]
    by (simp add: resolved_destination_def wrapped_value_def)
  have index: "store_to_reference False (Reference UACPI_REFERENCE_KIND_PKG_INDEX Uninitialized) (Integer 9)
     = Inr (Reference UACPI_REFERENCE_KIND_PKG_INDEX (Integer 9))"
    using store_to_uninitialized_overwrites
            [of UACPI_REFERENCE_KIND_PKG_INDEX Uninitialized False "Integer 9"]
    by (simp add: resolved_destination_def wrapped_value_def)
  show ?thesis using named local_ref arg arg_ref index by (intro conjI)
qed

section \<open>Verification: the execution driver\<close>


lemma cur_frame_single: "call_stack ctx = [frame] \<Longrightarrow> cur_frame ctx = Some frame"
  by (simp add: cur_frame_def)

lemma handle_return_outermost:
  assumes "call_stack ctx = [frame]"
    and "ctx_ret ctx = Some slot"
    and "pending_ops frame = [op_ctx]"
    and "items op_ctx = ItemObject v # rest"
  shows "handle_return ctx =
         Some (None, ctx\<lparr>call_stack := [frame\<lparr>code_offset := method_size (call_frame.truncate frame)\<rparr>],
                          ctx_ret := Some v\<rparr>)"
  using assms
  unfolding handle_return_def
  by (simp add: cur_frame_def cur_op_ctx_def set_cur_frame_def method_get_ret_object_def
      method_get_ret_target_def ret_place_object_def ret_place_assign_def uacpi_object_assign_def
      Let_def)


lemma execute_loop_exec_ok:
  assumes "ctx_has_non_preempted_op ctx" "exec ctx = (None, next_ctx)"
  shows "execute_loop specs exec ctx = execute_loop specs exec (next_ctx\<lparr>skip_else := False\<rparr>)"
  using assms by (subst execute_loop.simps) (simp add: Let_def)

lemma execute_loop_end_block:
  assumes "\<not> ctx_has_non_preempted_op ctx" "cur_frame ctx = Some frame"
    and "maybe_end_block ctx = (True, next_ctx)"
  shows "execute_loop specs exec ctx = execute_loop specs exec next_ctx"
  using assms by (subst execute_loop.simps) (simp add: Let_def)


lemma execute_loop_frame_done:
  assumes "\<not> ctx_has_non_preempted_op ctx" "cur_frame ctx = Some frame"
    and "maybe_end_block ctx = (False, ctx)" "\<not> call_frame_has_code frame"
  shows "execute_loop specs exec ctx = execute_loop specs exec (ctx_reload_post_ret ctx)"
  using assms by (subst execute_loop.simps) (simp add: Let_def)

lemma execute_loop_break:
  assumes "call_stack ctx = []"
  shows "execute_loop specs exec ctx = Some (None, ctx)"
  using assms
  by (subst execute_loop.simps)
     (simp add: ctx_has_non_preempted_op_def cur_op_ctx_def cur_frame_def)

text \<open>
  A Return of the outermost frame outside every block but the base scope of the method
  ends the method: the loop leaves with \<^verbatim>\<open>UACPI_STATUS_OK\<close> and the returned object in
  \<^verbatim>\<open>ctx->ret\<close>.
\<close>

lemma return_in_method_body_completes:
  assumes stack: "call_stack ctx = [frame]"
    and slot: "ctx_ret ctx = Some Uninitialized"
    and ops: "pending_ops frame = [op_ctx]" "\<not> preempted op_ctx" "items op_ctx = ItemObject v # rest"
    and blocks: "code_blocks frame = [base]" "block_type base = CODE_BLOCK_SCOPE"
      "block_end base = method_size (call_frame.truncate frame)"
    and returned: "handle_return ctx = Some (status, returned)"
    and step: "exec ctx = (None, pop_op returned)"
  shows "\<exists>final. execute_loop specs exec ctx = Some (None, final) \<and> ctx_ret final = Some v"
proof -
  define size where "size = method_size (call_frame.truncate frame)"
  define f2 where "f2 = frame\<lparr>code_offset := size, pending_ops := []\<rparr>"
  define f3 where "f3 = f2\<lparr>code_blocks := [], cur_scope := uacpi_namespace_root\<rparr>"
  define c1 where "c1 = ctx\<lparr>call_stack := [f2], ctx_ret := Some v, skip_else := False\<rparr>"
  define c2 where "c2 = ctx\<lparr>call_stack := [f3], ctx_ret := Some v, skip_else := False\<rparr>"
  define c3 where "c3 = ctx\<lparr>call_stack := [], ctx_ret := Some v, skip_else := False\<rparr>"
  have ret: "returned = ctx\<lparr>call_stack := [frame\<lparr>code_offset := size\<rparr>], ctx_ret := Some v\<rparr>"
    using returned handle_return_outermost [OF stack slot ops(1) ops(3)]
    unfolding size_def by simp
  have popped: "(pop_op returned)\<lparr>skip_else := False\<rparr> = c1"
    unfolding ret pop_op_def c1_def f2_def by (simp add: cur_frame_def set_cur_frame_def ops)
  have a: "ctx_has_non_preempted_op ctx"
    unfolding ctx_has_non_preempted_op_def cur_op_ctx_def cur_frame_def
    using stack ops by simp
  have "execute_loop specs exec ctx
          = execute_loop specs exec ((pop_op returned)\<lparr>skip_else := False\<rparr>)"
    using a step by (rule execute_loop_exec_ok)
  then have r1: "execute_loop specs exec ctx = execute_loop specs exec c1"
    unfolding popped .
  have b1: "\<not> ctx_has_non_preempted_op c1"
    unfolding c1_def ctx_has_non_preempted_op_def cur_op_ctx_def cur_frame_def f2_def by simp
  have b2: "cur_frame c1 = Some f2" unfolding c1_def cur_frame_def by simp
  have b3: "maybe_end_block c1 = (True, c2)"
    unfolding maybe_end_block_def cur_block_def b2
    unfolding c1_def c2_def f3_def f2_def size_def
    by (simp add: set_cur_frame_def blocks frame_reset_post_end_block_def update_scope_def
        find_last_block_def Let_def)
  have r2: "execute_loop specs exec c1 = execute_loop specs exec c2"
    using b1 b2 b3 by (rule execute_loop_end_block)
  have d1: "\<not> ctx_has_non_preempted_op c2"
    unfolding c2_def ctx_has_non_preempted_op_def cur_op_ctx_def cur_frame_def f3_def f2_def
    by simp
  have d2: "cur_frame c2 = Some f3" unfolding c2_def cur_frame_def by simp
  have d3: "maybe_end_block c2 = (False, c2)"
    unfolding maybe_end_block_def cur_block_def d2 by (simp add: f3_def)
  have d4: "\<not> call_frame_has_code f3"
    unfolding call_frame_has_code_def call_frame_code_bytes_left_def
    by (simp add: f3_def f2_def size_def method_size_def call_frame.truncate_def)
  have d5: "ctx_reload_post_ret c2 = c3" unfolding ctx_reload_post_ret_def c2_def c3_def by simp
  have "execute_loop specs exec c2 = execute_loop specs exec (ctx_reload_post_ret c2)"
    using d1 d2 d3 d4 by (rule execute_loop_frame_done)
  then have r3: "execute_loop specs exec c2 = execute_loop specs exec c3"
    unfolding d5 .
  have r4: "execute_loop specs exec c3 = Some (None, c3)"
    by (rule execute_loop_break) (simp add: c3_def)
  have "execute_loop specs exec ctx = Some (None, c3)" unfolding r1 r2 r3 r4 ..
  moreover have "ctx_ret c3 = Some v" unfolding c3_def by simp
  ultimately show ?thesis by blast
qed

text \<open>
  An argument count that does not match returns before the loop, with the slot
  untouched; and what the label \<^verbatim>\<open>out\<close> writes depends on \<^verbatim>\<open>ctx->ret\<close> alone, not on
  the status.
\<close>

lemma execute_control_method_bad_args:
  assumes "length objects \<noteq> method_args"
  shows "uacpi_execute_control_method specs exec scope code method_args (Some objects) ret_given
           = Some (Some UACPI_STATUS_INVALID_ARGUMENT, None)"
  using assms by (simp add: uacpi_execute_control_method_def method_out_def Let_def)

lemma method_out_written_iff:
  "(method_out ret_given ctx = Some obj)
     = (ret_given \<and> ctx_ret ctx = Some obj \<and> object_type obj \<noteq> UACPI_OBJECT_UNINITIALIZED)"
  by (auto simp add: method_out_def split: option.splits)




end
